theory Spec2Isabelle
  imports Complex_Main "HOL-Library.List_Lexorder" "HOL-Library.Char_ord"
    "HOL-Library.Product_Lexorder" "HOL-Library.AList"
begin

section \<open>Python values, pandas frames and the outside world\<close>

text \<open>
  Date keys and security codes are Python strings; they are compared the way Python
  compares strings (lexicographically, character by character).  A number read from
  the database is a float or missing (\<open>None\<close>).
\<close>

datatype py_error = StopIteration | IndexError | KeyError | ValueError | FileNotFoundError

text \<open>
  A cell of a frame: the missing marker \<open>NaN\<close>, a string (object columns: the marker
  \<open>'NA'\<close> of the financial-indicator job), or a number.
\<close>

datatype cell = NaN | Str string | Num real

definition num_cell :: "real option \<Rightarrow> cell" where
  "num_cell v = (case v of None \<Rightarrow> NaN | Some x \<Rightarrow> Num x)"

text \<open>
  A \<open>pd.DataFrame\<close>: row labels, column labels and the cells, one list per row, one
  cell per column label.
\<close>

record frame =
  df_index :: "string list"
  df_columns :: "string list"
  df_values :: "cell list list"

text \<open>A Python \<open>dict\<close> keeps its keys in insertion order; assignment to an existing
  key keeps the key's position (\<open>AList.update\<close>).\<close>

type_synonym ('k, 'v) dict = "('k \<times> 'v) list"

text \<open>\<open>Series.unique()\<close>: each value once, in order of first appearance.\<close>

definition unique :: "string list \<Rightarrow> string list" where
  "unique xs = rev (remdups (rev xs))"

text \<open>\<open>sorted(list(set(xs)))\<close>.\<close>

definition sorted_set :: "string list \<Rightarrow> string list" where
  "sorted_set xs = sort (remdups xs)"

text \<open>\<open>d.get(k, NaN)\<close> on a dict of cells.\<close>

definition get_cell :: "(string, cell) dict \<Rightarrow> string \<Rightarrow> cell" where
  "get_cell d k = (case map_of d k of None \<Rightarrow> NaN | Some v \<Rightarrow> v)"

text \<open>
  \<open>pd.DataFrame(data, index=idx, columns=cols)\<close> on a dict of dicts: the cell of row
  label \<open>i\<close> and column label \<open>c\<close> is \<open>data[c][i]\<close> when both keys exist and missing
  otherwise.
\<close>

definition DataFrame :: "(string, (string, cell) dict) dict \<Rightarrow> string list \<Rightarrow> string list \<Rightarrow> frame" where
  "DataFrame d idx cols =
     \<lparr>df_index = idx, df_columns = cols,
      df_values = map (\<lambda>i. map (\<lambda>c. case map_of d c of None \<Rightarrow> NaN
                                               | Some col \<Rightarrow> get_cell col i) cols) idx\<rparr>"

text \<open>\<open>pd.DataFrame(data, index=idx)\<close>: the columns are the keys of the dict.\<close>

definition DataFrame_index :: "(string, (string, cell) dict) dict \<Rightarrow> string list \<Rightarrow> frame" where
  "DataFrame_index d idx = DataFrame d idx (map fst d)"

text \<open>
  \<open>pd.DataFrame(data, columns=cols)\<close>: the row labels are the keys of the inner dicts of
  the selected columns, each once, in order of first appearance.
\<close>

definition DataFrame_columns :: "(string, (string, cell) dict) dict \<Rightarrow> string list \<Rightarrow> frame" where
  "DataFrame_columns d cols =
     DataFrame d
       (unique (concat (map (\<lambda>c. case map_of d c of None \<Rightarrow> []
                                    | Some col \<Rightarrow> map fst col) cols)))
       cols"

text \<open>\<open>df.fillna(method='ffill')\<close>: every missing cell takes the last non-missing cell
  above it in its column.\<close>

fun ffill_rows :: "cell list \<Rightarrow> cell list list \<Rightarrow> cell list list" where
  "ffill_rows prev [] = []"
| "ffill_rows prev (r # rs) =
     (let r' = map2 (\<lambda>p c. if c = NaN then p else c) prev r in r' # ffill_rows r' rs)"

definition fillna_ffill :: "frame \<Rightarrow> frame" where
  "fillna_ffill df =
     df\<lparr>df_values := ffill_rows (replicate (length (df_columns df)) NaN) (df_values df)\<rparr>"

text \<open>\<open>df.replace(old, np.nan)\<close>.\<close>

definition replace_nan :: "cell \<Rightarrow> frame \<Rightarrow> frame" where
  "replace_nan old df =
     df\<lparr>df_values := map (map (\<lambda>c. if c = old then NaN else c)) (df_values df)\<rparr>"

text \<open>
  \<open>df.reindex(columns=cols)\<close> and \<open>df.reindex(index=idx)\<close>: cells are looked up by
  label, a label the frame does not have gives missing cells.  pandas refuses to
  reindex an axis that has duplicate labels (\<open>ValueError\<close>: cannot reindex from a
  duplicate axis) unless the axis already equals the target.
\<close>

definition reindex_columns :: "string list \<Rightarrow> frame \<Rightarrow> py_error + frame" where
  "reindex_columns cols df =
     (if df_columns df = cols then Inr df
      else if \<not> distinct (df_columns df) then Inl ValueError
      else Inr \<lparr>df_index = df_index df, df_columns = cols,
                df_values = map (\<lambda>row. map (\<lambda>c. case map_of (zip (df_columns df) row) c of
                                                    None \<Rightarrow> NaN | Some v \<Rightarrow> v) cols)
                              (df_values df)\<rparr>)"

definition reindex_index :: "string list \<Rightarrow> frame \<Rightarrow> py_error + frame" where
  "reindex_index idx df =
     (if df_index df = idx then Inr df
      else if \<not> distinct (df_index df) then Inl ValueError
      else Inr \<lparr>df_index = idx, df_columns = df_columns df,
                df_values = map (\<lambda>i. case map_of (zip (df_index df) (df_values df)) i of
                                        None \<Rightarrow> replicate (length (df_columns df)) NaN
                                      | Some row \<Rightarrow> row) idx\<rparr>)"

text \<open>\<open>df.reindex(index=idx, columns=cols)\<close>: columns first, then rows.\<close>

definition reindex :: "string list \<Rightarrow> string list \<Rightarrow> frame \<Rightarrow> py_error + frame" where
  "reindex idx cols df =
     (case reindex_columns cols df of Inl e \<Rightarrow> Inl e | Inr df' \<Rightarrow> reindex_index idx df')"

text \<open>
  \<open>a.append(b)\<close>: the rows of \<open>a\<close> followed by the rows of \<open>b\<close>; the columns are those
  of \<open>a\<close> followed by the columns only \<open>b\<close> has, and both frames are aligned to them.
\<close>

definition df_append :: "frame \<Rightarrow> frame \<Rightarrow> py_error + frame" where
  "df_append a b =
     (let cols = df_columns a @ filter (\<lambda>c. c \<notin> set (df_columns a)) (df_columns b) in
      case reindex_columns cols a of Inl e \<Rightarrow> Inl e
      | Inr a' \<Rightarrow> (case reindex_columns cols b of Inl e \<Rightarrow> Inl e
          | Inr b' \<Rightarrow> Inr \<lparr>df_index = df_index a @ df_index b, df_columns = cols,
                           df_values = df_values a' @ df_values b'\<rparr>))"

text \<open>The cell of a frame at a row label and a column label (first match on each
  axis), \<open>None\<close> when the frame has no such row or column.\<close>

definition cell_at :: "frame \<Rightarrow> string \<Rightarrow> string \<Rightarrow> cell option" where
  "cell_at df i c =
     (case map_of (zip (df_index df) (df_values df)) i of None \<Rightarrow> None
      | Some row \<Rightarrow> map_of (zip (df_columns df) row) c)"

text \<open>
  The world outside the process: the HDF5 files written so far, and the trace of the
  input and output performed (SQL queries with their begin date, file reads, file
  writes, and the message that reports a panel as up to date; progress and timing
  output is left out).
\<close>

datatype 'p event = Read_sql string | Read_hdf 'p | To_hdf 'p | Print string

record 'p world =
  files :: "'p \<Rightarrow> frame option"
  trace :: "'p event list"

definition emit :: "'p event list \<Rightarrow> 'p world \<Rightarrow> 'p world" where
  "emit es w = w\<lparr>trace := trace w @ es\<rparr>"

text \<open>\<open>pd.read_hdf(path)\<close> fails when the file does not exist.\<close>

definition read_hdf :: "'p \<Rightarrow> 'p world \<Rightarrow> py_error + (frame \<times> 'p world)" where
  "read_hdf p w =
     (case files w p of None \<Rightarrow> Inl FileNotFoundError
      | Some df \<Rightarrow> Inr (df, emit [Read_hdf p] w))"

definition to_hdf :: "'p \<Rightarrow> frame \<Rightarrow> 'p world \<Rightarrow> 'p world" where
  "to_hdf p df w = emit [To_hdf p] (w\<lparr>files := (files w)(p \<mapsto> df)\<rparr>)"

text \<open>\<open>sorted(list(set(self.index) - set(local.index)))\<close>.\<close>

definition new_dates :: "string list \<Rightarrow> frame \<Rightarrow> string list" where
  "new_dates index local = sorted_set (filter (\<lambda>d. d \<notin> set (df_index local)) index)"

text \<open>The SQL test \<open>code REGEXP '^[a-zA-Z]'\<close>.\<close>

definition regexp_alpha :: "string \<Rightarrow> bool" where
  "regexp_alpha s =
     (case s of [] \<Rightarrow> False
      | c # _ \<Rightarrow> (CHR ''a'' \<le> c \<and> c \<le> CHR ''z'') \<or> (CHR ''A'' \<le> c \<and> c \<le> CHR ''Z''))"

section \<open>HolderNumber (a\_share\_holder\_number.py)\<close>

record holder_row =
  S_INFO_WINDCODE :: string
  ANN_DT :: string
  S_HOLDER_ENDDATE :: string
  S_HOLDER_NUM :: "real option"

text \<open>
  \<open>read_data_before_begin_date\<close>: per code, the rows announced on the last
  announcement date before \<open>begin_date\<close>.
\<close>

definition hn_read_data_before_begin_date :: "holder_row list \<Rightarrow> string \<Rightarrow> holder_row list" where
  "hn_read_data_before_begin_date db begin_date =
     (let x = filter (\<lambda>r. ANN_DT r < begin_date \<and> \<not> regexp_alpha (S_INFO_WINDCODE r)) db in
      filter (\<lambda>f. \<exists>g \<in> set x. S_INFO_WINDCODE g = S_INFO_WINDCODE f \<and>
                   ANN_DT f = Max (set (map ANN_DT
                      (filter (\<lambda>h. S_INFO_WINDCODE h = S_INFO_WINDCODE f) x)))) db)"

definition hn_read_data_after_begin_date :: "holder_row list \<Rightarrow> string \<Rightarrow> holder_row list" where
  "hn_read_data_after_begin_date db begin_date =
     filter (\<lambda>r. begin_date \<le> ANN_DT r \<and> \<not> regexp_alpha (S_INFO_WINDCODE r)) db"

definition hn_read_data :: "holder_row list \<Rightarrow> string \<Rightarrow> 'p world \<Rightarrow> holder_row list \<times> 'p world" where
  "hn_read_data db begin_date w =
     (hn_read_data_before_begin_date db begin_date @ hn_read_data_after_begin_date db begin_date,
      emit [Read_sql begin_date, Read_sql begin_date] w)"

text \<open>\<open>sort_values(['S_INFO_WINDCODE', 'ANN_DT', 'S_HOLDER_ENDDATE'])\<close>, a stable sort.\<close>

definition hn_sort_values :: "holder_row list \<Rightarrow> holder_row list" where
  "hn_sort_values rs = sort_key (\<lambda>r. (S_INFO_WINDCODE r, ANN_DT r, S_HOLDER_ENDDATE r)) rs"

text \<open>
  The loop \<open>for record in data_iter\<close> of \<open>rewrite_data\<close> and \<open>update_data\<close>, on
  \<open>pre_record\<close>, the remaining records, \<open>stock_dict\<close> and \<open>holder_number\<close>.
\<close>

fun hn_loop :: "holder_row \<Rightarrow> holder_row list \<Rightarrow> (string, cell) dict \<Rightarrow>
    (string, (string, cell) dict) dict \<Rightarrow>
    holder_row \<times> (string, cell) dict \<times> (string, (string, cell) dict) dict" where
  "hn_loop pre_record [] stock_dict holder_number = (pre_record, stock_dict, holder_number)"
| "hn_loop pre_record (record # data_iter) stock_dict holder_number =
     (if S_INFO_WINDCODE pre_record \<noteq> S_INFO_WINDCODE record then
        (let stock_dict' = AList.update (ANN_DT pre_record) (num_cell (S_HOLDER_NUM pre_record)) stock_dict
         in hn_loop record data_iter []
              (AList.update (S_INFO_WINDCODE pre_record) stock_dict' holder_number))
      else if ANN_DT pre_record = ANN_DT record then
        hn_loop record data_iter stock_dict holder_number
      else
        hn_loop record data_iter
          (AList.update (ANN_DT pre_record) (num_cell (S_HOLDER_NUM pre_record)) stock_dict)
          holder_number)"

text \<open>The dict \<open>holder_number\<close> after the loop and the two statements that follow it;
  \<open>next(data_iter)\<close> raises \<open>StopIteration\<close> on an empty frame.\<close>

definition hn_holder_number :: "holder_row list \<Rightarrow> py_error + (string, (string, cell) dict) dict" where
  "hn_holder_number a_share_holder_number =
     (case a_share_holder_number of [] \<Rightarrow> Inl StopIteration
      | pre_record # data_iter \<Rightarrow>
          (case hn_loop pre_record data_iter [] [] of (pre_record', stock_dict, holder_number) \<Rightarrow>
             Inr (AList.update (S_INFO_WINDCODE pre_record')
                    (AList.update (ANN_DT pre_record') (num_cell (S_HOLDER_NUM pre_record')) stock_dict)
                    holder_number)))"

text \<open>The forward-filled frame over the calendar united with the announcement dates.\<close>

definition hn_filled :: "string list \<Rightarrow> holder_row list \<Rightarrow> py_error + frame" where
  "hn_filled index a_share_holder_number =
     (case hn_holder_number a_share_holder_number of Inl e \<Rightarrow> Inl e
      | Inr holder_number \<Rightarrow>
          Inr (fillna_ffill (DataFrame_index holder_number
                 (sorted_set (index @ map ANN_DT a_share_holder_number)))))"

definition hn_rewrite_data :: "string list \<Rightarrow> string list \<Rightarrow> holder_row list \<Rightarrow>
    string world \<Rightarrow> py_error + string world" where
  "hn_rewrite_data index column db w =
     (case hn_read_data db ''20160101'' w of (data, w1) \<Rightarrow>
        (case hn_filled index (hn_sort_values data) of Inl e \<Rightarrow> Inl e
         | Inr df \<Rightarrow> (case reindex index column df of Inl e \<Rightarrow> Inl e
             | Inr df' \<Rightarrow> Inr (to_hdf ''holder_number.hdf5'' df' w1))))"

definition hn_update_data :: "string list \<Rightarrow> string list \<Rightarrow> holder_row list \<Rightarrow>
    string world \<Rightarrow> py_error + string world" where
  "hn_update_data index column db w =
     (case read_hdf ''holder_number.hdf5'' w of Inl e \<Rightarrow> Inl e
      | Inr (holder_number_local, w1) \<Rightarrow>
          (case new_dates index holder_number_local of
             [] \<Rightarrow> Inr (emit [Print (CHR 0x0A # ''Data is already updated.'')] w1)
           | begin_date # _ \<Rightarrow>
               (case hn_read_data db begin_date w1 of (data, w2) \<Rightarrow>
                  (case hn_filled index (hn_sort_values data) of Inl e \<Rightarrow> Inl e
                   | Inr df \<Rightarrow> (case df_append holder_number_local df of Inl e \<Rightarrow> Inl e
                       | Inr df' \<Rightarrow> (case reindex index column df' of Inl e \<Rightarrow> Inl e
                           | Inr df'' \<Rightarrow> Inr (to_hdf ''holder_number.hdf5'' df'' w2)))))))"

section \<open>FloatVolume (float\_volume.py)\<close>

record float_row =
  WIND_CODE :: string
  CHANGE_DT :: string
  FLOAT_A_SHR :: "real option"

text \<open>The SQL test \<open>FLOAT_A_SHR > 0\<close>, false on a missing value.\<close>

definition positive :: "real option \<Rightarrow> bool" where
  "positive v = (case v of None \<Rightarrow> False | Some x \<Rightarrow> 0 < x)"

definition fv_read_data_before_begin_date :: "float_row list \<Rightarrow> string \<Rightarrow> float_row list" where
  "fv_read_data_before_begin_date db begin_date =
     (let x = filter (\<lambda>r. CHANGE_DT r \<le> begin_date \<and> \<not> regexp_alpha (WIND_CODE r)) db in
      filter (\<lambda>f. (\<exists>g \<in> set x. WIND_CODE g = WIND_CODE f \<and>
                   CHANGE_DT f = Max (set (map CHANGE_DT
                      (filter (\<lambda>h. WIND_CODE h = WIND_CODE f) x)))) \<and>
                  positive (FLOAT_A_SHR f)) db)"

definition fv_read_data_after_begin_date :: "float_row list \<Rightarrow> string \<Rightarrow> float_row list" where
  "fv_read_data_after_begin_date db begin_date =
     filter (\<lambda>r. begin_date \<le> CHANGE_DT r \<and> \<not> regexp_alpha (WIND_CODE r) \<and>
                 positive (FLOAT_A_SHR r)) db"

definition fv_read_data :: "float_row list \<Rightarrow> string \<Rightarrow> 'p world \<Rightarrow> float_row list \<times> 'p world" where
  "fv_read_data db begin_date w =
     (fv_read_data_before_begin_date db begin_date @ fv_read_data_after_begin_date db begin_date,
      emit [Read_sql begin_date, Read_sql begin_date] w)"

definition fv_sort_values :: "float_row list \<Rightarrow> float_row list" where
  "fv_sort_values rs = sort_key (\<lambda>r. (WIND_CODE r, CHANGE_DT r)) rs"

text \<open>\<open>for index in index_iter: stock_dict[index] = value\<close>; it exhausts the iterator.\<close>

definition fv_fill :: "cell \<Rightarrow> string list \<Rightarrow> (string, cell) dict \<Rightarrow> (string, cell) dict" where
  "fv_fill v index_iter stock_dict = fold (\<lambda>i. AList.update i v) index_iter stock_dict"

text \<open>
  The inner loop over \<open>index_iter\<close> for two records of one stock.  An iterator is the
  list of the dates it has not yielded yet; on \<open>break\<close> it is reset to the calendar from
  the first occurrence of the date just read.
\<close>

fun fv_between :: "string list \<Rightarrow> string \<Rightarrow> cell \<Rightarrow> string \<Rightarrow> cell \<Rightarrow> string list \<Rightarrow>
    (string, cell) dict \<Rightarrow> (string, cell) dict \<times> string list" where
  "fv_between self_index date_1 value_1 date_2 value_2 [] stock_dict = (stock_dict, [])"
| "fv_between self_index date_1 value_1 date_2 value_2 (index # index_iter) stock_dict =
     (if index < date_1 then
        fv_between self_index date_1 value_1 date_2 value_2 index_iter stock_dict
      else if index < date_2 then
        fv_between self_index date_1 value_1 date_2 value_2 index_iter
          (AList.update index value_1 stock_dict)
      else if index = date_2 then
        fv_between self_index date_1 value_1 date_2 value_2 index_iter
          (AList.update index value_2 stock_dict)
      else (stock_dict, dropWhile (\<lambda>d. d \<noteq> index) self_index))"

text \<open>The loop \<open>for record_ in float_a_shr[1:]\<close>, on \<open>pre_record_\<close>, the remaining
  records, \<open>index_iter\<close>, \<open>stock_dict\<close> and \<open>main_dict\<close>.\<close>

fun fv_loop :: "string list \<Rightarrow> float_row \<Rightarrow> float_row list \<Rightarrow> string list \<Rightarrow>
    (string, cell) dict \<Rightarrow> (string, (string, cell) dict) dict \<Rightarrow>
    float_row \<times> string list \<times> (string, cell) dict \<times> (string, (string, cell) dict) dict" where
  "fv_loop self_index pre_record [] index_iter stock_dict main_dict =
     (pre_record, index_iter, stock_dict, main_dict)"
| "fv_loop self_index pre_record (record # rest) index_iter stock_dict main_dict =
     (if WIND_CODE pre_record \<noteq> WIND_CODE record then
        fv_loop self_index record rest self_index []
          (AList.update (WIND_CODE pre_record)
             (fv_fill (num_cell (FLOAT_A_SHR pre_record)) index_iter stock_dict) main_dict)
      else
        (case fv_between self_index (CHANGE_DT pre_record) (num_cell (FLOAT_A_SHR pre_record))
                 (CHANGE_DT record) (num_cell (FLOAT_A_SHR record)) index_iter stock_dict of
           (stock_dict', index_iter') \<Rightarrow>
             fv_loop self_index record rest index_iter' stock_dict' main_dict))"

text \<open>The dict built by the walk that starts with iterator \<open>index_iter\<close>;
  \<open>float_a_shr[0]\<close> raises \<open>IndexError\<close> on an empty list.\<close>

definition fv_main_dict :: "string list \<Rightarrow> string list \<Rightarrow> float_row list \<Rightarrow>
    py_error + (string, (string, cell) dict) dict" where
  "fv_main_dict self_index index_iter float_a_shr =
     (case float_a_shr of [] \<Rightarrow> Inl IndexError
      | pre_record # rest \<Rightarrow>
          (case fv_loop self_index pre_record rest index_iter [] [] of
             (pre_record', index_iter', stock_dict, main_dict) \<Rightarrow>
               Inr (AList.update (WIND_CODE pre_record')
                      (fv_fill (num_cell (FLOAT_A_SHR pre_record')) index_iter' stock_dict)
                      main_dict)))"

definition fv_rewrite_data :: "string list \<Rightarrow> string list \<Rightarrow> float_row list \<Rightarrow>
    string world \<Rightarrow> py_error + string world" where
  "fv_rewrite_data index column db w =
     (case fv_read_data db ''20160101'' w of (float_a_shr, w1) \<Rightarrow>
        (case fv_main_dict index index (fv_sort_values float_a_shr) of Inl e \<Rightarrow> Inl e
         | Inr main_dict \<Rightarrow>
             Inr (to_hdf ''float_volume.hdf5'' (DataFrame_columns main_dict column) w1)))"

definition fv_update_data :: "string list \<Rightarrow> string list \<Rightarrow> float_row list \<Rightarrow>
    string world \<Rightarrow> py_error + string world" where
  "fv_update_data index column db w =
     (case read_hdf ''float_volume.hdf5'' w of Inl e \<Rightarrow> Inl e
      | Inr (exist_data, w1) \<Rightarrow>
          (case new_dates index exist_data of
             [] \<Rightarrow> Inr (emit [Print (CHR 0x0A # ''Data is already updated.'')] w1)
           | begin_date # new_date \<Rightarrow>
               (case fv_read_data db begin_date w1 of (new_data, w2) \<Rightarrow>
                  (case fv_main_dict index (begin_date # new_date) (fv_sort_values new_data) of
                     Inl e \<Rightarrow> Inl e
                   | Inr update \<Rightarrow>
                       (case df_append exist_data (DataFrame_columns update column) of
                          Inl e \<Rightarrow> Inl e
                        | Inr exist_data' \<Rightarrow>
                            Inr (to_hdf ''float_volume.hdf5'' exist_data' w2))))))"

section \<open>The factor-splitting jobs (a\_share\_eod\_derivative\_indicator.py, a\_share\_l2indicators.py)\<close>

text \<open>A row of a table with several factor columns: the value of each factor by its
  column name.\<close>

record trade_row =
  WINDCODE :: string
  TRADE_DT :: string
  factor_value :: "string \<Rightarrow> real option"

text \<open>The \<open>max\<close> of a group skips missing values and is missing when all are.\<close>

definition group_max :: "real option list \<Rightarrow> cell" where
  "group_max vs =
     (case map the (filter (\<lambda>v. v \<noteq> None) vs) of [] \<Rightarrow> NaN | x # xs \<Rightarrow> Num (fold max xs x))"

text \<open>
  \<open>data.groupby(['TRADE_DT', 'S_INFO_WINDCODE']).max().unstack()[factor]\<close>: rows are
  the dates of the data and columns its codes, both sorted; a cell is the maximum of
  the factor over the rows of that date and code.  Selecting a factor from the
  unstacked frame of an empty data set raises \<open>KeyError\<close>.
\<close>

definition unstack_data :: "trade_row list \<Rightarrow> string \<Rightarrow> py_error + frame" where
  "unstack_data data factor =
     (if data = [] then Inl KeyError
      else Inr \<lparr>df_index = sorted_set (map TRADE_DT data),
                df_columns = sorted_set (map WINDCODE data),
                df_values =
                  map (\<lambda>d. map (\<lambda>c. group_max (map (\<lambda>r. factor_value r factor)
                                       (filter (\<lambda>r. TRADE_DT r = d \<and> WINDCODE r = c) data)))
                              (sorted_set (map WINDCODE data)))
                      (sorted_set (map TRADE_DT data))\<rparr>)"

text \<open>The loop \<open>for factor in self.target_column\<close> of \<open>rewrite_data\<close>.\<close>

fun factor_rewrite_loop :: "string list \<Rightarrow> trade_row list \<Rightarrow> string list \<Rightarrow>
    string world \<Rightarrow> py_error + string world" where
  "factor_rewrite_loop column data [] w = Inr w"
| "factor_rewrite_loop column data (factor # target_column) w =
     (case unstack_data data factor of Inl e \<Rightarrow> Inl e
      | Inr t \<Rightarrow> (case reindex_columns column t of Inl e \<Rightarrow> Inl e
          | Inr factor_table \<Rightarrow>
              factor_rewrite_loop column data target_column
                (to_hdf (factor @ ''.hdf5'') factor_table w)))"

text \<open>The loop \<open>for factor in self.target_column\<close> of \<open>update_data\<close>.\<close>

fun factor_update_loop :: "string list \<Rightarrow> trade_row list \<Rightarrow> string list \<Rightarrow>
    string world \<Rightarrow> py_error + string world" where
  "factor_update_loop column data [] w = Inr w"
| "factor_update_loop column data (factor # target_column) w =
     (case read_hdf (factor @ ''.hdf5'') w of Inl e \<Rightarrow> Inl e
      | Inr (exist_data, w1) \<Rightarrow>
          (case unstack_data data factor of Inl e \<Rightarrow> Inl e
           | Inr t \<Rightarrow> (case df_append exist_data t of Inl e \<Rightarrow> Inl e
               | Inr t' \<Rightarrow> (case reindex_columns column t' of Inl e \<Rightarrow> Inl e
                   | Inr factor_table \<Rightarrow>
                       factor_update_loop column data target_column
                         (to_hdf (factor @ ''.hdf5'') factor_table w1)))))"

subsection \<open>EodDerivativeIndicator\<close>

definition edi_target_column :: "string list" where
  "edi_target_column =
     [''S_VAL_MV'', ''S_DQ_MV'', ''S_PQ_HIGH_52W_'', ''S_PQ_LOW_52W_'', ''S_VAL_PE'', ''S_VAL_PB_NEW'',
      ''S_VAL_PE_TTM'', ''S_VAL_PCF_OCF'', ''S_VAL_PCF_OCFTTM'', ''S_VAL_PCF_NCF'', ''S_VAL_PCF_NCFTTM'',
      ''S_VAL_PS'', ''S_VAL_PS_TTM'', ''S_DQ_TURN'', ''S_DQ_FREETURNOVER'', ''TOT_SHR_TODAY'',
      ''FLOAT_A_SHR_TODAY'', ''S_DQ_CLOSE_TODAY'', ''S_PRICE_DIV_DPS'', ''S_PQ_ADJHIGH_52W'',
      ''S_PQ_ADJLOW_52W'', ''FREE_SHARES_TODAY'', ''NET_PROFIT_PARENT_COMP_TTM'',
      ''NET_PROFIT_PARENT_COMP_LYR'', ''NET_ASSETS_TODAY'', ''NET_CASH_FLOWS_OPER_ACT_TTM'',
      ''NET_CASH_FLOWS_OPER_ACT_LYR'', ''OPER_REV_TTM'', ''OPER_REV_LYR'',
      ''NET_INCR_CASH_CASH_EQU_TTM'', ''NET_INCR_CASH_CASH_EQU_LYR'', ''UP_DOWN_LIMIT_STATUS'',
      ''LOWEST_HIGHEST_STATUS'']"

definition chunk_size :: nat where
  "chunk_size = 1000000"

text \<open>
  The paging loop of \<open>read_data\<close>: the pages \<open>LIMIT chunk_size OFFSET offset\<close> of the
  selected rows, up to and including the first page shorter than \<open>chunk_size\<close>.
\<close>

function edi_read_pages :: "trade_row list \<Rightarrow> nat \<Rightarrow> trade_row list list" where
  "edi_read_pages selected offset =
     (if length (take chunk_size (drop offset selected)) < chunk_size
      then [take chunk_size (drop offset selected)]
      else take chunk_size (drop offset selected) # edi_read_pages selected (offset + chunk_size))"
  by pat_completeness auto
termination
  by (relation "measure (\<lambda>(selected, offset). length selected - offset)")
     (auto simp: chunk_size_def)

definition edi_read_data :: "trade_row list \<Rightarrow> string \<Rightarrow> 'p world \<Rightarrow> trade_row list \<times> 'p world" where
  "edi_read_data db begin_date w =
     (let dfs = edi_read_pages (filter (\<lambda>r. begin_date \<le> TRADE_DT r) db) 0
      in (concat dfs, emit (map (\<lambda>_. Read_sql begin_date) dfs) w))"

definition edi_rewrite_data :: "string list \<Rightarrow> string list \<Rightarrow> trade_row list \<Rightarrow>
    string world \<Rightarrow> py_error + string world" where
  "edi_rewrite_data index column db w =
     (case edi_read_data db ''20160101'' w of (eod_derivative_indicator, w1) \<Rightarrow>
        factor_rewrite_loop column eod_derivative_indicator edi_target_column w1)"

definition edi_update_data :: "string list \<Rightarrow> string list \<Rightarrow> trade_row list \<Rightarrow>
    string world \<Rightarrow> py_error + string world" where
  "edi_update_data index column db w =
     (case read_hdf (''S_VAL_MV'' @ ''.hdf5'') w of Inl e \<Rightarrow> Inl e
      | Inr (s_val_mv, w1) \<Rightarrow>
          (case new_dates index s_val_mv of
             [] \<Rightarrow> Inr (emit [Print ''Data is already updated!''] w1)
           | begin_date # _ \<Rightarrow>
               (case edi_read_data db begin_date w1 of (eod_derivative_indicator, w2) \<Rightarrow>
                  factor_update_loop column eod_derivative_indicator edi_target_column w2)))"

subsection \<open>L2Indicators\<close>

definition l2_target_column :: "string list" where
  "l2_target_column =
     [''S_LI_INITIATIVEBUYRATE'', ''S_LI_INITIATIVEBUYMONEY'', ''S_LI_INITIATIVEBUYAMOUNT'',
      ''S_LI_INITIATIVESELLRATE'', ''S_LI_INITIATIVESELLMONEY'', ''S_LI_INITIATIVESELLAMOUNT'',
      ''S_LI_LARGEBUYRATE'', ''S_LI_LARGEBUYMONEY'', ''S_LI_LARGEBUYAMOUNT'', ''S_LI_LARGESELLRATE'',
      ''S_LI_LARGESELLMONEY'', ''S_LI_LARGESELLAMOUNT'', ''S_LI_ENTRUSTRATE'',
      ''S_LI_ENTRUDIFFERAMOUNT'', ''S_LI_ENTRUDIFFERAMONEY'', ''S_LI_ENTRUSTBUYMONEY'',
      ''S_LI_ENTRUSTSELLMONEY'', ''S_LI_ENTRUSTBUYAMOUNT'', ''S_LI_ENTRUSTSELLAMOUNT'']"

definition l2_read_data :: "trade_row list \<Rightarrow> string \<Rightarrow> 'p world \<Rightarrow> trade_row list \<times> 'p world" where
  "l2_read_data db begin_date w =
     (filter (\<lambda>r. begin_date \<le> TRADE_DT r) db, emit [Read_sql begin_date] w)"

definition l2_rewrite_data :: "string list \<Rightarrow> string list \<Rightarrow> trade_row list \<Rightarrow>
    string world \<Rightarrow> py_error + string world" where
  "l2_rewrite_data index column db w =
     (case l2_read_data db ''20160101'' w of (a_share_l2indicators, w1) \<Rightarrow>
        factor_rewrite_loop column a_share_l2indicators l2_target_column w1)"

definition l2_update_data :: "string list \<Rightarrow> string list \<Rightarrow> trade_row list \<Rightarrow>
    string world \<Rightarrow> py_error + string world" where
  "l2_update_data index column db w =
     (case read_hdf (''S_LI_ENTRUSTRATE'' @ ''.hdf5'') w of Inl e \<Rightarrow> Inl e
      | Inr (entrustrate, w1) \<Rightarrow>
          (case new_dates index entrustrate of
             [] \<Rightarrow> Inr (emit [Print ''Data is already updated!''] w1)
           | begin_date # _ \<Rightarrow>
               (case l2_read_data db begin_date w1 of (a_share_income, w2) \<Rightarrow>
                  factor_update_loop column a_share_income l2_target_column w2)))"

section \<open>AnnFinancialIndicator (a\_share\_ann\_financial\_indicator.py)\<close>

definition afi_target_column :: "string list" where
  "afi_target_column =
     [''S_FA_EPS_DILUTED'', ''S_FA_EPS_BASIC'', ''S_FA_EPS_DILUTED2'', ''S_FA_EPS_EX'',
      ''S_FA_EPS_EXBASIC'', ''S_FA_EPS_EXDILUTED'', ''S_FA_BPS'', ''S_FA_BPS_SH'', ''S_FA_BPS_ADJUST'',
      ''ROE_DILUTED'', ''ROE_WEIGHTED'', ''ROE_EX'', ''ROE_EXWEIGHTED'', ''NET_PROFIT'', ''RD_EXPENSE'',
      ''S_FA_EXTRAORDINARY'', ''S_FA_CURRENT'', ''S_FA_QUICK'', ''S_FA_ARTURN'', ''S_FA_INVTURN'',
      ''S_FT_DEBTTOASSETS'', ''S_FA_OCFPS'', ''S_FA_YOYOCFPS'', ''S_FA_DEDUCTEDPROFIT'',
      ''S_FA_DEDUCTEDPROFIT_YOY'', ''GROWTH_BPS_SH'', ''S_FA_YOYEQUITY'', ''YOY_ROE_DILUTED'',
      ''YOY_NET_CASH_FLOWS'', ''S_FA_YOYEPS_BASIC'', ''S_FA_YOYEPS_DILUTED'', ''S_FA_YOYOP'',
      ''S_FA_YOYEBT'', ''NET_PROFIT_YOY'']"

text \<open>A row of the table, and a row as the query returns it: \<open>YEAR\<close> is
  \<open>left(REPORT_PERIOD, 4)\<close> and \<open>SEASON\<close> is \<open>right(REPORT_PERIOD, 4)\<close>.\<close>

record ann_row =
  ann_WINDCODE :: string
  REPORT_PERIOD :: string
  ann_value :: "string \<Rightarrow> real option"

record fin_row =
  fin_WINDCODE :: string
  YEAR :: string
  SEASON :: string
  fin_value :: "string \<Rightarrow> real option"

definition afi_read_data :: "ann_row list \<Rightarrow> string \<Rightarrow> 'p world \<Rightarrow> fin_row list \<times> 'p world" where
  "afi_read_data db begin_date w =
     (map (\<lambda>r. \<lparr>fin_WINDCODE = ann_WINDCODE r, YEAR = take 4 (REPORT_PERIOD r),
                SEASON = drop (length (REPORT_PERIOD r) - 4) (REPORT_PERIOD r),
                fin_value = ann_value r\<rparr>)
          (filter (\<lambda>r. begin_date \<le> REPORT_PERIOD r) db),
      emit [Read_sql begin_date] w)"

text \<open>\<open>bisect.bisect(a, x)\<close> (that is \<open>bisect_right\<close>): a binary search for the
  insertion point to the right of \<open>x\<close>.\<close>

function bisect_loop :: "string list \<Rightarrow> string \<Rightarrow> nat \<Rightarrow> nat \<Rightarrow> nat" where
  "bisect_loop a x lo hi =
     (if lo < hi then
        (if x < a ! ((lo + hi) div 2) then bisect_loop a x lo ((lo + hi) div 2)
         else bisect_loop a x ((lo + hi) div 2 + 1) hi)
      else lo)"
  by pat_completeness auto
termination
  by (relation "measure (\<lambda>(a, x, lo, hi). hi - lo)") auto

definition bisect :: "string list \<Rightarrow> string \<Rightarrow> nat" where
  "bisect a x = bisect_loop a x 0 (length a)"

text \<open>\<open>self.index[bisect(self.index, '{}0101'.format(year))]\<close>; the subscript raises
  \<open>IndexError\<close> when the insertion point is the end of the calendar.\<close>

definition afi_first_date :: "string list \<Rightarrow> string \<Rightarrow> py_error + string" where
  "afi_first_date index year =
     (let i = bisect index (year @ ''0101'')
      in if i < length index then Inr (index ! i) else Inl IndexError)"

text \<open>A missing value is stored as the string \<open>'NA'\<close>.\<close>

definition na_cell :: "real option \<Rightarrow> cell" where
  "na_cell v = (case v of None \<Rightarrow> Str ''NA'' | Some x \<Rightarrow> Num x)"

text \<open>
  \<open>stock_dict\<close> maps a factor to the dict of its dated values; \<open>main_dict\<close> maps a
  season and a factor to the dict, by code, of such dicts.  The three loops
  \<open>for factor in self.target_column\<close> of the walk: assigning the values of a record
  at a date, copying \<open>stock_dict\<close> into \<open>main_dict\<close>, and clearing \<open>stock_dict\<close>.
\<close>

type_synonym stock_dicts = "string \<Rightarrow> (string, cell) dict"

type_synonym main_dicts = "string \<times> string \<Rightarrow> (string, (string, cell) dict) dict"

definition afi_assign :: "string list \<Rightarrow> fin_row \<Rightarrow> string \<Rightarrow> stock_dicts \<Rightarrow> stock_dicts" where
  "afi_assign target_column pre_record date stock_dict =
     fold (\<lambda>factor sd. sd(factor := AList.update date (na_cell (fin_value pre_record factor)) (sd factor)))
       target_column stock_dict"

definition afi_copy :: "string list \<Rightarrow> string \<Rightarrow> string \<Rightarrow> stock_dicts \<Rightarrow> main_dicts \<Rightarrow> main_dicts" where
  "afi_copy target_column season code stock_dict main_dict =
     fold (\<lambda>factor md. md((season, factor) := AList.update code (stock_dict factor) (md (season, factor))))
       target_column main_dict"

definition afi_clear :: "string list \<Rightarrow> stock_dicts \<Rightarrow> stock_dicts" where
  "afi_clear target_column stock_dict = fold (\<lambda>factor sd. sd(factor := [])) target_column stock_dict"

text \<open>The loop \<open>for record in data_iter\<close>.\<close>

fun afi_loop :: "string list \<Rightarrow> string list \<Rightarrow> fin_row \<Rightarrow> fin_row list \<Rightarrow> stock_dicts \<Rightarrow>
    main_dicts \<Rightarrow> py_error + (fin_row \<times> stock_dicts \<times> main_dicts)" where
  "afi_loop index target_column pre_record [] stock_dict main_dict =
     Inr (pre_record, stock_dict, main_dict)"
| "afi_loop index target_column pre_record (record # data_iter) stock_dict main_dict =
     (case afi_first_date index (YEAR pre_record) of Inl e \<Rightarrow> Inl e
      | Inr date \<Rightarrow>
          (let stock_dict' = afi_assign target_column pre_record date stock_dict in
           if fin_WINDCODE pre_record \<noteq> fin_WINDCODE record then
             afi_loop index target_column record data_iter (afi_clear target_column stock_dict')
               (afi_copy target_column (SEASON pre_record) (fin_WINDCODE pre_record)
                  stock_dict' main_dict)
           else afi_loop index target_column record data_iter stock_dict' main_dict))"

text \<open>\<open>main_dict\<close> after the loop and the statements that follow it.\<close>

definition afi_main_dict :: "string list \<Rightarrow> string list \<Rightarrow> fin_row list \<Rightarrow> py_error + main_dicts" where
  "afi_main_dict index target_column financial_indicator =
     (case financial_indicator of [] \<Rightarrow> Inl StopIteration
      | pre_record # data_iter \<Rightarrow>
          (case afi_loop index target_column pre_record data_iter (\<lambda>factor. []) (\<lambda>sf. []) of
             Inl e \<Rightarrow> Inl e
           | Inr (pre_record', stock_dict, main_dict) \<Rightarrow>
               (case afi_first_date index (YEAR pre_record') of Inl e \<Rightarrow> Inl e
                | Inr date \<Rightarrow>
                    Inr (afi_copy target_column (SEASON pre_record') (fin_WINDCODE pre_record')
                           (afi_assign target_column pre_record' date stock_dict) main_dict))))"

text \<open>The panel of one season and factor: built over the given dates and the universe,
  forward-filled, then the marker \<open>'NA'\<close> replaced by the missing value.\<close>

definition afi_panel :: "main_dicts \<Rightarrow> string list \<Rightarrow> string list \<Rightarrow> string \<Rightarrow> string \<Rightarrow> frame" where
  "afi_panel main_dict dates column s factor =
     replace_nan (Str ''NA'') (fillna_ffill (DataFrame (main_dict (s, factor)) dates column))"

text \<open>
  The output loops of \<open>rewrite_data\<close>.  The file of a factor and a season number,
  \<open>'{}_{}.hdf5'.format(factor, i+1)\<close>, is named by the pair of the two.
\<close>

fun afi_write_factors :: "main_dicts \<Rightarrow> string list \<Rightarrow> string list \<Rightarrow> string \<Rightarrow> nat \<Rightarrow>
    string list \<Rightarrow> (string \<times> nat) world \<Rightarrow> (string \<times> nat) world" where
  "afi_write_factors main_dict index column s i [] w = w"
| "afi_write_factors main_dict index column s i (factor # target_column) w =
     afi_write_factors main_dict index column s i target_column
       (to_hdf (factor, i + 1) (afi_panel main_dict index column s factor) w)"

fun afi_write_seasons :: "main_dicts \<Rightarrow> string list \<Rightarrow> string list \<Rightarrow> string list \<Rightarrow> nat \<Rightarrow>
    string list \<Rightarrow> (string \<times> nat) world \<Rightarrow> (string \<times> nat) world" where
  "afi_write_seasons main_dict index column target_column i [] w = w"
| "afi_write_seasons main_dict index column target_column i (s # seasons) w =
     afi_write_seasons main_dict index column target_column (i + 1) seasons
       (afi_write_factors main_dict index column s i target_column w)"

definition afi_rewrite_sort :: "fin_row list \<Rightarrow> fin_row list" where
  "afi_rewrite_sort rs = sort_key (\<lambda>r. (SEASON r, fin_WINDCODE r, YEAR r)) rs"

definition afi_rewrite_data :: "string list \<Rightarrow> string list \<Rightarrow> ann_row list \<Rightarrow>
    (string \<times> nat) world \<Rightarrow> py_error + (string \<times> nat) world" where
  "afi_rewrite_data index column db w =
     (case afi_read_data db ''20160101'' w of (data, w1) \<Rightarrow>
        (case afi_main_dict index afi_target_column (afi_rewrite_sort data) of Inl e \<Rightarrow> Inl e
         | Inr main_dict \<Rightarrow>
             Inr (afi_write_seasons main_dict index column afi_target_column 0
                    (unique (map SEASON (afi_rewrite_sort data))) w1)))"

text \<open>The output loops of \<open>update_data\<close>.\<close>

fun afi_append_factors :: "main_dicts \<Rightarrow> string list \<Rightarrow> string list \<Rightarrow> string \<Rightarrow> nat \<Rightarrow>
    string list \<Rightarrow> (string \<times> nat) world \<Rightarrow> py_error + (string \<times> nat) world" where
  "afi_append_factors main_dict new_date column s i [] w = Inr w"
| "afi_append_factors main_dict new_date column s i (factor # target_column) w =
     (case read_hdf (factor, i + 1) w of Inl e \<Rightarrow> Inl e
      | Inr (exist_data, w1) \<Rightarrow>
          (case df_append exist_data (afi_panel main_dict new_date column s factor) of
             Inl e \<Rightarrow> Inl e
           | Inr df \<Rightarrow>
               afi_append_factors main_dict new_date column s i target_column
                 (to_hdf (factor, i + 1) df w1)))"

fun afi_append_seasons :: "main_dicts \<Rightarrow> string list \<Rightarrow> string list \<Rightarrow> string list \<Rightarrow> nat \<Rightarrow>
    string list \<Rightarrow> (string \<times> nat) world \<Rightarrow> py_error + (string \<times> nat) world" where
  "afi_append_seasons main_dict new_date column target_column i [] w = Inr w"
| "afi_append_seasons main_dict new_date column target_column i (s # seasons) w =
     (case afi_append_factors main_dict new_date column s i target_column w of Inl e \<Rightarrow> Inl e
      | Inr w1 \<Rightarrow>
          afi_append_seasons main_dict new_date column target_column (i + 1) seasons w1)"

definition afi_update_sort :: "fin_row list \<Rightarrow> fin_row list" where
  "afi_update_sort rs = sort_key (\<lambda>r. (fin_WINDCODE r, YEAR r)) rs"

definition afi_update_data :: "string list \<Rightarrow> string list \<Rightarrow> ann_row list \<Rightarrow>
    (string \<times> nat) world \<Rightarrow> py_error + (string \<times> nat) world" where
  "afi_update_data index column db w =
     (case read_hdf (''S_FA_EPS_DILUTED'', 0 + 1) w of Inl e \<Rightarrow> Inl e
      | Inr (s_fa_eps_diluted, w1) \<Rightarrow>
          (case new_dates index s_fa_eps_diluted of
             [] \<Rightarrow> Inr (emit [Print ''Data is already updated!''] w1)
           | begin_date # new_date \<Rightarrow>
               (case afi_read_data db begin_date w1 of (data, w2) \<Rightarrow>
                  (case afi_main_dict index afi_target_column (afi_update_sort data) of
                     Inl e \<Rightarrow> Inl e
                   | Inr main_dict \<Rightarrow>
                       afi_append_seasons main_dict (begin_date # new_date) column
                         afi_target_column 0 (unique (map SEASON (afi_update_sort data))) w2))))"

section \<open>Repeated invocation\<close>

text \<open>Running an operation \<open>n\<close> times in a row, stopping at the first exception.\<close>

fun repeat_run :: "nat \<Rightarrow> ('w \<Rightarrow> py_error + 'w) \<Rightarrow> 'w \<Rightarrow> py_error + 'w" where
  "repeat_run 0 f w = Inr w"
| "repeat_run (Suc n) f w = (case f w of Inl e \<Rightarrow> Inl e | Inr w' \<Rightarrow> repeat_run n f w')"

section \<open>Notions used in the statements\<close>

text \<open>\<open>d[c][k]\<close> on a dict of dicts, \<open>None\<close> when either key is missing.\<close>

definition dict_get2 :: "('a, ('b, 'v) dict) dict \<Rightarrow> 'a \<Rightarrow> 'b \<Rightarrow> 'v option" where
  "dict_get2 d c k = (case map_of d c of None \<Rightarrow> None | Some col \<Rightarrow> map_of col k)"

text \<open>The value carried to the end of a list of dates: the cell of the last date that
  has one, and the initial value when no date has.\<close>

definition carry :: "(string \<Rightarrow> cell) \<Rightarrow> cell \<Rightarrow> string list \<Rightarrow> cell" where
  "carry g a ds = fold (\<lambda>d a. if g d = NaN then a else g d) ds a"

text \<open>
  The record that last-observation-carried-forward shows on date \<open>d\<close>: among the
  records keyed on or before \<open>d\<close>, the last one in the list of those with the latest
  key; \<open>None\<close> when no record is keyed on or before \<open>d\<close>.
\<close>

definition locf_record :: "('r \<Rightarrow> string) \<Rightarrow> 'r list \<Rightarrow> string \<Rightarrow> 'r option" where
  "locf_record key rs d =
     (if filter (\<lambda>r. key r \<le> d) rs = [] then None
      else Some (last (filter (\<lambda>r. key r = Max (set (map key (filter (\<lambda>r. key r \<le> d) rs)))) rs)))"

text \<open>The anchor date the walk computes for a record of the financial-indicator job.\<close>

definition afi_anchor :: "string list \<Rightarrow> fin_row \<Rightarrow> string" where
  "afi_anchor index r = index ! bisect index (YEAR r @ ''0101'')"

text \<open>In a stream of records, neighbours with the same code have the same season.\<close>

fun one_season_per_run :: "fin_row list \<Rightarrow> bool" where
  "one_season_per_run [] = True"
| "one_season_per_run [x] = True"
| "one_season_per_run (x # y # zs) =
     ((fin_WINDCODE x = fin_WINDCODE y \<longrightarrow> SEASON x = SEASON y) \<and> one_season_per_run (y # zs))"

text \<open>In a stream of records, neighbours with the same code have the same season, and
  a season and code that ends does not come back.\<close>

fun afi_grouped :: "fin_row list \<Rightarrow> bool" where
  "afi_grouped [] = True"
| "afi_grouped [x] = True"
| "afi_grouped (x # y # zs) =
     ((fin_WINDCODE x = fin_WINDCODE y \<longrightarrow> SEASON x = SEASON y) \<and>
      (fin_WINDCODE x \<noteq> fin_WINDCODE y \<longrightarrow>
         (\<forall>z \<in> set (y # zs). SEASON z \<noteq> SEASON x \<or> fin_WINDCODE z \<noteq> fin_WINDCODE x)) \<and>
      afi_grouped (y # zs))"

section \<open>Example inputs\<close>

text \<open>A panel over two dates and one security, a store that holds it as the
  HolderNumber panel and as the designated panels of the EOD and L2 jobs (and no
  other panel), and a store of the financial-indicator job that holds it as the
  designated panel (and no other panel).\<close>

definition example_panel :: frame where
  "example_panel =
     \<lparr>df_index = [''20160104'', ''20160105''], df_columns = [''000001.SZ''],
      df_values = [[Num 7], [NaN]]\<rparr>"

definition example_store :: "string world" where
  "example_store =
     \<lparr>files = [''holder_number.hdf5'' \<mapsto> example_panel, ''S_VAL_MV.hdf5'' \<mapsto> example_panel,
               ''S_LI_ENTRUSTRATE.hdf5'' \<mapsto> example_panel],
      trace = []\<rparr>"

definition example_season_store :: "(string \<times> nat) world" where
  "example_season_store =
     \<lparr>files = [(''S_FA_EPS_DILUTED'', 1) \<mapsto> example_panel], trace = []\<rparr>"

text \<open>The world before anything is stored, a store in which every file holds the
  example panel, and the factor columns of a row that has no value at all.\<close>

definition empty_world :: "'p world" where
  "empty_world = \<lparr>files = (\<lambda>p. None), trace = []\<rparr>"

definition full_store :: "string world" where
  "full_store = \<lparr>files = (\<lambda>p. Some example_panel), trace = []\<rparr>"

definition no_values :: "string \<Rightarrow> real option" where
  "no_values = (\<lambda>factor. None)"

text \<open>A panel built when the calendar was the single date 20160104, and a store in
  which every file holds it.\<close>

definition first_day_panel :: frame where
  "first_day_panel =
     \<lparr>df_index = [''20160104''], df_columns = [''000001.SZ''], df_values = [[Num 5]]\<rparr>"

definition first_day_store :: "string world" where
  "first_day_store = \<lparr>files = (\<lambda>p. Some first_day_panel), trace = []\<rparr>"

text \<open>One holder-count record, and two end-of-day records on consecutive dates whose
  only value is the market value.\<close>

definition example_holder_rows :: "holder_row list" where
  "example_holder_rows =
     [\<lparr>S_INFO_WINDCODE = ''000001.SZ'', ANN_DT = ''20160104'', S_HOLDER_ENDDATE = ''20151231'',
       S_HOLDER_NUM = Some 100\<rparr>]"

definition example_trade_rows :: "trade_row list" where
  "example_trade_rows =
     [\<lparr>WINDCODE = ''000001.SZ'', TRADE_DT = ''20160104'', factor_value = no_values(''S_VAL_MV'' := Some 5)\<rparr>,
      \<lparr>WINDCODE = ''000001.SZ'', TRADE_DT = ''20160105'', factor_value = no_values(''S_VAL_MV'' := Some 6)\<rparr>]"

text \<open>A security whose only share-capital record is dated after the calendar starts,
  and two securities with one record each before the calendar starts.\<close>

definition late_float_rows :: "float_row list" where
  "late_float_rows =
     [\<lparr>WIND_CODE = ''300557.SZ'', CHANGE_DT = ''20161101'', FLOAT_A_SHR = Some 1400\<rparr>]"

definition two_float_rows :: "float_row list" where
  "two_float_rows =
     [\<lparr>WIND_CODE = ''000001.SZ'', CHANGE_DT = ''20150105'', FLOAT_A_SHR = Some 10\<rparr>,
      \<lparr>WIND_CODE = ''000002.SZ'', CHANGE_DT = ''20150106'', FLOAT_A_SHR = Some 20\<rparr>]"

text \<open>One security with one report of the first quarter of 2016, and the same security
  with a report of the first and one of the second quarter of 2016; the only value
  reported is the diluted EPS.\<close>

definition one_report_rows :: "ann_row list" where
  "one_report_rows =
     [\<lparr>ann_WINDCODE = ''000001.SZ'', REPORT_PERIOD = ''20160331'',
       ann_value = no_values(''S_FA_EPS_DILUTED'' := Some 3)\<rparr>]"

definition two_season_rows :: "ann_row list" where
  "two_season_rows =
     [\<lparr>ann_WINDCODE = ''000001.SZ'', REPORT_PERIOD = ''20160331'',
       ann_value = no_values(''S_FA_EPS_DILUTED'' := Some 1)\<rparr>,
      \<lparr>ann_WINDCODE = ''000001.SZ'', REPORT_PERIOD = ''20160630'',
       ann_value = no_values(''S_FA_EPS_DILUTED'' := Some 2)\<rparr>]"

text \<open>One security that reports a diluted EPS of 3 for the year 2016 and no diluted EPS
  (a NULL) for the year 2017.\<close>

definition null_report_rows :: "ann_row list" where
  "null_report_rows =
     [\<lparr>ann_WINDCODE = ''000001.SZ'', REPORT_PERIOD = ''20161231'',
       ann_value = no_values(''S_FA_EPS_DILUTED'' := Some 3)\<rparr>,
      \<lparr>ann_WINDCODE = ''000001.SZ'', REPORT_PERIOD = ''20171231'', ann_value = no_values\<rparr>]"

text \<open>One security that reports a diluted EPS of 7 for the first quarter of 2018, of 1
  for the second quarter of 2016, and no diluted EPS (a NULL) for the second quarter
  of 2017.\<close>

definition leaked_report_rows :: "ann_row list" where
  "leaked_report_rows =
     [\<lparr>ann_WINDCODE = ''000001.SZ'', REPORT_PERIOD = ''20180331'',
       ann_value = no_values(''S_FA_EPS_DILUTED'' := Some 7)\<rparr>,
      \<lparr>ann_WINDCODE = ''000001.SZ'', REPORT_PERIOD = ''20160630'',
       ann_value = no_values(''S_FA_EPS_DILUTED'' := Some 1)\<rparr>,
      \<lparr>ann_WINDCODE = ''000001.SZ'', REPORT_PERIOD = ''20170630'', ann_value = no_values\<rparr>]"

section \<open>The world\<close>

lemma new_dates_Nil_iff: "new_dates index local = [] \<longleftrightarrow> set index \<subseteq> set (df_index local)"
proof -
  have "new_dates index local = [] \<longleftrightarrow> set (new_dates index local) = {}"
    by simp
  also have "\<dots> \<longleftrightarrow> set index \<subseteq> set (df_index local)"
    by (auto simp: new_dates_def sorted_set_def)
  finally show ?thesis .
qed

lemma emit_emit: "emit es (emit ds w) = emit (ds @ es) w"
  by (simp add: emit_def)

lemma files_emit [simp]: "files (emit es w) = files w"
  by (simp add: emit_def)

lemma trace_emit [simp]: "trace (emit es w) = trace w @ es"
  by (simp add: emit_def)

lemma files_to_hdf [simp]: "files (to_hdf p df w) = (files w)(p \<mapsto> df)"
  by (simp add: to_hdf_def)

lemma trace_to_hdf [simp]: "trace (to_hdf p df w) = trace w @ [To_hdf p]"
  by (simp add: to_hdf_def)

lemma read_hdf_Inr:
  "read_hdf p w = Inr (df, w') \<longleftrightarrow> files w p = Some df \<and> w' = emit [Read_hdf p] w"
  by (auto simp: read_hdf_def split: option.splits)

lemma read_hdf_Some: "files w p = Some df \<Longrightarrow> read_hdf p w = Inr (df, emit [Read_hdf p] w)"
  by (simp add: read_hdf_def)

section \<open>Frames\<close>

declare edi_read_pages.simps [simp del] bisect_loop.simps [simp del]

lemma reindex_columns_Inr:
  assumes "reindex_columns cols df = Inr p"
  shows "df_columns p = cols" and "df_index p = df_index df"
  using assms by (auto simp: reindex_columns_def split: if_splits)

lemma reindex_index_Inr:
  assumes "reindex_index idx df = Inr p"
  shows "df_index p = idx" and "df_columns p = df_columns df"
  using assms by (auto simp: reindex_index_def split: if_splits)

lemma reindex_Inr:
  assumes "reindex idx cols df = Inr p"
  shows "df_index p = idx" and "df_columns p = cols"
  using assms
  by (auto simp: reindex_def split: sum.splits dest: reindex_columns_Inr reindex_index_Inr)

lemma reindex_columns_distinct:
  assumes "distinct (df_columns df)"
  shows "\<exists>p. reindex_columns cols df = Inr p"
  using assms by (simp add: reindex_columns_def)

lemma reindex_index_distinct:
  assumes "distinct (df_index df)"
  shows "\<exists>p. reindex_index idx df = Inr p"
  using assms by (simp add: reindex_index_def)

lemma df_append_Inr:
  assumes "df_append a b = Inr c"
  shows "df_index c = df_index a @ df_index b"
    and "df_columns c = df_columns a @ filter (\<lambda>x. x \<notin> set (df_columns a)) (df_columns b)"
  using assms by (auto simp: df_append_def Let_def split: sum.splits)

lemma df_append_distinct:
  assumes "distinct (df_columns a)" and "distinct (df_columns b)"
  shows "\<exists>c. df_append a b = Inr c"
proof -
  obtain a' where a': "reindex_columns (df_columns a @ filter (\<lambda>x. x \<notin> set (df_columns a)) (df_columns b)) a = Inr a'"
    using reindex_columns_distinct [OF assms(1)] by blast
  obtain b' where b': "reindex_columns (df_columns a @ filter (\<lambda>x. x \<notin> set (df_columns a)) (df_columns b)) b = Inr b'"
    using reindex_columns_distinct [OF assms(2)] by blast
  show ?thesis by (simp add: df_append_def Let_def a' b')
qed

lemma distinct_sorted_set [simp]: "distinct (sorted_set xs)"
  by (simp add: sorted_set_def)

lemma set_sorted_set [simp]: "set (sorted_set xs) = set xs"
  by (simp add: sorted_set_def)

lemma sorted_sorted_set [simp]: "sorted (sorted_set xs)"
  by (simp add: sorted_set_def)

lemma sorted_set_eq:
  assumes "sorted ys" and "distinct ys" and "set xs = set ys"
  shows "sorted_set xs = ys"
proof -
  have "sorted_set xs = sorted_list_of_set (set xs)"
    by (simp add: sorted_set_def sorted_list_of_set_sort_remdups)
  also have "\<dots> = ys"
    using assms by (metis sorted_list_of_set.idem_if_sorted_distinct)
  finally show ?thesis .
qed

subsection \<open>Paging\<close>

lemma concat_edi_read_pages: "concat (edi_read_pages selected offset) = drop offset selected"
proof (induction selected offset rule: edi_read_pages.induct)
  case (1 selected offset)
  show ?case
  proof (cases "length (take chunk_size (drop offset selected)) < chunk_size")
    case True
    then have "take chunk_size (drop offset selected) = drop offset selected"
      by simp
    with True show ?thesis
      by (subst edi_read_pages.simps) simp
  next
    case False
    have "take chunk_size (drop offset selected) @ drop (offset + chunk_size) selected
        = drop offset selected"
      by (metis add.commute append_take_drop_id drop_drop)
    with False 1 show ?thesis
      by (subst edi_read_pages.simps) simp
  qed
qed

lemma fst_edi_read_data:
  "fst (edi_read_data db begin_date w) = filter (\<lambda>r. begin_date \<le> TRADE_DT r) db"
  by (simp add: edi_read_data_def Let_def concat_edi_read_pages)

lemma files_snd_edi_read_data: "files (snd (edi_read_data db begin_date w)) = files w"
  by (simp add: edi_read_data_def Let_def emit_def)

subsection \<open>The factor loops\<close>

lemma hdf5_inj: "f @ ''.hdf5'' = g @ ''.hdf5'' \<longleftrightarrow> f = g"
  by simp

lemma unstack_data_Inr:
  assumes "data \<noteq> []"
  shows "\<exists>t. unstack_data data factor = Inr t \<and>
    df_index t = sorted_set (map TRADE_DT data) \<and>
    df_columns t = sorted_set (map WINDCODE data)"
  using assms by (simp add: unstack_data_def)

lemma unstack_data_shape:
  assumes "unstack_data data factor = Inr t"
  shows "df_index t = sorted_set (map TRADE_DT data)"
    and "df_columns t = sorted_set (map WINDCODE data)"
  using assms by (auto simp: unstack_data_def split: if_splits)

lemma factor_rewrite_loop_files:
  assumes "data \<noteq> []"
  shows "\<exists>w'. factor_rewrite_loop column data target_column w = Inr w' \<and>
    (\<forall>f \<in> set target_column. \<exists>t p. unstack_data data f = Inr t \<and>
        reindex_columns column t = Inr p \<and> files w' (f @ ''.hdf5'') = Some p) \<and>
    (\<forall>q. q \<notin> (\<lambda>f. f @ ''.hdf5'') ` set target_column \<longrightarrow> files w' q = files w q)"
proof (induction target_column arbitrary: w)
  case Nil
  show ?case by simp
next
  case (Cons factor target_column)
  obtain t where t: "unstack_data data factor = Inr t"
    and tc: "df_columns t = sorted_set (map WINDCODE data)"
    using unstack_data_Inr [OF assms] by blast
  obtain p where p: "reindex_columns column t = Inr p"
    using reindex_columns_distinct [of t column] tc by auto
  let ?w1 = "to_hdf (factor @ ''.hdf5'') p w"
  obtain w' where w': "factor_rewrite_loop column data target_column ?w1 = Inr w'"
    and in_tc: "\<forall>f \<in> set target_column. \<exists>t p. unstack_data data f = Inr t \<and>
        reindex_columns column t = Inr p \<and> files w' (f @ ''.hdf5'') = Some p"
    and out_tc: "\<forall>q. q \<notin> (\<lambda>f. f @ ''.hdf5'') ` set target_column \<longrightarrow> files w' q = files ?w1 q"
    using Cons.IH [of ?w1] by blast
  have run: "factor_rewrite_loop column data (factor # target_column) w = Inr w'"
    by (simp add: t p w')
  have head: "\<exists>t p. unstack_data data factor = Inr t \<and>
        reindex_columns column t = Inr p \<and> files w' (factor @ ''.hdf5'') = Some p"
  proof (cases "factor \<in> set target_column")
    case True
    then show ?thesis using in_tc by blast
  next
    case False
    then have "factor @ ''.hdf5'' \<notin> (\<lambda>f. f @ ''.hdf5'') ` set target_column"
      by auto
    then have "files w' (factor @ ''.hdf5'') = files ?w1 (factor @ ''.hdf5'')"
      using out_tc by blast
    then show ?thesis using t p by simp
  qed
  have rest: "\<forall>q. q \<notin> (\<lambda>f. f @ ''.hdf5'') ` set (factor # target_column) \<longrightarrow>
      files w' q = files w q"
    using out_tc by auto
  show ?case using run head in_tc rest by auto
qed

lemma factor_update_loop_files:
  assumes "factor_update_loop column data target_column w = Inr w'"
    and "distinct target_column"
  shows "(\<forall>f \<in> set target_column. \<exists>old t t' p. files w (f @ ''.hdf5'') = Some old \<and>
        unstack_data data f = Inr t \<and> df_append old t = Inr t' \<and>
        reindex_columns column t' = Inr p \<and> files w' (f @ ''.hdf5'') = Some p) \<and>
    (\<forall>q. q \<notin> (\<lambda>f. f @ ''.hdf5'') ` set target_column \<longrightarrow> files w' q = files w q)"
  using assms
proof (induction target_column arbitrary: w)
  case Nil
  then show ?case by simp
next
  case (Cons factor target_column)
  from Cons.prems(1) obtain old t t' p where
    old: "files w (factor @ ''.hdf5'') = Some old"
    and t: "unstack_data data factor = Inr t"
    and t': "df_append old t = Inr t'"
    and p: "reindex_columns column t' = Inr p"
    and run: "factor_update_loop column data target_column
        (to_hdf (factor @ ''.hdf5'') p (emit [Read_hdf (factor @ ''.hdf5'')] w)) = Inr w'"
    by (auto simp: read_hdf_def split: sum.splits option.splits)
  let ?w1 = "to_hdf (factor @ ''.hdf5'') p (emit [Read_hdf (factor @ ''.hdf5'')] w)"
  from Cons.prems(2) have d: "distinct target_column" and nin: "factor \<notin> set target_column"
    by auto
  from Cons.IH [OF run d] have
    in_tc: "\<forall>f \<in> set target_column. \<exists>old t t' p. files ?w1 (f @ ''.hdf5'') = Some old \<and>
        unstack_data data f = Inr t \<and> df_append old t = Inr t' \<and>
        reindex_columns column t' = Inr p \<and> files w' (f @ ''.hdf5'') = Some p"
    and out_tc: "\<forall>q. q \<notin> (\<lambda>f. f @ ''.hdf5'') ` set target_column \<longrightarrow> files w' q = files ?w1 q"
    by blast+
  have "factor @ ''.hdf5'' \<notin> (\<lambda>f. f @ ''.hdf5'') ` set target_column"
    using nin by auto
  then have "files w' (factor @ ''.hdf5'') = Some p"
    using out_tc by simp
  then have head: "\<exists>old t t' p. files w (factor @ ''.hdf5'') = Some old \<and>
        unstack_data data factor = Inr t \<and> df_append old t = Inr t' \<and>
        reindex_columns column t' = Inr p \<and> files w' (factor @ ''.hdf5'') = Some p"
    using old t t' p by blast
  have tail: "\<forall>f \<in> set target_column. \<exists>old t t' p. files w (f @ ''.hdf5'') = Some old \<and>
        unstack_data data f = Inr t \<and> df_append old t = Inr t' \<and>
        reindex_columns column t' = Inr p \<and> files w' (f @ ''.hdf5'') = Some p"
  proof
    fix f assume f: "f \<in> set target_column"
    then have "f \<noteq> factor" using nin by auto
    then have "files ?w1 (f @ ''.hdf5'') = files w (f @ ''.hdf5'')"
      by simp
    with in_tc f show "\<exists>old t t' p. files w (f @ ''.hdf5'') = Some old \<and>
        unstack_data data f = Inr t \<and> df_append old t = Inr t' \<and>
        reindex_columns column t' = Inr p \<and> files w' (f @ ''.hdf5'') = Some p"
      by metis
  qed
  have rest: "\<forall>q. q \<notin> (\<lambda>f. f @ ''.hdf5'') ` set (factor # target_column) \<longrightarrow>
      files w' q = files w q"
    using out_tc by auto
  show ?case using head tail rest by auto
qed

text \<open>The update loop runs to its end when every factor has a panel with distinct
  column labels and there are new rows.\<close>

lemma factor_update_loop_succeeds:
  assumes "data \<noteq> []"
    and "\<forall>f \<in> set target_column. \<exists>old. files w (f @ ''.hdf5'') = Some old \<and> distinct (df_columns old)"
    and "distinct target_column"
  shows "\<exists>w'. factor_update_loop column data target_column w = Inr w'"
  using assms(2,3)
proof (induction target_column arbitrary: w)
  case Nil
  show ?case by simp
next
  case (Cons factor target_column)
  from Cons.prems obtain old where old: "files w (factor @ ''.hdf5'') = Some old"
    and dold: "distinct (df_columns old)"
    by auto
  obtain t where t: "unstack_data data factor = Inr t"
    and tc: "df_columns t = sorted_set (map WINDCODE data)"
    using unstack_data_Inr [OF assms(1)] by blast
  obtain t' where t': "df_append old t = Inr t'"
    using df_append_distinct [OF dold, of t] tc by auto
  have "distinct (df_columns t')"
    using df_append_Inr(2) [OF t'] dold tc by auto
  then obtain p where p: "reindex_columns column t' = Inr p"
    using reindex_columns_distinct by blast
  let ?w1 = "to_hdf (factor @ ''.hdf5'') p (emit [Read_hdf (factor @ ''.hdf5'')] w)"
  have "\<forall>f \<in> set target_column. \<exists>old. files ?w1 (f @ ''.hdf5'') = Some old \<and> distinct (df_columns old)"
  proof
    fix f assume f: "f \<in> set target_column"
    show "\<exists>old. files ?w1 (f @ ''.hdf5'') = Some old \<and> distinct (df_columns old)"
      using Cons.prems f by auto
  qed
  moreover have "distinct target_column" using Cons.prems by simp
  ultimately obtain w' where
    "factor_update_loop column data target_column ?w1 = Inr w'"
    using Cons.IH by blast
  then show ?case
    by (simp add: read_hdf_Some [OF old] t t' p)
qed

subsection \<open>The HolderNumber dict has one entry per code\<close>

lemma hn_loop_distinct:
  assumes "distinct (map fst holder_number)"
    and "hn_loop pre_record data_iter stock_dict holder_number = (pre', stock', holder')"
  shows "distinct (map fst holder')"
  using assms
proof (induction data_iter arbitrary: pre_record stock_dict holder_number)
  case Nil
  then show ?case by simp
next
  case (Cons rec data_iter)
  show ?case
  proof (cases "S_INFO_WINDCODE pre_record \<noteq> S_INFO_WINDCODE rec")
    case True
    let ?h = "AList.update (S_INFO_WINDCODE pre_record)
        (AList.update (ANN_DT pre_record) (num_cell (S_HOLDER_NUM pre_record)) stock_dict)
        holder_number"
    have "distinct (map fst ?h)"
      using Cons.prems(1) by (rule distinct_update)
    moreover have "hn_loop rec data_iter [] ?h = (pre', stock', holder')"
      using Cons.prems(2) True by (simp add: Let_def)
    ultimately show ?thesis by (rule Cons.IH)
  next
    case False
    then show ?thesis
      using Cons.prems Cons.IH by (auto split: if_splits)
  qed
qed

lemma hn_holder_number_Inr:
  assumes "data \<noteq> []"
  shows "\<exists>holder_number. hn_holder_number data = Inr holder_number \<and>
    distinct (map fst holder_number)"
proof -
  obtain pre_record data_iter where d: "data = pre_record # data_iter"
    using assms by (cases data) auto
  obtain pre' stock' holder' where l: "hn_loop pre_record data_iter [] [] = (pre', stock', holder')"
    by (cases "hn_loop pre_record data_iter [] []") auto
  have "distinct (map fst holder')"
    using hn_loop_distinct [OF _ l] by simp
  then show ?thesis
    by (simp add: hn_holder_number_def d l distinct_update)
qed

lemma hn_sort_values_Nil_iff [simp]: "hn_sort_values data = [] \<longleftrightarrow> data = []"
proof -
  have "length (hn_sort_values data) = length data"
    by (simp add: hn_sort_values_def)
  then show ?thesis by (metis length_0_conv)
qed

lemma hn_filled_Inr:
  assumes "data \<noteq> []"
  shows "\<exists>df. hn_filled index data = Inr df \<and>
    df_index df = sorted_set (index @ map ANN_DT data) \<and> distinct (df_columns df)"
proof -
  obtain holder_number where "hn_holder_number data = Inr holder_number"
    and "distinct (map fst holder_number)"
    using hn_holder_number_Inr [OF assms] by blast
  then show ?thesis
    by (simp add: hn_filled_def fillna_ffill_def DataFrame_index_def DataFrame_def)
qed

lemma reindex_succeeds:
  assumes "distinct (df_index df)" and "distinct (df_columns df)"
  shows "\<exists>p. reindex idx cols df = Inr p \<and> df_index p = idx \<and> df_columns p = cols"
proof -
  obtain q where q: "reindex_columns cols df = Inr q"
    using reindex_columns_distinct [OF assms(2)] by blast
  then have "distinct (df_index q)"
    using reindex_columns_Inr(2) [OF q] assms(1) by simp
  then obtain p where p: "reindex_index idx q = Inr p"
    using reindex_index_distinct by blast
  have "reindex idx cols df = Inr p"
    by (simp add: reindex_def q p)
  then show ?thesis using reindex_Inr by blast
qed

lemma hn_rewrite_data_panel:
  assumes "fst (hn_read_data db ''20160101'' w) \<noteq> []"
  shows "\<exists>w' p. hn_rewrite_data index column db w = Inr w' \<and>
    files w' = (files w)(''holder_number.hdf5'' \<mapsto> p) \<and>
    df_index p = index \<and> df_columns p = column"
proof -
  obtain data w1 where r: "hn_read_data db ''20160101'' w = (data, w1)"
    by (cases "hn_read_data db ''20160101'' w") auto
  then have ne: "hn_sort_values data \<noteq> []" and w1: "files w1 = files w"
    using assms by (auto simp: hn_read_data_def)
  obtain df where df: "hn_filled index (hn_sort_values data) = Inr df"
    and "distinct (df_index df)" and "distinct (df_columns df)"
    using hn_filled_Inr [OF ne, of index] by auto
  then obtain p where "reindex index column df = Inr p" and "df_index p = index"
    and "df_columns p = column"
    using reindex_succeeds by blast
  then show ?thesis
    by (auto simp: hn_rewrite_data_def r df w1)
qed

lemma hn_update_data_panel:
  assumes "hn_update_data index column db w = Inr w'"
    and "files w ''holder_number.hdf5'' = Some local"
    and "new_dates index local \<noteq> []"
  shows "\<exists>p. files w' = (files w)(''holder_number.hdf5'' \<mapsto> p) \<and>
    df_index p = index \<and> df_columns p = column"
proof -
  obtain begin_date new_date where nd: "new_dates index local = begin_date # new_date"
    using assms(3) by (cases "new_dates index local") auto
  from assms(1) obtain df p w2 where p: "reindex index column df = Inr p"
    and w': "w' = to_hdf ''holder_number.hdf5'' p w2" and w2: "files w2 = files w"
    by (fastforce simp: hn_update_data_def read_hdf_Some [OF assms(2)] nd hn_read_data_def
        split: sum.splits prod.splits)
  from p have "df_index p = index \<and> df_columns p = column"
    using reindex_Inr by blast
  then show ?thesis using w' w2 by auto
qed


subsection \<open>The EOD builds\<close>

lemma edi_target_column_distinct: "distinct edi_target_column"
  by (simp add: edi_target_column_def)

lemma edi_rewrite_data_files:
  assumes "filter (\<lambda>r. ''20160101'' \<le> TRADE_DT r) db \<noteq> []"
  shows "\<exists>w'. edi_rewrite_data index column db w = Inr w' \<and>
    (\<forall>f \<in> set edi_target_column. \<exists>t p.
        unstack_data (filter (\<lambda>r. ''20160101'' \<le> TRADE_DT r) db) f = Inr t \<and>
        reindex_columns column t = Inr p \<and> files w' (f @ ''.hdf5'') = Some p)"
proof -
  let ?data = "filter (\<lambda>r. ''20160101'' \<le> TRADE_DT r) db"
  obtain w1 where r: "edi_read_data db ''20160101'' w = (?data, w1)"
    by (metis fst_edi_read_data prod.collapse)
  obtain w' where "factor_rewrite_loop column ?data edi_target_column w1 = Inr w'"
    and "\<forall>f \<in> set edi_target_column. \<exists>t p. unstack_data ?data f = Inr t \<and>
        reindex_columns column t = Inr p \<and> files w' (f @ ''.hdf5'') = Some p"
    using factor_rewrite_loop_files [OF assms, of column edi_target_column w1] by blast
  then show ?thesis
    by (simp add: edi_rewrite_data_def r)
qed

lemma edi_update_data_files:
  assumes "edi_update_data index column db w = Inr w'"
    and "files w ''S_VAL_MV.hdf5'' = Some local"
    and "new_dates index local = begin_date # new_date"
  shows "\<forall>f \<in> set edi_target_column. \<exists>old t t' p. files w (f @ ''.hdf5'') = Some old \<and>
        unstack_data (filter (\<lambda>r. begin_date \<le> TRADE_DT r) db) f = Inr t \<and>
        df_append old t = Inr t' \<and>
        reindex_columns column t' = Inr p \<and> files w' (f @ ''.hdf5'') = Some p"
proof -
  let ?data = "filter (\<lambda>r. begin_date \<le> TRADE_DT r) db"
  let ?w1 = "emit [Read_hdf ''S_VAL_MV.hdf5''] w"
  obtain w2 where r: "edi_read_data db begin_date ?w1 = (?data, w2)"
    by (metis fst_edi_read_data prod.collapse)
  then have w2: "files w2 = files w"
    using files_snd_edi_read_data [of db begin_date ?w1] by simp
  have "factor_update_loop column ?data edi_target_column w2 = Inr w'"
    using assms by (simp add: edi_update_data_def read_hdf_Some r)
  from factor_update_loop_files [OF this edi_target_column_distinct]
  show ?thesis by (simp add: w2)
qed

lemma edi_update_data_succeeds:
  assumes "files w ''S_VAL_MV.hdf5'' = Some local"
    and "new_dates index local = begin_date # new_date"
    and "filter (\<lambda>r. begin_date \<le> TRADE_DT r) db \<noteq> []"
    and "\<forall>f \<in> set edi_target_column. \<exists>old. files w (f @ ''.hdf5'') = Some old \<and>
        distinct (df_columns old)"
  shows "\<exists>w'. edi_update_data index column db w = Inr w'"
proof -
  let ?data = "filter (\<lambda>r. begin_date \<le> TRADE_DT r) db"
  let ?w1 = "emit [Read_hdf ''S_VAL_MV.hdf5''] w"
  obtain w2 where r: "edi_read_data db begin_date ?w1 = (?data, w2)"
    by (metis fst_edi_read_data prod.collapse)
  then have w2: "files w2 = files w"
    using files_snd_edi_read_data [of db begin_date ?w1] by simp
  have "\<exists>w'. factor_update_loop column ?data edi_target_column w2 = Inr w'"
    by (rule factor_update_loop_succeeds [OF assms(3) _ edi_target_column_distinct])
       (use assms(4) w2 in simp)
  then show ?thesis
    using assms(1,2) by (simp add: edi_update_data_def read_hdf_Some r)
qed

section \<open>The financial-indicator walk, factor by factor\<close>

lemma afi_assign_apply:
  "afi_assign target_column pre_record date stock_dict factor =
     (if factor \<in> set target_column
      then AList.update date (na_cell (fin_value pre_record factor)) (stock_dict factor)
      else stock_dict factor)"
  unfolding afi_assign_def
  by (induction target_column rule: rev_induct) auto

lemma afi_clear_apply:
  "afi_clear target_column stock_dict factor =
     (if factor \<in> set target_column then [] else stock_dict factor)"
  unfolding afi_clear_def
  by (induction target_column rule: rev_induct) auto

lemma afi_copy_apply:
  "afi_copy target_column season code stock_dict main_dict (s, factor) =
     (if s = season \<and> factor \<in> set target_column
      then AList.update code (stock_dict factor) (main_dict (s, factor))
      else main_dict (s, factor))"
  unfolding afi_copy_def
  by (induction target_column rule: rev_induct) auto

subsection \<open>The files written by the full build\<close>

lemma df_index_afi_panel [simp]: "df_index (afi_panel main_dict dates column s factor) = dates"
  by (simp add: afi_panel_def replace_nan_def fillna_ffill_def DataFrame_def)

lemma df_columns_afi_panel [simp]: "df_columns (afi_panel main_dict dates column s factor) = column"
  by (simp add: afi_panel_def replace_nan_def fillna_ffill_def DataFrame_def)

lemma afi_write_factors_files:
  "files (afi_write_factors main_dict index column s i target_column w) (factor, n) =
     (if n = i + 1 \<and> factor \<in> set target_column
      then Some (afi_panel main_dict index column s factor) else files w (factor, n))"
  by (induction target_column arbitrary: w) auto

lemma afi_write_seasons_files:
  "distinct seasons \<Longrightarrow>
   files (afi_write_seasons main_dict index column target_column i seasons w) (factor, n) =
     (if factor \<in> set target_column \<and> i < n \<and> n \<le> i + length seasons
      then Some (afi_panel main_dict index column (seasons ! (n - i - 1)) factor)
      else files w (factor, n))"
proof (induction seasons arbitrary: w i)
  case Nil
  show ?case by auto
next
  case (Cons s seasons)
  then have d: "distinct seasons" by simp
  show ?case
    by (auto simp: Cons.IH [OF d] afi_write_factors_files nth_Cons' Suc_diff_Suc)
qed

lemma distinct_unique [simp]: "distinct (unique xs)"
  by (simp add: unique_def)

lemma set_unique [simp]: "set (unique xs) = set xs"
  by (simp add: unique_def)

lemma afi_rewrite_data_files:
  assumes "afi_main_dict index afi_target_column
      (afi_rewrite_sort (fst (afi_read_data db ''20160101'' w))) = Inr main_dict"
  shows "\<exists>w'. afi_rewrite_data index column db w = Inr w' \<and>
    (\<forall>factor n. files w' (factor, n) =
      (if factor \<in> set afi_target_column \<and> 0 < n \<and>
          n \<le> length (unique (map SEASON (afi_rewrite_sort (fst (afi_read_data db ''20160101'' w)))))
       then Some (afi_panel main_dict index column
          (unique (map SEASON (afi_rewrite_sort (fst (afi_read_data db ''20160101'' w)))) ! (n - 1))
          factor)
       else files w (factor, n)))"
proof -
  obtain data w1 where r: "afi_read_data db ''20160101'' w = (data, w1)"
    by (cases "afi_read_data db ''20160101'' w") auto
  then have w1: "files w1 = files w"
    by (auto simp: afi_read_data_def)
  show ?thesis
    using assms by (simp add: afi_rewrite_data_def r afi_write_seasons_files w1)
qed

lemma eps_in_afi_target_column: "''S_FA_EPS_DILUTED'' \<in> set afi_target_column"
  by (simp add: afi_target_column_def)

lemma afi_first_date_2016: "afi_first_date [''20160104'', ''20160105''] ''2016'' = Inr ''20160104''"
  by (simp add: afi_first_date_def bisect_def bisect_loop.simps)

subsection \<open>The files written by the merge\<close>

lemma df_append_same_columns:
  assumes "df_columns b = df_columns a"
  shows "df_append a b =
    Inr \<lparr>df_index = df_index a @ df_index b, df_columns = df_columns a,
         df_values = df_values a @ df_values b\<rparr>"
  using assms by (simp add: df_append_def reindex_columns_def Let_def)

lemma afi_append_factors_files:
  assumes "distinct target_column"
    and "\<forall>f \<in> set target_column. \<exists>old. files w (f, i + 1) = Some old \<and> df_columns old = column"
  shows "\<exists>w'. afi_append_factors main_dict new_date column s i target_column w = Inr w' \<and>
    (\<forall>f n. files w' (f, n) =
      (if n = i + 1 \<and> f \<in> set target_column
       then map_option (\<lambda>old. \<lparr>df_index = df_index old @ new_date, df_columns = column,
              df_values = df_values old @ df_values (afi_panel main_dict new_date column s f)\<rparr>)
            (files w (f, n))
       else files w (f, n)))"
  using assms
proof (induction target_column arbitrary: w)
  case Nil
  show ?case by simp
next
  case (Cons factor target_column)
  from Cons.prems obtain old where old: "files w (factor, i + 1) = Some old"
    and cols: "df_columns old = column"
    by auto
  let ?p = "afi_panel main_dict new_date column s factor"
  let ?df = "\<lparr>df_index = df_index old @ new_date, df_columns = column,
      df_values = df_values old @ df_values ?p\<rparr>"
  let ?w1 = "to_hdf (factor, i + 1) ?df (emit [Read_hdf (factor, i + 1)] w)"
  have app: "df_append old ?p = Inr ?df"
    using df_append_same_columns [of ?p old] cols by simp
  have nin: "factor \<notin> set target_column" and d: "distinct target_column"
    using Cons.prems(1) by auto
  have "\<forall>f \<in> set target_column. \<exists>old. files ?w1 (f, i + 1) = Some old \<and> df_columns old = column"
    using Cons.prems(2) nin by auto
  from Cons.IH [OF d this] obtain w' where
    run: "afi_append_factors main_dict new_date column s i target_column ?w1 = Inr w'"
    and fs: "\<forall>f n. files w' (f, n) =
      (if n = i + 1 \<and> f \<in> set target_column
       then map_option (\<lambda>old. \<lparr>df_index = df_index old @ new_date, df_columns = column,
              df_values = df_values old @ df_values (afi_panel main_dict new_date column s f)\<rparr>)
            (files ?w1 (f, n))
       else files ?w1 (f, n))"
    by blast
  have "afi_append_factors main_dict new_date column s i (factor # target_column) w = Inr w'"
    using run old app by (simp add: read_hdf_def)
  moreover have "\<forall>f n. files w' (f, n) =
      (if n = i + 1 \<and> f \<in> set (factor # target_column)
       then map_option (\<lambda>old. \<lparr>df_index = df_index old @ new_date, df_columns = column,
              df_values = df_values old @ df_values (afi_panel main_dict new_date column s f)\<rparr>)
            (files w (f, n))
       else files w (f, n))"
    using fs nin old by auto
  ultimately show ?case by blast
qed

lemma afi_append_seasons_files:
  assumes "distinct target_column"
    and "\<forall>f \<in> set target_column. \<forall>k < length seasons.
        \<exists>old. files w (f, i + k + 1) = Some old \<and> df_columns old = column"
  shows "\<exists>w'. afi_append_seasons main_dict new_date column target_column i seasons w = Inr w' \<and>
    (\<forall>f n. files w' (f, n) =
      (if f \<in> set target_column \<and> i < n \<and> n \<le> i + length seasons
       then map_option (\<lambda>old. \<lparr>df_index = df_index old @ new_date, df_columns = column,
              df_values = df_values old @
                df_values (afi_panel main_dict new_date column (seasons ! (n - i - 1)) f)\<rparr>)
            (files w (f, n))
       else files w (f, n)))"
  using assms(2)
proof (induction seasons arbitrary: w i)
  case Nil
  show ?case by auto
next
  case (Cons s seasons)
  have "\<forall>f \<in> set target_column. \<exists>old. files w (f, i + 1) = Some old \<and> df_columns old = column"
    using Cons.prems by force
  from afi_append_factors_files [OF assms(1) this, of main_dict new_date s]
  obtain w1 where run1: "afi_append_factors main_dict new_date column s i target_column w = Inr w1"
    and fs1: "\<forall>f n. files w1 (f, n) =
      (if n = i + 1 \<and> f \<in> set target_column
       then map_option (\<lambda>old. \<lparr>df_index = df_index old @ new_date, df_columns = column,
              df_values = df_values old @ df_values (afi_panel main_dict new_date column s f)\<rparr>)
            (files w (f, n))
       else files w (f, n))"
    by blast
  have "\<forall>f \<in> set target_column. \<forall>k < length seasons.
      \<exists>old. files w1 (f, Suc i + k + 1) = Some old \<and> df_columns old = column"
  proof (intro ballI allI impI)
    fix f k assume "f \<in> set target_column" and "k < length seasons"
    then have "\<exists>old. files w (f, i + Suc k + 1) = Some old \<and> df_columns old = column"
      using Cons.prems [rule_format, of f "Suc k"] by simp
    then show "\<exists>old. files w1 (f, Suc i + k + 1) = Some old \<and> df_columns old = column"
      by (simp add: fs1)
  qed
  from Cons.IH [OF this] obtain w' where
    run: "afi_append_seasons main_dict new_date column target_column (Suc i) seasons w1 = Inr w'"
    and fs: "\<forall>f n. files w' (f, n) =
      (if f \<in> set target_column \<and> Suc i < n \<and> n \<le> Suc i + length seasons
       then map_option (\<lambda>old. \<lparr>df_index = df_index old @ new_date, df_columns = column,
              df_values = df_values old @
                df_values (afi_panel main_dict new_date column (seasons ! (n - Suc i - 1)) f)\<rparr>)
            (files w1 (f, n))
       else files w1 (f, n))"
    by blast
  have "afi_append_seasons main_dict new_date column target_column i (s # seasons) w = Inr w'"
    using run1 run by simp
  moreover have "\<forall>f n. files w' (f, n) =
      (if f \<in> set target_column \<and> i < n \<and> n \<le> i + length (s # seasons)
       then map_option (\<lambda>old. \<lparr>df_index = df_index old @ new_date, df_columns = column,
              df_values = df_values old @
                df_values (afi_panel main_dict new_date column ((s # seasons) ! (n - i - 1)) f)\<rparr>)
            (files w (f, n))
       else files w (f, n))"
    by (auto simp: fs fs1 nth_Cons' Suc_diff_Suc)
  ultimately show ?case by blast
qed

lemma afi_target_column_distinct: "distinct afi_target_column"
  by (simp add: afi_target_column_def)

lemma afi_update_data_files:
  assumes "files w (''S_FA_EPS_DILUTED'', 1) = Some local"
    and "new_dates index local = begin_date # new_date"
    and "afi_main_dict index afi_target_column
      (afi_update_sort (fst (afi_read_data db begin_date w))) = Inr main_dict"
    and "seasons = unique (map SEASON (afi_update_sort (fst (afi_read_data db begin_date w))))"
    and "\<forall>f \<in> set afi_target_column. \<forall>k < length seasons.
        \<exists>old. files w (f, k + 1) = Some old \<and> df_columns old = column"
  shows "\<exists>w'. afi_update_data index column db w = Inr w' \<and>
    (\<forall>f n. files w' (f, n) =
      (if f \<in> set afi_target_column \<and> 0 < n \<and> n \<le> length seasons
       then map_option (\<lambda>old. \<lparr>df_index = df_index old @ begin_date # new_date, df_columns = column,
              df_values = df_values old @
                df_values (afi_panel main_dict (begin_date # new_date) column (seasons ! (n - 1)) f)\<rparr>)
            (files w (f, n))
       else files w (f, n)))"
proof -
  let ?w1 = "emit [Read_hdf (''S_FA_EPS_DILUTED'', 1)] w"
  let ?w2 = "emit [Read_sql begin_date] ?w1"
  have r: "afi_read_data db begin_date ?w1 = (fst (afi_read_data db begin_date w), ?w2)"
    by (simp add: afi_read_data_def)
  have "\<forall>f \<in> set afi_target_column. \<forall>k < length seasons.
        \<exists>old. files ?w2 (f, 0 + k + 1) = Some old \<and> df_columns old = column"
    using assms(5) by simp
  from afi_append_seasons_files [OF afi_target_column_distinct this,
      of main_dict "begin_date # new_date"]
  obtain w' where
    "afi_append_seasons main_dict (begin_date # new_date) column afi_target_column 0 seasons ?w2 = Inr w'"
    and "\<forall>f n. files w' (f, n) =
      (if f \<in> set afi_target_column \<and> 0 < n \<and> n \<le> 0 + length seasons
       then map_option (\<lambda>old. \<lparr>df_index = df_index old @ begin_date # new_date, df_columns = column,
              df_values = df_values old @
                df_values (afi_panel main_dict (begin_date # new_date) column (seasons ! (n - 0 - 1)) f)\<rparr>)
            (files ?w2 (f, n))
       else files ?w2 (f, n))"
    by blast
  then show ?thesis
    using assms(1-4) r by (simp add: afi_update_data_def read_hdf_def)
qed

section \<open>Duplicate keys in the HolderNumber walk\<close>

lemma dict_get2_update:
  "dict_get2 (AList.update c' col d) c k = (if c = c' then map_of col k else dict_get2 d c k)"
  by (simp add: dict_get2_def update_conv')

lemma sorted_pair_keys:
  assumes "sorted (map (\<lambda>r. (f r, g r)) (x # y # zs))"
  shows "f x \<le> f y" and "\<forall>z \<in> set zs. f y \<le> f z"
    and "f x = f y \<Longrightarrow> g x \<le> g y"
    and "\<forall>z \<in> set zs. f z = f y \<longrightarrow> g y \<le> g z"
  using assms by (auto simp: less_eq_prod_def)

lemma hn_loop_lookup:
  assumes "sorted (map (\<lambda>r. (S_INFO_WINDCODE r, ANN_DT r)) (pre # rs))"
    and "hn_loop pre rs sd hn = (pre', sd', hn')"
  shows "dict_get2 (AList.update (S_INFO_WINDCODE pre')
            (AList.update (ANN_DT pre') (num_cell (S_HOLDER_NUM pre')) sd') hn') c d =
    (if \<exists>r \<in> set (pre # rs). S_INFO_WINDCODE r = c \<and> ANN_DT r = d
     then Some (num_cell (S_HOLDER_NUM
            (last (filter (\<lambda>r. S_INFO_WINDCODE r = c \<and> ANN_DT r = d) (pre # rs)))))
     else if c = S_INFO_WINDCODE pre then map_of sd d
     else if c \<in> S_INFO_WINDCODE ` set rs then None
     else dict_get2 hn c d)"
  using assms
proof (induction rs arbitrary: pre sd hn)
  case Nil
  then show ?case
    by (auto simp: dict_get2_update update_conv')
next
  case (Cons r rs)
  have srt: "sorted (map (\<lambda>r. (S_INFO_WINDCODE r, ANN_DT r)) (r # rs))"
    using Cons.prems(1) by simp
  note k = sorted_pair_keys [OF Cons.prems(1)]
  show ?case
  proof (cases "S_INFO_WINDCODE pre \<noteq> S_INFO_WINDCODE r")
    case True
    let ?hn1 = "AList.update (S_INFO_WINDCODE pre)
        (AList.update (ANN_DT pre) (num_cell (S_HOLDER_NUM pre)) sd) hn"
    have run: "hn_loop r rs [] ?hn1 = (pre', sd', hn')"
      using Cons.prems(2) True by (simp add: Let_def)
    have lt: "S_INFO_WINDCODE pre < S_INFO_WINDCODE r"
      using k(1) True by simp
    then have nin: "\<forall>x \<in> set (r # rs). S_INFO_WINDCODE x \<noteq> S_INFO_WINDCODE pre"
      using k(2) by fastforce
    show ?thesis
      unfolding Cons.IH [OF srt run]
      using nin True by (auto simp: dict_get2_update update_conv')
  next
    case False
    then have same: "S_INFO_WINDCODE pre = S_INFO_WINDCODE r" by simp
    show ?thesis
    proof (cases "ANN_DT pre = ANN_DT r")
      case True
      have run: "hn_loop r rs sd hn = (pre', sd', hn')"
        using Cons.prems(2) same True by simp
      show ?thesis
        unfolding Cons.IH [OF srt run]
        using same True by auto
    next
      case False
      let ?sd1 = "AList.update (ANN_DT pre) (num_cell (S_HOLDER_NUM pre)) sd"
      have run: "hn_loop r rs ?sd1 hn = (pre', sd', hn')"
        using Cons.prems(2) same False by simp
      have "ANN_DT pre < ANN_DT r"
        using k(3) same False by simp
      then have nin: "\<forall>x \<in> set (r # rs). S_INFO_WINDCODE x = S_INFO_WINDCODE pre \<longrightarrow>
          ANN_DT x \<noteq> ANN_DT pre"
        using k(4) same by fastforce
      show ?thesis
        unfolding Cons.IH [OF srt run]
        using nin same False by (auto simp: update_conv')
    qed
  qed
qed

lemma sorted_map_mono:
  assumes "sorted (map f xs)" and "\<And>x y. f x \<le> f y \<Longrightarrow> g x \<le> g y"
  shows "sorted (map g xs)"
  using assms by (induction xs) auto

lemma hn_sort_values_sorted:
  "sorted (map (\<lambda>r. (S_INFO_WINDCODE r, ANN_DT r)) (hn_sort_values data))"
proof -
  have "sorted (map (\<lambda>r. (S_INFO_WINDCODE r, ANN_DT r, S_HOLDER_ENDDATE r)) (hn_sort_values data))"
    by (simp add: hn_sort_values_def)
  then show ?thesis
    by (rule sorted_map_mono) (auto simp: less_eq_prod_def)
qed

lemma set_hn_sort_values [simp]: "set (hn_sort_values data) = set data"
  by (simp add: hn_sort_values_def)

lemma hn_holder_number_lookup:
  assumes "data \<noteq> []"
  shows "\<exists>holder_number. hn_holder_number (hn_sort_values data) = Inr holder_number \<and>
    (\<forall>c d. dict_get2 holder_number c d =
      (if \<exists>r \<in> set data. S_INFO_WINDCODE r = c \<and> ANN_DT r = d
       then Some (num_cell (S_HOLDER_NUM
              (last (filter (\<lambda>r. S_INFO_WINDCODE r = c \<and> ANN_DT r = d) (hn_sort_values data)))))
       else None))"
proof -
  obtain pre rs where d: "hn_sort_values data = pre # rs"
    using assms by (cases "hn_sort_values data") auto
  obtain pre' sd' hn' where l: "hn_loop pre rs [] [] = (pre', sd', hn')"
    by (cases "hn_loop pre rs [] []") auto
  have srt: "sorted (map (\<lambda>r. (S_INFO_WINDCODE r, ANN_DT r)) (pre # rs))"
    using hn_sort_values_sorted [of data] d by simp
  have s: "set data = set (pre # rs)"
    using set_hn_sort_values [of data] d by simp
  have "\<forall>c d. dict_get2 (AList.update (S_INFO_WINDCODE pre')
            (AList.update (ANN_DT pre') (num_cell (S_HOLDER_NUM pre')) sd') hn') c d =
      (if \<exists>r \<in> set data. S_INFO_WINDCODE r = c \<and> ANN_DT r = d
       then Some (num_cell (S_HOLDER_NUM
              (last (filter (\<lambda>r. S_INFO_WINDCODE r = c \<and> ANN_DT r = d) (pre # rs)))))
       else None)"
    unfolding hn_loop_lookup [OF srt l] s
    by (auto simp: dict_get2_def)
  then show ?thesis
    by (simp add: hn_holder_number_def d l)
qed

lemma sorted_le_last:
  assumes "sorted xs" and "x \<in> set xs"
  shows "x \<le> last xs"
  using assms by (induction xs) auto

lemma last_filter_sorted_greatest:
  assumes "sorted (map f xs)" and "x \<in> set xs" and "P x"
  shows "f x \<le> f (last (filter P xs))"
proof -
  have "sorted (map f (filter P xs))"
    using assms(1) by (simp add: sorted_filter)
  moreover have "f x \<in> set (map f (filter P xs))"
    using assms(2,3) by simp
  moreover have "filter P xs \<noteq> []"
    using assms(2,3) by (auto simp: filter_empty_conv)
  ultimately show ?thesis
    using sorted_le_last [of "map f (filter P xs)" "f x"] by (simp add: last_map)
qed

lemma hn_last_end_date:
  assumes "r \<in> set data" and "S_INFO_WINDCODE r = c" and "ANN_DT r = d"
  shows "S_HOLDER_ENDDATE r \<le> S_HOLDER_ENDDATE
      (last (filter (\<lambda>r. S_INFO_WINDCODE r = c \<and> ANN_DT r = d) (hn_sort_values data)))"
proof -
  let ?P = "\<lambda>r. S_INFO_WINDCODE r = c \<and> ANN_DT r = d"
  let ?l = "last (filter ?P (hn_sort_values data))"
  have ne: "filter ?P (hn_sort_values data) \<noteq> []"
    using assms by (auto simp: filter_empty_conv)
  then have "?l \<in> set (filter ?P (hn_sort_values data))"
    by (rule last_in_set)
  then have l: "S_INFO_WINDCODE ?l = c" "ANN_DT ?l = d"
    by auto
  have "sorted (map (\<lambda>r. (S_INFO_WINDCODE r, ANN_DT r, S_HOLDER_ENDDATE r)) (hn_sort_values data))"
    by (simp add: hn_sort_values_def)
  from last_filter_sorted_greatest [OF this, of r ?P] assms
  have "(S_INFO_WINDCODE r, ANN_DT r, S_HOLDER_ENDDATE r) \<le>
      (S_INFO_WINDCODE ?l, ANN_DT ?l, S_HOLDER_ENDDATE ?l)"
    by simp
  then show ?thesis
    using assms(2,3) l by (simp add: less_eq_prod_def)
qed

section \<open>Duplicate keys in the factor-splitting builds\<close>

lemma fold_max_Max: "fold max xs (x::real) = Max (set (x # xs))"
  by (rule Max.set_eq_fold [symmetric])

lemma group_max_cases:
  "(group_max vs = NaN \<longleftrightarrow> (\<forall>v \<in> set vs. v = None)) \<and>
   (\<forall>x. group_max vs = Num x \<longrightarrow> Some x \<in> set vs \<and> (\<forall>y. Some y \<in> set vs \<longrightarrow> y \<le> x)) \<and>
   (\<forall>s. group_max vs \<noteq> Str s)"
proof (cases "map the (filter (\<lambda>v. v \<noteq> None) vs)")
  case Nil
  then have "\<forall>v \<in> set vs. v = None"
    by (auto simp: filter_empty_conv)
  then show ?thesis using Nil by (auto simp: group_max_def)
next
  case (Cons x xs)
  let ?m = "Max (set (x # xs))"
  have g: "group_max vs = Num ?m"
    unfolding group_max_def Cons fold_max_Max by simp
  have s: "set (x # xs) = {y. Some y \<in> set vs}"
    unfolding Cons [symmetric] by force
  have "?m \<in> set (x # xs)"
    by (rule Max_in) auto
  then have 1: "Some ?m \<in> set vs" using s by auto
  have 2: "\<forall>y. Some y \<in> set vs \<longrightarrow> y \<le> ?m"
    using s by (metis List.finite_set Max_ge mem_Collect_eq)
  show ?thesis
    using g 1 2 by auto
qed

lemma cell_at_unstack_reindex:
  assumes "unstack_data data factor = Inr t" and "reindex_columns column t = Inr p"
    and "d \<in> TRADE_DT ` set data" and "c \<in> set column"
  shows "cell_at p d c = Some (group_max (map (\<lambda>r. factor_value r factor)
      (filter (\<lambda>r. TRADE_DT r = d \<and> WINDCODE r = c) data)))"
proof -
  let ?dates = "sorted_set (map TRADE_DT data)"
  let ?codes = "sorted_set (map WINDCODE data)"
  let ?g = "\<lambda>d c. group_max (map (\<lambda>r. factor_value r factor)
      (filter (\<lambda>r. TRADE_DT r = d \<and> WINDCODE r = c) data))"
  have t: "t = \<lparr>df_index = ?dates, df_columns = ?codes,
      df_values = map (\<lambda>d. map (?g d) ?codes) ?dates\<rparr>"
    using assms(1) by (auto simp: unstack_data_def split: if_splits)
  have din: "d \<in> set ?dates"
    using assms(3) by simp
  have empty: "?g d c = NaN" if "c \<notin> set ?codes"
  proof -
    have "filter (\<lambda>r. TRADE_DT r = d \<and> WINDCODE r = c) data = []"
      using that by (auto simp: filter_empty_conv)
    then show ?thesis by (simp add: group_max_def)
  qed
  show ?thesis
  proof (cases "?codes = column")
    case True
    then have "p = t"
      using assms(2) t by (simp add: reindex_columns_def)
    then show ?thesis
      using din assms(4) True
      by (simp add: t cell_at_def map_of_zip_map)
  next
    case False
    then have p: "p = \<lparr>df_index = ?dates, df_columns = column,
        df_values = map (\<lambda>row. map (\<lambda>c. case map_of (zip ?codes row) c of
                                                    None \<Rightarrow> NaN | Some v \<Rightarrow> v) column)
                              (map (\<lambda>d. map (?g d) ?codes) ?dates)\<rparr>"
      using assms(2) t by (simp add: reindex_columns_def)
    show ?thesis
      using din assms(4) empty
      by (simp add: p cell_at_def map_of_zip_map o_def)
  qed
qed

section \<open>Forward fill\<close>

lemma carry_Nil [simp]: "carry g a [] = a"
  by (simp add: carry_def)

lemma carry_Cons: "carry g a (d # ds) = carry g (if g d = NaN then a else g d) ds"
  by (simp add: carry_def)

lemma carry_snoc: "carry g a (ds @ [d]) = (if g d = NaN then carry g a ds else g d)"
  by (simp add: carry_def)

lemma map2_map_map: "map2 f (map h xs) (map k xs) = map (\<lambda>x. f (h x) (k x)) xs"
  by (induction xs) auto

lemma ffill_rows_carry:
  "ffill_rows (map h cols) (map (\<lambda>i. map (\<lambda>c. g c i) cols) ds) =
     map (\<lambda>k. map (\<lambda>c. carry (g c) (h c) (take (Suc k) ds)) cols) [0..<length ds]"
proof (induction ds arbitrary: h)
  case Nil
  show ?case by simp
next
  case (Cons d ds)
  let ?h = "\<lambda>c. if g c d = NaN then h c else g c d"
  have r: "map2 (\<lambda>p c. if c = NaN then p else c) (map h cols) (map (\<lambda>c. g c d) cols) = map ?h cols"
    by (simp add: map2_map_map)
  have u: "[0..<length (d # ds)] = 0 # map Suc [0..<length ds]"
    by (simp add: upt_conv_Cons map_Suc_upt del: upt_Suc)
  show ?case
    unfolding u
    by (simp add: r Let_def Cons.IH [of ?h] carry_Cons o_def del: upt_Suc)
qed

text \<open>The rows of a forward-filled frame built from a dict of dicts.\<close>

lemma fillna_ffill_DataFrame:
  "df_values (fillna_ffill (DataFrame d idx cols)) =
     map (\<lambda>k. map (\<lambda>c. carry (\<lambda>i. case map_of d c of None \<Rightarrow> NaN | Some col \<Rightarrow> get_cell col i)
                          NaN (take (Suc k) idx)) cols) [0..<length idx]"
proof -
  have "replicate (length cols) NaN = map (\<lambda>c. NaN) cols"
    by (simp add: map_replicate_const)
  then show ?thesis
    by (simp add: fillna_ffill_def DataFrame_def
        ffill_rows_carry [of "\<lambda>c. NaN" cols "\<lambda>c i. case map_of d c of None \<Rightarrow> NaN | Some col \<Rightarrow> get_cell col i" idx])
qed

lemma carry_last:
  "carry g a ds = (if filter (\<lambda>d. g d \<noteq> NaN) ds = [] then a
                   else g (last (filter (\<lambda>d. g d \<noteq> NaN) ds)))"
  by (induction ds rule: rev_induct) (auto simp: carry_snoc)

lemma sorted_last_Max:
  assumes "sorted xs" and "xs \<noteq> []"
  shows "last xs = Max (set xs)"
proof -
  have "\<forall>x \<in> set xs. x \<le> last xs"
    using assms(1) sorted_le_last by blast
  moreover have "last xs \<in> set xs"
    using assms(2) by simp
  ultimately show ?thesis
    by (metis List.finite_set Max_eqI)
qed

lemma set_take_sorted:
  assumes "sorted xs" and "distinct xs" and "k < length xs"
  shows "set (take (Suc k) xs) = {x \<in> set xs. x \<le> xs ! k}"
proof (intro set_eqI iffI)
  fix x assume "x \<in> set (take (Suc k) xs)"
  then obtain i where i: "i < Suc k" "x = xs ! i"
    using assms(3) by (auto simp: in_set_conv_nth)
  then have "xs ! i \<le> xs ! k"
    using assms(1,3) by (simp add: sorted_nth_mono)
  then show "x \<in> {x \<in> set xs. x \<le> xs ! k}"
    using i assms(3) by auto
next
  fix x assume "x \<in> {x \<in> set xs. x \<le> xs ! k}"
  then obtain j where j: "j < length xs" "x = xs ! j" and le: "xs ! j \<le> xs ! k"
    by (auto simp: in_set_conv_nth)
  have "j \<le> k"
  proof (rule ccontr)
    assume "\<not> j \<le> k"
    then have "k < j" by simp
    then have "xs ! k \<le> xs ! j"
      using assms(1) j(1) by (simp add: sorted_nth_mono)
    then have "xs ! k = xs ! j" using le by simp
    then show False
      using assms(2,3) j(1) \<open>k < j\<close> by (simp add: nth_eq_iff_index_eq)
  qed
  then have "j < length (take (Suc k) xs)" and "take (Suc k) xs ! j = x"
    using j assms(3) by auto
  then show "x \<in> set (take (Suc k) xs)"
    by (metis nth_mem)
qed

text \<open>On an ascending calendar the value carried to a date is the cell of the latest
  date on or before it that has one.\<close>

lemma carry_sorted:
  assumes "sorted xs" and "distinct xs" and "k < length xs"
  shows "carry g NaN (take (Suc k) xs) =
    (if {x \<in> set xs. x \<le> xs ! k \<and> g x \<noteq> NaN} = {} then NaN
     else g (Max {x \<in> set xs. x \<le> xs ! k \<and> g x \<noteq> NaN}))"
proof -
  let ?ds = "filter (\<lambda>d. g d \<noteq> NaN) (take (Suc k) xs)"
  have s: "set ?ds = {x \<in> set xs. x \<le> xs ! k \<and> g x \<noteq> NaN}"
    using set_take_sorted [OF assms] by auto
  have srt: "sorted ?ds"
    using assms(1) sorted_wrt_filter sorted_wrt_take by blast
  show ?thesis
  proof (cases "?ds = []")
    case True
    then show ?thesis
      using s by (metis (no_types, lifting) carry_last set_empty)
  next
    case False
    then have "last ?ds = Max (set ?ds)"
      using srt sorted_last_Max by blast
    then show ?thesis
      using False s by (metis (no_types, lifting) carry_last set_empty)
  qed
qed

subsection \<open>Cells of a forward-filled frame\<close>

lemma get_cell_dict_get2:
  "(case map_of d c of None \<Rightarrow> NaN | Some col \<Rightarrow> get_cell col i) =
     (case dict_get2 d c i of None \<Rightarrow> NaN | Some v \<Rightarrow> v)"
  by (simp add: get_cell_def dict_get2_def split: option.splits)

lemma cell_at_filled:
  assumes "sorted idx" and "distinct idx" and "i \<in> set idx" and "c \<in> set cols"
  shows "cell_at (fillna_ffill (DataFrame d idx cols)) i c =
    Some (if {x \<in> set idx. x \<le> i \<and> dict_get2 d c x \<noteq> None \<and> dict_get2 d c x \<noteq> Some NaN} = {}
          then NaN
          else the (dict_get2 d c
            (Max {x \<in> set idx. x \<le> i \<and> dict_get2 d c x \<noteq> None \<and> dict_get2 d c x \<noteq> Some NaN})))"
proof -
  let ?g = "\<lambda>c i. case dict_get2 d c i of None \<Rightarrow> NaN | Some v \<Rightarrow> v"
  let ?rows = "map (\<lambda>k. map (\<lambda>c. carry (?g c) NaN (take (Suc k) idx)) cols) [0..<length idx]"
  obtain k where k: "k < length idx" "idx ! k = i"
    using assms(3) by (auto simp: in_set_conv_nth)
  have v: "df_values (fillna_ffill (DataFrame d idx cols)) = ?rows"
    by (simp add: fillna_ffill_DataFrame get_cell_dict_get2)
  have ix: "df_index (fillna_ffill (DataFrame d idx cols)) = idx"
    and cl: "df_columns (fillna_ffill (DataFrame d idx cols)) = cols"
    by (simp_all add: fillna_ffill_def DataFrame_def)
  have "map_of (zip idx ?rows) (idx ! k) = Some (?rows ! k)"
    by (rule map_of_zip_nth) (use assms(2) k in simp_all)
  then have row: "map_of (zip idx ?rows) i = Some (map (\<lambda>c. carry (?g c) NaN (take (Suc k) idx)) cols)"
    using k by simp
  have "cell_at (fillna_ffill (DataFrame d idx cols)) i c = Some (carry (?g c) NaN (take (Suc k) idx))"
    using assms(4) by (simp add: cell_at_def v ix cl row map_of_zip_map)
  also have "carry (?g c) NaN (take (Suc k) idx) =
    (if {x \<in> set idx. x \<le> idx ! k \<and> ?g c x \<noteq> NaN} = {} then NaN
     else ?g c (Max {x \<in> set idx. x \<le> idx ! k \<and> ?g c x \<noteq> NaN}))"
    by (rule carry_sorted [OF assms(1,2) k(1)])
  also have "{x \<in> set idx. x \<le> idx ! k \<and> ?g c x \<noteq> NaN} =
      {x \<in> set idx. x \<le> i \<and> dict_get2 d c x \<noteq> None \<and> dict_get2 d c x \<noteq> Some NaN}"
    using k(2) by (auto split: option.splits)
  finally show ?thesis
  proof -
    let ?S = "{x \<in> set idx. x \<le> i \<and> dict_get2 d c x \<noteq> None \<and> dict_get2 d c x \<noteq> Some NaN}"
    assume *: "cell_at (fillna_ffill (DataFrame d idx cols)) i c =
      Some (if ?S = {} then NaN else ?g c (Max ?S))"
    have "?g c (Max ?S) = the (dict_get2 d c (Max ?S))" if "?S \<noteq> {}"
    proof -
      have "Max ?S \<in> ?S"
        by (rule Max_in) (use that in auto)
      then show ?thesis by (auto split: option.splits)
    qed
    with * show ?thesis by auto
  qed
qed

lemma cell_at_replace_nan:
  "cell_at (replace_nan old df) i c = map_option (\<lambda>v. if v = old then NaN else v) (cell_at df i c)"
proof -
  let ?f = "map (\<lambda>c. if c = old then NaN else c)"
  have z: "zip (df_index df) (map ?f (df_values df)) =
      map (\<lambda>(k, v). (k, ?f v)) (zip (df_index df) (df_values df))"
    by (simp add: zip_map2)
  have m: "map_of (zip (df_index df) (map ?f (df_values df))) i =
      map_option ?f (map_of (zip (df_index df) (df_values df)) i)"
    unfolding z by (simp add: map_of_map)
  have z2: "zip (df_columns df) (?f row) =
      map (\<lambda>(k, v). (k, if v = old then NaN else v)) (zip (df_columns df) row)" for row
    by (simp add: zip_map2)
  have m2: "map_of (zip (df_columns df) (?f row)) c =
      map_option (\<lambda>v. if v = old then NaN else v) (map_of (zip (df_columns df) row) c)" for row
    unfolding z2 by (simp add: map_of_map)
  show ?thesis
    by (simp add: cell_at_def replace_nan_def m m2 split: option.splits)
qed

lemma replace_nan_none_left:
  assumes "old \<noteq> NaN" and "row \<in> set (df_values (replace_nan old df))"
  shows "old \<notin> set row"
  using assms by (auto simp: replace_nan_def)

section \<open>The financial-indicator walk on a grouped stream\<close>

lemma afi_first_date_anchor:
  assumes "bisect index (YEAR r @ ''0101'') < length index"
  shows "afi_first_date index (YEAR r) = Inr (afi_anchor index r)"
  using assms by (simp add: afi_first_date_def afi_anchor_def Let_def)

lemma last_filter_Cons:
  "last (filter P (x # xs)) = (if filter P xs = [] then (if P x then x else last []) else last (filter P xs))"
  by simp

lemma if_chain:
  "(if A then X else if B then N else if C then N else D) = (if A then X else if B \<or> C then N else D)"
  by auto

lemma afi_loop_lookup:
  assumes "\<forall>r \<in> set (pre # rs). bisect index (YEAR r @ ''0101'') < length index"
    and "afi_grouped (pre # rs)"
    and "f \<in> set target_column"
  shows "\<exists>pre' sd' md'. afi_loop index target_column pre rs sd md = Inr (pre', sd', md') \<and>
    (\<forall>s c a. dict_get2
        (afi_copy target_column (SEASON pre') (fin_WINDCODE pre')
           (afi_assign target_column pre' (afi_anchor index pre') sd') md' (s, f)) c a =
      (if \<exists>r \<in> set (pre # rs). SEASON r = s \<and> fin_WINDCODE r = c \<and> afi_anchor index r = a
       then Some (na_cell (fin_value
              (last (filter (\<lambda>r. SEASON r = s \<and> fin_WINDCODE r = c \<and> afi_anchor index r = a)
                 (pre # rs))) f))
       else if s = SEASON pre \<and> c = fin_WINDCODE pre then map_of (sd f) a
       else if \<exists>r \<in> set rs. SEASON r = s \<and> fin_WINDCODE r = c then None
       else dict_get2 (md (s, f)) c a))"
  using assms(1,2)
proof (induction rs arbitrary: pre sd md)
  case Nil
  then show ?case
    using assms(3)
    by (auto simp: afi_copy_apply afi_assign_apply dict_get2_update update_conv')
next
  case (Cons r rs)
  have anc: "afi_first_date index (YEAR pre) = Inr (afi_anchor index pre)"
    using Cons.prems(1) by (simp add: afi_first_date_anchor)
  have anchors: "\<forall>r \<in> set (r # rs). bisect index (YEAR r @ ''0101'') < length index"
    using Cons.prems(1) by simp
  have grp: "afi_grouped (r # rs)"
    using Cons.prems(2) by simp
  let ?sd1 = "afi_assign target_column pre (afi_anchor index pre) sd"
  have sd1: "map_of (?sd1 f) a =
      (if a = afi_anchor index pre then Some (na_cell (fin_value pre f)) else map_of (sd f) a)" for a
    using assms(3) by (simp add: afi_assign_apply update_conv')
  show ?case
  proof (cases "fin_WINDCODE pre \<noteq> fin_WINDCODE r")
    case True
    let ?md1 = "afi_copy target_column (SEASON pre) (fin_WINDCODE pre) ?sd1 md"
    have nin: "\<forall>z \<in> set (r # rs). SEASON z \<noteq> SEASON pre \<or> fin_WINDCODE z \<noteq> fin_WINDCODE pre"
      using Cons.prems(2) True by simp
    have md1: "dict_get2 (?md1 (s, f)) c a =
        (if s = SEASON pre \<and> c = fin_WINDCODE pre then map_of (?sd1 f) a
         else dict_get2 (md (s, f)) c a)" for s c a
      using assms(3) by (simp add: afi_copy_apply dict_get2_update)
    have cl: "map_of (afi_clear target_column ?sd1 f) a = None" for a
      using assms(3) by (simp add: afi_clear_apply)
    from Cons.IH [OF anchors grp, of "afi_clear target_column ?sd1" ?md1]
    obtain pre' sd' md' where
      run: "afi_loop index target_column r rs (afi_clear target_column ?sd1) ?md1 = Inr (pre', sd', md')"
      and ih: "\<And>s c a. dict_get2
        (afi_copy target_column (SEASON pre') (fin_WINDCODE pre')
           (afi_assign target_column pre' (afi_anchor index pre') sd') md' (s, f)) c a =
        (if \<exists>x \<in> set (r # rs). SEASON x = s \<and> fin_WINDCODE x = c \<and> afi_anchor index x = a
         then Some (na_cell (fin_value
              (last (filter (\<lambda>x. SEASON x = s \<and> fin_WINDCODE x = c \<and> afi_anchor index x = a)
                 (r # rs))) f))
         else if s = SEASON r \<and> c = fin_WINDCODE r then map_of (afi_clear target_column ?sd1 f) a
         else if \<exists>x \<in> set rs. SEASON x = s \<and> fin_WINDCODE x = c then None
         else dict_get2 (?md1 (s, f)) c a)"
      by blast
    have run': "afi_loop index target_column pre (r # rs) sd md = Inr (pre', sd', md')"
      using run True by (simp add: anc Let_def)
    have "dict_get2
        (afi_copy target_column (SEASON pre') (fin_WINDCODE pre')
           (afi_assign target_column pre' (afi_anchor index pre') sd') md' (s, f)) c a =
      (if \<exists>x \<in> set (pre # r # rs). SEASON x = s \<and> fin_WINDCODE x = c \<and> afi_anchor index x = a
       then Some (na_cell (fin_value
              (last (filter (\<lambda>x. SEASON x = s \<and> fin_WINDCODE x = c \<and> afi_anchor index x = a)
                 (pre # r # rs))) f))
       else if s = SEASON pre \<and> c = fin_WINDCODE pre then map_of (sd f) a
       else if \<exists>x \<in> set (r # rs). SEASON x = s \<and> fin_WINDCODE x = c then None
       else dict_get2 (md (s, f)) c a)" for s c a
    proof (cases "s = SEASON pre \<and> c = fin_WINDCODE pre")
      case key: True
      let ?P = "\<lambda>x. SEASON x = s \<and> fin_WINDCODE x = c \<and> afi_anchor index x = a"
      have none: "\<not> (\<exists>x \<in> set (r # rs). SEASON x = s \<and> fin_WINDCODE x = c)"
        using nin key by blast
      then have noneP: "\<not> (\<exists>x \<in> set (r # rs). ?P x)" and fil: "filter ?P (r # rs) = []"
        by (auto simp: filter_empty_conv)
      have none_r: "\<not> (s = SEASON r \<and> c = fin_WINDCODE r)"
          and none_rs: "\<not> (\<exists>x \<in> set rs. SEASON x = s \<and> fin_WINDCODE x = c)"
        using none by auto
      have lhs: "dict_get2
        (afi_copy target_column (SEASON pre') (fin_WINDCODE pre')
           (afi_assign target_column pre' (afi_anchor index pre') sd') md' (s, f)) c a =
          (if a = afi_anchor index pre then Some (na_cell (fin_value pre f)) else map_of (sd f) a)"
        unfolding ih using noneP none_r none_rs key by (simp only: if_False md1 sd1 if_True simp_thms)
      have ex: "(\<exists>x \<in> set (pre # r # rs). ?P x) \<longleftrightarrow> a = afi_anchor index pre"
        using noneP key by auto
      have lst: "filter ?P (pre # r # rs) = [pre]" if "a = afi_anchor index pre"
        using that key fil by simp
      show ?thesis
        unfolding lhs using ex key lst by auto
    next
      case nokey: False
      let ?P = "\<lambda>x. SEASON x = s \<and> fin_WINDCODE x = c \<and> afi_anchor index x = a"
      have np: "\<not> ?P pre" using nokey by auto
      have fil: "filter ?P (pre # r # rs) = filter ?P (r # rs)"
        using np by simp
      have ex: "(\<exists>x \<in> set (pre # r # rs). ?P x) \<longleftrightarrow> (\<exists>x \<in> set (r # rs). ?P x)"
        using np by auto
      have md: "dict_get2 (?md1 (s, f)) c a = dict_get2 (md (s, f)) c a"
        using nokey by (simp only: md1 if_False)
      have ex2: "(\<exists>x \<in> set (r # rs). SEASON x = s \<and> fin_WINDCODE x = c) \<longleftrightarrow>
          (s = SEASON r \<and> c = fin_WINDCODE r) \<or> (\<exists>x \<in> set rs. SEASON x = s \<and> fin_WINDCODE x = c)"
        by auto
      show ?thesis
        unfolding ih fil ex md cl ex2 using nokey by (simp only: if_False if_chain)
    qed
    with run' show ?thesis by blast
  next
    case False
    then have same: "fin_WINDCODE pre = fin_WINDCODE r" and season: "SEASON pre = SEASON r"
      using Cons.prems(2) by auto
    from Cons.IH [OF anchors grp, of ?sd1 md]
    obtain pre' sd' md' where
      run: "afi_loop index target_column r rs ?sd1 md = Inr (pre', sd', md')"
      and ih: "\<And>s c a. dict_get2
        (afi_copy target_column (SEASON pre') (fin_WINDCODE pre')
           (afi_assign target_column pre' (afi_anchor index pre') sd') md' (s, f)) c a =
        (if \<exists>x \<in> set (r # rs). SEASON x = s \<and> fin_WINDCODE x = c \<and> afi_anchor index x = a
         then Some (na_cell (fin_value
              (last (filter (\<lambda>x. SEASON x = s \<and> fin_WINDCODE x = c \<and> afi_anchor index x = a)
                 (r # rs))) f))
         else if s = SEASON r \<and> c = fin_WINDCODE r then map_of (?sd1 f) a
         else if \<exists>x \<in> set rs. SEASON x = s \<and> fin_WINDCODE x = c then None
         else dict_get2 (md (s, f)) c a)"
      by blast
    have run': "afi_loop index target_column pre (r # rs) sd md = Inr (pre', sd', md')"
      using run same by (simp add: anc Let_def)
    have "dict_get2
        (afi_copy target_column (SEASON pre') (fin_WINDCODE pre')
           (afi_assign target_column pre' (afi_anchor index pre') sd') md' (s, f)) c a =
      (if \<exists>x \<in> set (pre # r # rs). SEASON x = s \<and> fin_WINDCODE x = c \<and> afi_anchor index x = a
       then Some (na_cell (fin_value
              (last (filter (\<lambda>x. SEASON x = s \<and> fin_WINDCODE x = c \<and> afi_anchor index x = a)
                 (pre # r # rs))) f))
       else if s = SEASON pre \<and> c = fin_WINDCODE pre then map_of (sd f) a
       else if \<exists>x \<in> set (r # rs). SEASON x = s \<and> fin_WINDCODE x = c then None
       else dict_get2 (md (s, f)) c a)" for s c a
    proof (cases "\<exists>x \<in> set (r # rs). SEASON x = s \<and> fin_WINDCODE x = c \<and> afi_anchor index x = a")
      case later: True
      let ?P = "\<lambda>x. SEASON x = s \<and> fin_WINDCODE x = c \<and> afi_anchor index x = a"
      have ne: "filter ?P (r # rs) \<noteq> []"
        using later by (simp only: filter_empty_conv) blast
      have "last (filter ?P (pre # r # rs)) = last (filter ?P (r # rs))"
        using ne by (simp only: last_filter_Cons if_False)
      moreover have "\<exists>x \<in> set (pre # r # rs). ?P x"
        using later by auto
      ultimately show ?thesis
        unfolding ih using later by (simp only: if_True)
    next
      case nolater: False
      let ?P = "\<lambda>x. SEASON x = s \<and> fin_WINDCODE x = c \<and> afi_anchor index x = a"
      have fil: "filter ?P (r # rs) = []"
        using nolater by (auto simp: filter_empty_conv)
      show ?thesis
      proof (cases "?P pre")
        case True
        then have key: "s = SEASON r \<and> c = fin_WINDCODE r" and a: "a = afi_anchor index pre"
          using same season by auto
        have fl: "filter ?P (pre # r # rs) = [pre]"
          using True fil by simp
        have exP: "\<exists>x \<in> set (pre # r # rs). ?P x"
          using True by auto
        have "dict_get2
          (afi_copy target_column (SEASON pre') (fin_WINDCODE pre')
             (afi_assign target_column pre' (afi_anchor index pre') sd') md' (s, f)) c a =
            map_of (?sd1 f) a"
          by (simp only: ih if_not_P [OF nolater] if_P [OF key])
        also have "\<dots> = Some (na_cell (fin_value pre f))"
          by (simp add: sd1 a)
        finally show ?thesis
          by (simp only: if_P [OF exP] fl last.simps if_True simp_thms)
      next
        case False
        then have ex: "\<not> (\<exists>x \<in> set (pre # r # rs). ?P x)"
          using nolater by auto
        show ?thesis
        proof (cases "s = SEASON r \<and> c = fin_WINDCODE r")
          case key: True
          then have key': "s = SEASON pre \<and> c = fin_WINDCODE pre"
            using same season by simp
          have a: "a \<noteq> afi_anchor index pre"
            using False key' by auto
          have "dict_get2
            (afi_copy target_column (SEASON pre') (fin_WINDCODE pre')
               (afi_assign target_column pre' (afi_anchor index pre') sd') md' (s, f)) c a =
              map_of (?sd1 f) a"
            by (simp only: ih if_not_P [OF nolater] if_P [OF key])
          also have "\<dots> = map_of (sd f) a"
            using a by (simp add: sd1)
          finally show ?thesis
            by (simp only: if_not_P [OF ex] if_P [OF key'])
        next
          case nokey: False
          then have nokey': "\<not> (s = SEASON pre \<and> c = fin_WINDCODE pre)"
            using same season by simp
          have ex2: "(\<exists>x \<in> set (r # rs). SEASON x = s \<and> fin_WINDCODE x = c) \<longleftrightarrow>
              (\<exists>x \<in> set rs. SEASON x = s \<and> fin_WINDCODE x = c)"
            using nokey by auto
          show ?thesis
            by (simp only: ih if_not_P [OF nolater] if_not_P [OF nokey] if_not_P [OF ex]
                if_not_P [OF nokey'] ex2)
        qed
      qed
    qed
    with run' show ?thesis by blast
  qed
qed

lemma afi_loop_last:
  assumes "afi_loop index target_column pre rs sd md = Inr (pre', sd', md')"
  shows "pre' = last (pre # rs)"
  using assms
proof (induction rs arbitrary: pre sd md)
  case Nil
  then show ?case by simp
next
  case (Cons r rs)
  from Cons.prems obtain sd1 md1 where
    "afi_loop index target_column r rs sd1 md1 = Inr (pre', sd', md')"
    by (auto simp: Let_def split: sum.splits if_splits)
  then have "pre' = last (r # rs)"
    by (rule Cons.IH)
  then show ?case by simp
qed

lemma afi_main_dict_lookup:
  assumes "rs \<noteq> []"
    and "\<forall>r \<in> set rs. bisect index (YEAR r @ ''0101'') < length index"
    and "afi_grouped rs"
    and "f \<in> set target_column"
  shows "\<exists>main_dict. afi_main_dict index target_column rs = Inr main_dict \<and>
    (\<forall>s c a. dict_get2 (main_dict (s, f)) c a =
      (if \<exists>r \<in> set rs. SEASON r = s \<and> fin_WINDCODE r = c \<and> afi_anchor index r = a
       then Some (na_cell (fin_value
              (last (filter (\<lambda>r. SEASON r = s \<and> fin_WINDCODE r = c \<and> afi_anchor index r = a) rs)) f))
       else None))"
proof -
  obtain pre rest where rs: "rs = pre # rest"
    using assms(1) by (cases rs) auto
  from afi_loop_lookup [OF assms(2,3) [unfolded rs] assms(4), of "\<lambda>factor. []" "\<lambda>sf. []"]
  obtain pre' sd' md' where
    run: "afi_loop index target_column pre rest (\<lambda>factor. []) (\<lambda>sf. []) = Inr (pre', sd', md')"
    and lk: "\<forall>s c a. dict_get2
        (afi_copy target_column (SEASON pre') (fin_WINDCODE pre')
           (afi_assign target_column pre' (afi_anchor index pre') sd') md' (s, f)) c a =
      (if \<exists>r \<in> set (pre # rest). SEASON r = s \<and> fin_WINDCODE r = c \<and> afi_anchor index r = a
       then Some (na_cell (fin_value
              (last (filter (\<lambda>r. SEASON r = s \<and> fin_WINDCODE r = c \<and> afi_anchor index r = a)
                 (pre # rest))) f))
       else if s = SEASON pre \<and> c = fin_WINDCODE pre then map_of [] a
       else if \<exists>r \<in> set rest. SEASON r = s \<and> fin_WINDCODE r = c then None
       else dict_get2 [] c a)"
    by blast
  have "pre' = last (pre # rest)"
    using run by (rule afi_loop_last)
  then have "pre' \<in> set rs"
    unfolding rs by (metis last_in_set list.distinct(1))
  then have anc: "afi_first_date index (YEAR pre') = Inr (afi_anchor index pre')"
    using assms(2) by (simp add: afi_first_date_anchor)
  have m: "afi_main_dict index target_column rs =
      Inr (afi_copy target_column (SEASON pre') (fin_WINDCODE pre')
           (afi_assign target_column pre' (afi_anchor index pre') sd') md')"
    by (simp add: afi_main_dict_def rs run anc)
  have "\<forall>s c a. dict_get2
        (afi_copy target_column (SEASON pre') (fin_WINDCODE pre')
           (afi_assign target_column pre' (afi_anchor index pre') sd') md' (s, f)) c a =
      (if \<exists>r \<in> set (pre # rest). SEASON r = s \<and> fin_WINDCODE r = c \<and> afi_anchor index r = a
       then Some (na_cell (fin_value
              (last (filter (\<lambda>r. SEASON r = s \<and> fin_WINDCODE r = c \<and> afi_anchor index r = a)
                 (pre # rest))) f))
       else None)"
  proof (intro allI)
    fix s c a
    have e: "map_of ([] :: (string \<times> cell) list) a = None"
        "dict_get2 ([] :: (string, (string, cell) dict) dict) c a = None"
      by (simp_all add: dict_get2_def)
    show "dict_get2
        (afi_copy target_column (SEASON pre') (fin_WINDCODE pre')
           (afi_assign target_column pre' (afi_anchor index pre') sd') md' (s, f)) c a =
      (if \<exists>r \<in> set (pre # rest). SEASON r = s \<and> fin_WINDCODE r = c \<and> afi_anchor index r = a
       then Some (na_cell (fin_value
              (last (filter (\<lambda>r. SEASON r = s \<and> fin_WINDCODE r = c \<and> afi_anchor index r = a)
                 (pre # rest))) f))
       else None)"
      by (simp only: lk [rule_format, of s c a] e if_cancel)
  qed
  with m show ?thesis
    unfolding rs by blast
qed

lemma afi_grouped_sorted:
  assumes "sorted (map (\<lambda>r. (SEASON r, fin_WINDCODE r)) rs)" and "one_season_per_run rs"
  shows "afi_grouped rs"
  using assms
proof (induction rs rule: afi_grouped.induct)
  case 1
  show ?case by simp
next
  case (2 x)
  show ?case by simp
next
  case (3 x y zs)
  have xy: "(SEASON x, fin_WINDCODE x) \<le> (SEASON y, fin_WINDCODE y)"
    and yz: "\<forall>z \<in> set (y # zs). (SEASON y, fin_WINDCODE y) \<le> (SEASON z, fin_WINDCODE z)"
    using "3.prems"(1) by auto
  have "\<forall>z \<in> set (y # zs). SEASON z \<noteq> SEASON x \<or> fin_WINDCODE z \<noteq> fin_WINDCODE x"
    if ne: "fin_WINDCODE x \<noteq> fin_WINDCODE y"
  proof
    fix z assume z: "z \<in> set (y # zs)"
    show "SEASON z \<noteq> SEASON x \<or> fin_WINDCODE z \<noteq> fin_WINDCODE x"
    proof (rule ccontr)
      assume "\<not> (SEASON z \<noteq> SEASON x \<or> fin_WINDCODE z \<noteq> fin_WINDCODE x)"
      then have "(SEASON z, fin_WINDCODE z) = (SEASON x, fin_WINDCODE x)" by simp
      then have "(SEASON y, fin_WINDCODE y) \<le> (SEASON x, fin_WINDCODE x)"
        using yz z by metis
      then have "(SEASON y, fin_WINDCODE y) = (SEASON x, fin_WINDCODE x)"
        using xy by (rule antisym)
      then show False using ne by simp
    qed
  qed
  moreover have "afi_grouped (y # zs)"
    using 3 by simp
  ultimately show ?case
    using "3.prems"(2) by simp
qed

lemma afi_rewrite_sort_sorted:
  "sorted (map (\<lambda>r. (SEASON r, fin_WINDCODE r)) (afi_rewrite_sort data))"
proof -
  have "sorted (map (\<lambda>r. (SEASON r, fin_WINDCODE r, YEAR r)) (afi_rewrite_sort data))"
    by (simp add: afi_rewrite_sort_def)
  then show ?thesis
    by (rule sorted_map_mono) (auto simp: less_eq_prod_def)
qed

subsection \<open>The cells of a season's panel\<close>

lemma na_cell_replaced: "(if na_cell v = Str ''NA'' then NaN else na_cell v) = num_cell v"
  by (cases v) (simp_all add: na_cell_def num_cell_def)

lemma na_cell_not_NaN [simp]: "na_cell v \<noteq> NaN"
  by (cases v) (simp_all add: na_cell_def)

lemma afi_panel_cell:
  assumes "sorted index" and "distinct index" and "d \<in> set index" and "c \<in> set column"
    and lk: "\<forall>c a. dict_get2 (main_dict (s, f)) c a =
      (if \<exists>r \<in> set rs. SEASON r = s \<and> fin_WINDCODE r = c \<and> afi_anchor index r = a
       then Some (na_cell (fin_value
              (last (filter (\<lambda>r. SEASON r = s \<and> fin_WINDCODE r = c \<and> afi_anchor index r = a) rs)) f))
       else None)"
    and anchors: "\<forall>r \<in> set rs. afi_anchor index r \<in> set index"
  shows "cell_at (afi_panel main_dict index column s f) d c =
    Some (case locf_record (afi_anchor index)
                 (filter (\<lambda>r. SEASON r = s \<and> fin_WINDCODE r = c) rs) d of
            None \<Rightarrow> NaN | Some r \<Rightarrow> num_cell (fin_value r f))"
proof -
  let ?D = "main_dict (s, f)"
  let ?G = "filter (\<lambda>r. SEASON r = s \<and> fin_WINDCODE r = c) rs"
  let ?S = "{x \<in> set index. x \<le> d \<and> dict_get2 ?D c x \<noteq> None \<and> dict_get2 ?D c x \<noteq> Some NaN}"
  let ?K = "filter (\<lambda>r. afi_anchor index r \<le> d) ?G"
  have S: "?S = set (map (afi_anchor index) ?K)"
    using anchors by (auto simp: lk)
  have filled: "cell_at (fillna_ffill (DataFrame ?D index column)) d c =
      Some (if ?S = {} then NaN else the (dict_get2 ?D c (Max ?S)))"
    by (rule cell_at_filled [OF assms(1-4)])
  show ?thesis
  proof (cases "?K = []")
    case True
    then have "?S = {}" using S by simp
    moreover have "locf_record (afi_anchor index) ?G d = None"
      using True by (simp add: locf_record_def)
    ultimately show ?thesis
      using filled by (simp add: afi_panel_def cell_at_replace_nan)
  next
    case False
    let ?A = "Max (set (map (afi_anchor index) ?K))"
    have "map (afi_anchor index) ?K \<noteq> []"
      using False by (simp only: map_is_Nil_conv not_False_eq_True)
    then have neK: "set (map (afi_anchor index) ?K) \<noteq> {}"
      by (simp only: set_empty not_False_eq_True)
    then have ne: "?S \<noteq> {}" unfolding S .
    have "?A \<in> set (map (afi_anchor index) ?K)"
      using neK by (rule Max_in [OF List.finite_set])
    then have ex: "\<exists>r \<in> set rs. SEASON r = s \<and> fin_WINDCODE r = c \<and> afi_anchor index r = ?A"
      by auto
    have fl: "filter (\<lambda>r. afi_anchor index r = ?A) ?G =
        filter (\<lambda>r. SEASON r = s \<and> fin_WINDCODE r = c \<and> afi_anchor index r = ?A) rs"
      by (simp add: conj_assoc)
    have loc: "locf_record (afi_anchor index) ?G d =
        Some (last (filter (\<lambda>r. SEASON r = s \<and> fin_WINDCODE r = c \<and> afi_anchor index r = ?A) rs))"
      using False unfolding locf_record_def fl [symmetric] by simp
    have dg: "dict_get2 ?D c ?A = Some (na_cell (fin_value
        (last (filter (\<lambda>r. SEASON r = s \<and> fin_WINDCODE r = c \<and> afi_anchor index r = ?A) rs)) f))"
      using ex by (simp only: lk [rule_format, of c ?A] if_True)
    have "cell_at (fillna_ffill (DataFrame ?D index column)) d c =
        Some (the (dict_get2 ?D c (Max ?S)))"
      using filled ne by (simp only: if_False)
    then have "cell_at (fillna_ffill (DataFrame ?D index column)) d c =
        Some (the (dict_get2 ?D c ?A))"
      unfolding S .
    then have "cell_at (fillna_ffill (DataFrame ?D index column)) d c =
        Some (na_cell (fin_value
          (last (filter (\<lambda>r. SEASON r = s \<and> fin_WINDCODE r = c \<and> afi_anchor index r = ?A) rs)) f))"
      unfolding dg by (simp only: option.sel)
    then show ?thesis
      unfolding loc by (simp add: afi_panel_def cell_at_replace_nan na_cell_replaced)
  qed
qed

section \<open>The update gate\<close>

lemma hn_update_data_up_to_date:
  assumes "files w ''holder_number.hdf5'' = Some local" and "new_dates index local = []"
  shows "hn_update_data index column db w =
    Inr (emit [Read_hdf ''holder_number.hdf5'', Print (CHR 0x0A # ''Data is already updated.'')] w)"
  using assms by (simp add: hn_update_data_def read_hdf_def emit_emit)

lemma edi_update_data_up_to_date:
  assumes "files w ''S_VAL_MV.hdf5'' = Some local" and "new_dates index local = []"
  shows "edi_update_data index column db w =
    Inr (emit [Read_hdf ''S_VAL_MV.hdf5'', Print ''Data is already updated!''] w)"
  using assms by (simp add: edi_update_data_def read_hdf_def emit_emit)

lemma l2_update_data_up_to_date:
  assumes "files w ''S_LI_ENTRUSTRATE.hdf5'' = Some local" and "new_dates index local = []"
  shows "l2_update_data index column db w =
    Inr (emit [Read_hdf ''S_LI_ENTRUSTRATE.hdf5'', Print ''Data is already updated!''] w)"
  using assms by (simp add: l2_update_data_def read_hdf_def emit_emit)

lemma afi_update_data_up_to_date:
  assumes "files w (''S_FA_EPS_DILUTED'', 1) = Some local" and "new_dates index local = []"
  shows "afi_update_data index column db w =
    Inr (emit [Read_hdf (''S_FA_EPS_DILUTED'', 1), Print ''Data is already updated!''] w)"
  using assms by (simp add: afi_update_data_def read_hdf_def emit_emit)

lemma repeat_run_emit:
  assumes "\<And>w'. files w' = files w \<Longrightarrow> f w' = Inr (emit es w')"
  shows "repeat_run n f w = Inr (emit (concat (replicate n es)) w)"
  using assms
proof (induction n arbitrary: w)
  case 0
  then show ?case by (simp add: emit_def)
next
  case (Suc n)
  have "f w = Inr (emit es w)" using Suc.prems by simp
  moreover have "repeat_run n f (emit es w) = Inr (emit (concat (replicate n es)) (emit es w))"
    by (rule Suc.IH) (simp add: Suc.prems)
  ultimately show ?case by (simp add: emit_emit)
qed

section \<open>The no-op update\<close>

text \<open>
  Claim C7.  When every calendar date is already a row of the persisted panel (the
  computed list of new dates is empty), \<open>update_data\<close> of HolderNumber and of
  EodDerivativeIndicator returns normally, every file is left as it was, and the only
  input and output performed is the read of the persisted panel and the message that
  the data is already updated: no SQL query and no file write.  The same holds for any
  number of invocations in a row.
\<close>

theorem no_op_update:
  "(files w ''holder_number.hdf5'' = Some local \<and> set index \<subseteq> set (df_index local) \<longrightarrow>
      (\<forall>n. \<exists>w'. repeat_run n (hn_update_data index column db) w = Inr w' \<and>
         files w' = files w \<and>
         trace w' = trace w @ concat (replicate n
           [Read_hdf ''holder_number.hdf5'', Print (CHR 0x0A # ''Data is already updated.'')]))) \<and>
   (files w ''S_VAL_MV.hdf5'' = Some local' \<and> set index \<subseteq> set (df_index local') \<longrightarrow>
      (\<forall>n. \<exists>w'. repeat_run n (edi_update_data index column db') w = Inr w' \<and>
         files w' = files w \<and>
         trace w' = trace w @ concat (replicate n
           [Read_hdf ''S_VAL_MV.hdf5'', Print ''Data is already updated!''])))"
proof (intro conjI impI allI)
  fix n
  assume a: "files w ''holder_number.hdf5'' = Some local \<and> set index \<subseteq> set (df_index local)"
  have "repeat_run n (hn_update_data index column db) w =
      Inr (emit (concat (replicate n
        [Read_hdf ''holder_number.hdf5'', Print (CHR 0x0A # ''Data is already updated.'')])) w)"
    by (rule repeat_run_emit, rule hn_update_data_up_to_date [where local = local])
       (use a in \<open>simp_all add: new_dates_Nil_iff\<close>)
  then show "\<exists>w'. repeat_run n (hn_update_data index column db) w = Inr w' \<and>
         files w' = files w \<and>
         trace w' = trace w @ concat (replicate n
           [Read_hdf ''holder_number.hdf5'', Print (CHR 0x0A # ''Data is already updated.'')])"
    by simp
next
  fix n
  assume a: "files w ''S_VAL_MV.hdf5'' = Some local' \<and> set index \<subseteq> set (df_index local')"
  have "repeat_run n (edi_update_data index column db') w =
      Inr (emit (concat (replicate n
        [Read_hdf ''S_VAL_MV.hdf5'', Print ''Data is already updated!''])) w)"
    by (rule repeat_run_emit, rule edi_update_data_up_to_date [where local = local'])
       (use a in \<open>simp_all add: new_dates_Nil_iff\<close>)
  then show "\<exists>w'. repeat_run n (edi_update_data index column db') w = Inr w' \<and>
         files w' = files w \<and>
         trace w' = trace w @ concat (replicate n
           [Read_hdf ''S_VAL_MV.hdf5'', Print ''Data is already updated!''])"
    by simp
qed

text \<open>The theorem at a store that holds both panels, each with the one calendar date,
  for two invocations in a row.\<close>

theorem no_op_update_witness:
  "files example_store ''holder_number.hdf5'' = Some example_panel \<and>
   files example_store ''S_VAL_MV.hdf5'' = Some example_panel \<and>
   set [''20160104'', ''20160105''] \<subseteq> set (df_index example_panel) \<and>
   (\<exists>w'. repeat_run 2 (hn_update_data [''20160104'', ''20160105''] [''000001.SZ''] []) example_store = Inr w' \<and>
      files w' = files example_store \<and>
      trace w' = trace example_store @ concat (replicate 2
        [Read_hdf ''holder_number.hdf5'', Print (CHR 0x0A # ''Data is already updated.'')])) \<and>
   (\<exists>w'. repeat_run 2 (edi_update_data [''20160104'', ''20160105''] [''000001.SZ''] []) example_store = Inr w' \<and>
      files w' = files example_store \<and>
      trace w' = trace example_store @ concat (replicate 2
        [Read_hdf ''S_VAL_MV.hdf5'', Print ''Data is already updated!'']))"
proof -
  have h: "files example_store ''holder_number.hdf5'' = Some example_panel \<and>
      set [''20160104'', ''20160105''] \<subseteq> set (df_index example_panel)"
    by (simp add: example_store_def example_panel_def)
  have h': "files example_store ''S_VAL_MV.hdf5'' = Some example_panel \<and>
      set [''20160104'', ''20160105''] \<subseteq> set (df_index example_panel)"
    by (simp add: example_store_def example_panel_def)
  from h h' no_op_update [of example_store example_panel "[''20160104'', ''20160105'']"
      "[''000001.SZ'']" "[]" example_panel "[]"]
  show ?thesis by blast
qed

section \<open>The designated panel decides\<close>

text \<open>
  Claim C10.  In each multi-factor job the decision to update reads one designated
  panel only (\<open>S_VAL_MV\<close> for the EOD job, \<open>S_LI_ENTRUSTRATE\<close> for the L2 job,
  \<open>S_FA_EPS_DILUTED\<close> of season 1 for the financial-indicator job).  When that panel
  has every calendar date among its rows, \<open>update_data\<close> returns with every file as
  it was, having read that one file and nothing else and having written nothing,
  whatever the other panels of the store hold or lack.
\<close>

theorem designated_panel_gate:
  "(files w ''S_VAL_MV.hdf5'' = Some p \<and> set index \<subseteq> set (df_index p) \<longrightarrow>
      (\<exists>w'. edi_update_data index column db w = Inr w' \<and> files w' = files w \<and>
         trace w' = trace w @ [Read_hdf ''S_VAL_MV.hdf5'', Print ''Data is already updated!''])) \<and>
   (files w ''S_LI_ENTRUSTRATE.hdf5'' = Some p' \<and> set index \<subseteq> set (df_index p') \<longrightarrow>
      (\<exists>w'. l2_update_data index column db w = Inr w' \<and> files w' = files w \<and>
         trace w' = trace w @ [Read_hdf ''S_LI_ENTRUSTRATE.hdf5'', Print ''Data is already updated!''])) \<and>
   (files v (''S_FA_EPS_DILUTED'', 1) = Some q \<and> set index \<subseteq> set (df_index q) \<longrightarrow>
      (\<exists>v'. afi_update_data index column adb v = Inr v' \<and> files v' = files v \<and>
         trace v' = trace v @ [Read_hdf (''S_FA_EPS_DILUTED'', 1), Print ''Data is already updated!'']))"
  by (simp add: edi_update_data_up_to_date l2_update_data_up_to_date afi_update_data_up_to_date
      new_dates_Nil_iff)

text \<open>The theorem at stores that hold the designated panels, complete, and no other
  panel at all.\<close>

theorem designated_panel_gate_witness:
  "files example_store ''S_VAL_MV.hdf5'' = Some example_panel \<and>
   files example_store ''S_LI_ENTRUSTRATE.hdf5'' = Some example_panel \<and>
   files example_season_store (''S_FA_EPS_DILUTED'', 1) = Some example_panel \<and>
   files example_store ''S_DQ_MV.hdf5'' = None \<and>
   files example_season_store (''S_FA_EPS_BASIC'', 1) = None \<and>
   set [''20160104'', ''20160105''] \<subseteq> set (df_index example_panel) \<and>
   (\<exists>w'. edi_update_data [''20160104'', ''20160105''] [''000001.SZ''] [] example_store = Inr w' \<and>
      files w' = files example_store \<and>
      trace w' = trace example_store @
        [Read_hdf ''S_VAL_MV.hdf5'', Print ''Data is already updated!'']) \<and>
   (\<exists>w'. l2_update_data [''20160104'', ''20160105''] [''000001.SZ''] [] example_store = Inr w' \<and>
      files w' = files example_store \<and>
      trace w' = trace example_store @
        [Read_hdf ''S_LI_ENTRUSTRATE.hdf5'', Print ''Data is already updated!'']) \<and>
   (\<exists>v'. afi_update_data [''20160104'', ''20160105''] [''000001.SZ''] [] example_season_store = Inr v' \<and>
      files v' = files example_season_store \<and>
      trace v' = trace example_season_store @
        [Read_hdf (''S_FA_EPS_DILUTED'', 1), Print ''Data is already updated!''])"
proof -
  have h: "files example_store ''S_VAL_MV.hdf5'' = Some example_panel \<and>
      set [''20160104'', ''20160105''] \<subseteq> set (df_index example_panel)"
    by (simp add: example_store_def example_panel_def)
  have h': "files example_store ''S_LI_ENTRUSTRATE.hdf5'' = Some example_panel \<and>
      set [''20160104'', ''20160105''] \<subseteq> set (df_index example_panel)"
    by (simp add: example_store_def example_panel_def)
  have h'': "files example_season_store (''S_FA_EPS_DILUTED'', 1) = Some example_panel \<and>
      set [''20160104'', ''20160105''] \<subseteq> set (df_index example_panel)"
    by (simp add: example_season_store_def example_panel_def)
  have n: "files example_store ''S_DQ_MV.hdf5'' = None"
      "files example_season_store (''S_FA_EPS_BASIC'', 1) = None"
    by (simp_all add: example_store_def example_season_store_def)
  from h h' h'' n designated_panel_gate [of example_store example_panel
      "[''20160104'', ''20160105'']" "[''000001.SZ'']" "[]" example_panel
      example_season_store example_panel "[]"]
  show ?thesis by blast
qed

section \<open>Row and column keys of the persisted panels\<close>

text \<open>
  The claim as stated fails on the EOD full build: with the calendar 20160104,
  20160105 and records on 20160104 only, the build succeeds and the persisted
  \<open>S_VAL_MV\<close> panel has the single row 20160104.
\<close>

theorem panel_rows_counterexample:
  "\<not> isl (edi_rewrite_data [''20160104'', ''20160105''] [''000001.SZ'']
       [\<lparr>WINDCODE = ''000001.SZ'', TRADE_DT = ''20160104'',
         factor_value = no_values(''S_VAL_MV'' := Some 5)\<rparr>] empty_world) \<and>
   map_option df_index
     (files (projr (edi_rewrite_data [''20160104'', ''20160105''] [''000001.SZ'']
        [\<lparr>WINDCODE = ''000001.SZ'', TRADE_DT = ''20160104'',
          factor_value = no_values(''S_VAL_MV'' := Some 5)\<rparr>] empty_world)) ''S_VAL_MV.hdf5'')
     = Some [''20160104''] \<and>
   [''20160104''] \<noteq> [''20160104'', ''20160105'']"
proof -
  let ?db = "[\<lparr>WINDCODE = ''000001.SZ'', TRADE_DT = ''20160104'',
         factor_value = no_values(''S_VAL_MV'' := Some 5)\<rparr>]"
  have sel: "filter (\<lambda>r. ''20160101'' \<le> TRADE_DT r) ?db = ?db"
    by simp
  have "filter (\<lambda>r. ''20160101'' \<le> TRADE_DT r) ?db \<noteq> []"
    by simp
  from edi_rewrite_data_files [OF this, of "[''20160104'', ''20160105'']" "[''000001.SZ'']" empty_world]
  obtain w' where run: "edi_rewrite_data [''20160104'', ''20160105''] [''000001.SZ''] ?db empty_world = Inr w'"
    and fs: "\<forall>f \<in> set edi_target_column. \<exists>t p. unstack_data ?db f = Inr t \<and>
        reindex_columns [''000001.SZ''] t = Inr p \<and> files w' (f @ ''.hdf5'') = Some p"
    unfolding sel by blast
  have "''S_VAL_MV'' \<in> set edi_target_column"
    by (simp add: edi_target_column_def)
  with fs obtain t p where t: "unstack_data ?db ''S_VAL_MV'' = Inr t"
    and p: "reindex_columns [''000001.SZ''] t = Inr p"
    and fl: "files w' (''S_VAL_MV'' @ ''.hdf5'') = Some p"
    by blast
  have "df_index p = sorted_set (map TRADE_DT ?db)"
    using reindex_columns_Inr(2) [OF p] unstack_data_shape(1) [OF t] by simp
  then have "df_index p = [''20160104'']"
    by (simp add: sorted_set_def)
  then show ?thesis
    using run fl by simp
qed

lemma sorted_filter_split:
  assumes "sorted xs"
  shows "filter (\<lambda>d. d < b) xs @ filter (\<lambda>d. b \<le> d) xs = (xs :: 'a :: linorder list)"
  using assms
proof (induction xs)
  case Nil
  show ?case by simp
next
  case (Cons x xs)
  show ?case
  proof (cases "x < b")
    case True
    then show ?thesis using Cons by simp
  next
    case False
    then have "\<forall>y \<in> set xs. b \<le> y"
      using Cons.prems by auto
    then have "filter (\<lambda>d. d < b) xs = []" and "filter (\<lambda>d. b \<le> d) xs = xs"
      by (auto simp: filter_empty_conv filter_id_conv)
    then show ?thesis using False by simp
  qed
qed

text \<open>
  Claim C4, as the code has it.  The panel persisted by the full build of
  HolderNumber has exactly the calendar as its row keys and exactly the universe as
  its column keys, in their order.  Every panel persisted by the full build or by a
  completed merge of EodDerivativeIndicator has exactly the universe as its column
  keys, in its order.  The row keys of the full build are the distinct dates of the
  fetched records in ascending order, which is the calendar when the calendar is
  strictly ascending and the records fall on exactly its dates.  The row keys of a
  merge are the rows of the persisted panel followed by the distinct dates of the
  fetched records in ascending order, which is the calendar when the calendar is
  strictly ascending, the persisted rows are its dates before the first new date and
  the fetched records fall on exactly its dates from the first new date on.
\<close>

theorem panel_keys:
  "(hn_read_data_before_begin_date db ''20160101'' @ hn_read_data_after_begin_date db ''20160101'' \<noteq> [] \<longrightarrow>
      (\<exists>w' p. hn_rewrite_data index column db w = Inr w' \<and>
         files w' ''holder_number.hdf5'' = Some p \<and> df_index p = index \<and> df_columns p = column)) \<and>
   (filter (\<lambda>r. ''20160101'' \<le> TRADE_DT r) edb \<noteq> [] \<longrightarrow>
      (\<exists>w'. edi_rewrite_data index column edb w = Inr w' \<and>
         (\<forall>f \<in> set edi_target_column. \<exists>p. files w' (f @ ''.hdf5'') = Some p \<and>
            df_columns p = column \<and>
            df_index p = sorted_set (map TRADE_DT (filter (\<lambda>r. ''20160101'' \<le> TRADE_DT r) edb)) \<and>
            (sorted index \<and> distinct index \<and>
             set (map TRADE_DT (filter (\<lambda>r. ''20160101'' \<le> TRADE_DT r) edb)) = set index \<longrightarrow>
             df_index p = index)))) \<and>
   (edi_update_data index column edb w = Inr w3 \<and> files w ''S_VAL_MV.hdf5'' = Some local' \<and>
      new_dates index local' = begin_date # new_date \<longrightarrow>
      (\<forall>f \<in> set edi_target_column. \<exists>old p. files w (f @ ''.hdf5'') = Some old \<and>
         files w3 (f @ ''.hdf5'') = Some p \<and> df_columns p = column \<and>
         df_index p = df_index old @
           sorted_set (map TRADE_DT (filter (\<lambda>r. begin_date \<le> TRADE_DT r) edb)) \<and>
         (sorted index \<and> distinct index \<and>
          df_index old = filter (\<lambda>d. d < begin_date) index \<and>
          set (map TRADE_DT (filter (\<lambda>r. begin_date \<le> TRADE_DT r) edb)) =
            set (filter (\<lambda>d. begin_date \<le> d) index) \<longrightarrow>
          df_index p = index)))"
proof (intro conjI impI)
  assume "hn_read_data_before_begin_date db ''20160101'' @
      hn_read_data_after_begin_date db ''20160101'' \<noteq> []"
  then have "fst (hn_read_data db ''20160101'' w) \<noteq> []"
    by (simp add: hn_read_data_def)
  from hn_rewrite_data_panel [OF this, of index column]
  show "\<exists>w' p. hn_rewrite_data index column db w = Inr w' \<and>
      files w' ''holder_number.hdf5'' = Some p \<and> df_index p = index \<and> df_columns p = column"
    by auto
next
  let ?data = "filter (\<lambda>r. ''20160101'' \<le> TRADE_DT r) edb"
  assume "?data \<noteq> []"
  from edi_rewrite_data_files [OF this, of index column w]
  obtain w' where run: "edi_rewrite_data index column edb w = Inr w'"
    and fs: "\<forall>f \<in> set edi_target_column. \<exists>t p. unstack_data ?data f = Inr t \<and>
        reindex_columns column t = Inr p \<and> files w' (f @ ''.hdf5'') = Some p"
    by blast
  have "\<forall>f \<in> set edi_target_column. \<exists>p. files w' (f @ ''.hdf5'') = Some p \<and>
          df_columns p = column \<and> df_index p = sorted_set (map TRADE_DT ?data) \<and>
          (sorted index \<and> distinct index \<and> set (map TRADE_DT ?data) = set index \<longrightarrow>
           df_index p = index)"
  proof
    fix f assume "f \<in> set edi_target_column"
    with fs obtain t p where t: "unstack_data ?data f = Inr t"
      and p: "reindex_columns column t = Inr p" and fl: "files w' (f @ ''.hdf5'') = Some p"
      by blast
    have ix: "df_index p = sorted_set (map TRADE_DT ?data)"
      using reindex_columns_Inr(2) [OF p] unstack_data_shape(1) [OF t] by simp
    moreover have "df_columns p = column"
      using reindex_columns_Inr(1) [OF p] .
    moreover have "df_index p = index"
      if "sorted index \<and> distinct index \<and> set (map TRADE_DT ?data) = set index"
      unfolding ix using that by (intro sorted_set_eq) simp_all
    ultimately show "\<exists>p. files w' (f @ ''.hdf5'') = Some p \<and>
          df_columns p = column \<and> df_index p = sorted_set (map TRADE_DT ?data) \<and>
          (sorted index \<and> distinct index \<and> set (map TRADE_DT ?data) = set index \<longrightarrow>
           df_index p = index)"
      using fl by blast
  qed
  with run show "\<exists>w'. edi_rewrite_data index column edb w = Inr w' \<and>
      (\<forall>f \<in> set edi_target_column. \<exists>p. files w' (f @ ''.hdf5'') = Some p \<and>
          df_columns p = column \<and> df_index p = sorted_set (map TRADE_DT ?data) \<and>
          (sorted index \<and> distinct index \<and> set (map TRADE_DT ?data) = set index \<longrightarrow>
           df_index p = index))"
    by blast
next
  let ?data = "filter (\<lambda>r. begin_date \<le> TRADE_DT r) edb"
  assume a: "edi_update_data index column edb w = Inr w3 \<and>
      files w ''S_VAL_MV.hdf5'' = Some local' \<and> new_dates index local' = begin_date # new_date"
  then have fs: "\<forall>f \<in> set edi_target_column. \<exists>old t t' p. files w (f @ ''.hdf5'') = Some old \<and>
        unstack_data ?data f = Inr t \<and> df_append old t = Inr t' \<and>
        reindex_columns column t' = Inr p \<and> files w3 (f @ ''.hdf5'') = Some p"
    using edi_update_data_files [of index column edb w w3 local' begin_date new_date] by blast
  show "\<forall>f \<in> set edi_target_column. \<exists>old p. files w (f @ ''.hdf5'') = Some old \<and>
      files w3 (f @ ''.hdf5'') = Some p \<and> df_columns p = column \<and>
      df_index p = df_index old @ sorted_set (map TRADE_DT ?data) \<and>
      (sorted index \<and> distinct index \<and> df_index old = filter (\<lambda>d. d < begin_date) index \<and>
       set (map TRADE_DT ?data) = set (filter (\<lambda>d. begin_date \<le> d) index) \<longrightarrow>
       df_index p = index)"
  proof
    fix f assume "f \<in> set edi_target_column"
    with fs obtain old t t' p where old: "files w (f @ ''.hdf5'') = Some old"
      and t: "unstack_data ?data f = Inr t" and t': "df_append old t = Inr t'"
      and p: "reindex_columns column t' = Inr p" and fl: "files w3 (f @ ''.hdf5'') = Some p"
      by blast
    have ix: "df_index p = df_index old @ sorted_set (map TRADE_DT ?data)"
      using reindex_columns_Inr(2) [OF p] df_append_Inr(1) [OF t'] unstack_data_shape(1) [OF t]
      by simp
    have col: "df_columns p = column"
      using reindex_columns_Inr(1) [OF p] .
    have "df_index p = index"
      if h: "sorted index \<and> distinct index \<and> df_index old = filter (\<lambda>d. d < begin_date) index \<and>
        set (map TRADE_DT ?data) = set (filter (\<lambda>d. begin_date \<le> d) index)"
    proof -
      have "sorted_set (map TRADE_DT ?data) = filter (\<lambda>d. begin_date \<le> d) index"
        using h by (intro sorted_set_eq) (simp_all add: sorted_wrt_filter)
      then have "df_index p = filter (\<lambda>d. d < begin_date) index @ filter (\<lambda>d. begin_date \<le> d) index"
        using ix h by simp
      then show ?thesis
        using h by (simp add: sorted_filter_split)
    qed
    then show "\<exists>old p. files w (f @ ''.hdf5'') = Some old \<and>
      files w3 (f @ ''.hdf5'') = Some p \<and> df_columns p = column \<and>
      df_index p = df_index old @ sorted_set (map TRADE_DT ?data) \<and>
      (sorted index \<and> distinct index \<and> df_index old = filter (\<lambda>d. d < begin_date) index \<and>
       set (map TRADE_DT ?data) = set (filter (\<lambda>d. begin_date \<le> d) index) \<longrightarrow>
       df_index p = index)"
      using old fl ix col by blast
  qed
qed

text \<open>The theorem on the calendar of 20160104 and 20160105 and the universe of one
  security, from a store whose panels were built when the calendar was 20160104: the
  merge fetches the record of 20160105 and every panel it persists has the two dates
  of the calendar as its rows.\<close>

theorem panel_keys_witness:
  "hn_read_data_before_begin_date example_holder_rows ''20160101'' @
     hn_read_data_after_begin_date example_holder_rows ''20160101'' \<noteq> [] \<and>
   (\<exists>w' p. hn_rewrite_data [''20160104'', ''20160105''] [''000001.SZ''] example_holder_rows first_day_store = Inr w' \<and>
      files w' ''holder_number.hdf5'' = Some p \<and> df_index p = [''20160104'', ''20160105''] \<and>
      df_columns p = [''000001.SZ'']) \<and>
   filter (\<lambda>r. ''20160101'' \<le> TRADE_DT r) example_trade_rows \<noteq> [] \<and>
   (\<exists>w'. edi_rewrite_data [''20160104'', ''20160105''] [''000001.SZ''] example_trade_rows first_day_store = Inr w' \<and>
      (\<forall>f \<in> set edi_target_column. \<exists>p. files w' (f @ ''.hdf5'') = Some p \<and>
         df_columns p = [''000001.SZ''] \<and> df_index p = [''20160104'', ''20160105''])) \<and>
   files first_day_store ''S_VAL_MV.hdf5'' = Some first_day_panel \<and>
   new_dates [''20160104'', ''20160105''] first_day_panel = ''20160105'' # [] \<and>
   (\<exists>w3. edi_update_data [''20160104'', ''20160105''] [''000001.SZ''] example_trade_rows first_day_store = Inr w3 \<and>
      (\<forall>f \<in> set edi_target_column. \<exists>p. files w3 (f @ ''.hdf5'') = Some p \<and>
         df_columns p = [''000001.SZ''] \<and> df_index p = [''20160104'', ''20160105'']))"
proof -
  let ?I = "[''20160104'', ''20160105'']"
  let ?C = "[''000001.SZ'']"
  let ?new = "[\<lparr>WINDCODE = ''000001.SZ'', TRADE_DT = ''20160105'',
      factor_value = no_values(''S_VAL_MV'' := Some 6)\<rparr>]"
  note pk = panel_keys [where db = example_holder_rows and index = ?I and column = ?C
      and w = first_day_store and edb = example_trade_rows
      and local' = first_day_panel and begin_date = "''20160105''" and new_date = "[]"]
  have h1: "hn_read_data_before_begin_date example_holder_rows ''20160101'' @
     hn_read_data_after_begin_date example_holder_rows ''20160101'' \<noteq> []"
    by (simp add: example_holder_rows_def hn_read_data_after_begin_date_def regexp_alpha_def)
  have f: "files first_day_store ''S_VAL_MV.hdf5'' = Some first_day_panel"
    by (simp add: first_day_store_def)
  have nd: "new_dates ?I first_day_panel = ''20160105'' # []"
    by (simp add: new_dates_def sorted_set_def first_day_panel_def)
  have sel: "filter (\<lambda>r. ''20160101'' \<le> TRADE_DT r) example_trade_rows = example_trade_rows"
    by (simp add: example_trade_rows_def)
  have sel': "filter (\<lambda>r. ''20160105'' \<le> TRADE_DT r) example_trade_rows = ?new"
    by (simp add: example_trade_rows_def)
  have dates: "sorted_set (map TRADE_DT example_trade_rows) = ?I"
    by (simp add: example_trade_rows_def sorted_set_def)
  have dates': "sorted_set (map TRADE_DT ?new) = [''20160105'']"
    by (simp add: sorted_set_def)
  have h3: "filter (\<lambda>r. ''20160101'' \<le> TRADE_DT r) example_trade_rows \<noteq> []"
    by (simp add: sel) (simp add: example_trade_rows_def)
  obtain w3 where w3: "edi_update_data ?I ?C example_trade_rows first_day_store = Inr w3"
    using edi_update_data_succeeds [OF f nd, of example_trade_rows ?C]
    by (auto simp: sel' first_day_store_def first_day_panel_def)
  have c1: "\<exists>w' p. hn_rewrite_data ?I ?C example_holder_rows first_day_store = Inr w' \<and>
      files w' ''holder_number.hdf5'' = Some p \<and> df_index p = ?I \<and> df_columns p = ?C"
    using pk h1 by blast
  have "\<exists>w'. edi_rewrite_data ?I ?C example_trade_rows first_day_store = Inr w' \<and>
      (\<forall>f \<in> set edi_target_column. \<exists>p. files w' (f @ ''.hdf5'') = Some p \<and>
         df_columns p = ?C \<and>
         df_index p = sorted_set (map TRADE_DT (filter (\<lambda>r. ''20160101'' \<le> TRADE_DT r) example_trade_rows)) \<and>
         (sorted ?I \<and> distinct ?I \<and>
          set (map TRADE_DT (filter (\<lambda>r. ''20160101'' \<le> TRADE_DT r) example_trade_rows)) = set ?I \<longrightarrow>
          df_index p = ?I))"
    using pk h3 by blast
  then have c3: "\<exists>w'. edi_rewrite_data ?I ?C example_trade_rows first_day_store = Inr w' \<and>
      (\<forall>f \<in> set edi_target_column. \<exists>p. files w' (f @ ''.hdf5'') = Some p \<and>
         df_columns p = ?C \<and> df_index p = ?I)"
    unfolding sel dates by blast
  have "\<forall>f \<in> set edi_target_column. \<exists>old p. files first_day_store (f @ ''.hdf5'') = Some old \<and>
      files w3 (f @ ''.hdf5'') = Some p \<and> df_columns p = ?C \<and>
      df_index p = df_index old @
        sorted_set (map TRADE_DT (filter (\<lambda>r. ''20160105'' \<le> TRADE_DT r) example_trade_rows)) \<and>
      (sorted ?I \<and> distinct ?I \<and>
       df_index old = filter (\<lambda>d. d < ''20160105'') ?I \<and>
       set (map TRADE_DT (filter (\<lambda>r. ''20160105'' \<le> TRADE_DT r) example_trade_rows)) =
         set (filter (\<lambda>d. ''20160105'' \<le> d) ?I) \<longrightarrow>
       df_index p = ?I)"
    using pk [where ?w3.0 = w3] w3 f nd by blast
  then have c4: "\<forall>f \<in> set edi_target_column. \<exists>p. files w3 (f @ ''.hdf5'') = Some p \<and>
      df_columns p = ?C \<and> df_index p = ?I"
    unfolding sel' by (simp add: first_day_store_def first_day_panel_def) blast
  show ?thesis
    using h1 c1 h3 c3 f nd w3 c4 by blast
qed

section \<open>LOCF in the full builds\<close>

text \<open>
  Claim C1 on FloatVolume.  A security has one record, dated 20161101, and the calendar
  starts on 20160104.  The claim (and the class documentation, which shows the panel
  of 300557.SZ missing before its first record) gives a missing cell on 20160104; the
  full build fills the whole column, 20160104 included, with the value of the record.
\<close>

theorem fv_single_record_backfilled:
  "\<not> isl (fv_rewrite_data [''20160104'', ''20161101'', ''20161102''] [''300557.SZ'']
       late_float_rows empty_world) \<and>
   files (projr (fv_rewrite_data [''20160104'', ''20161101'', ''20161102''] [''300557.SZ'']
       late_float_rows empty_world)) ''float_volume.hdf5'' =
     Some \<lparr>df_index = [''20160104'', ''20161101'', ''20161102''], df_columns = [''300557.SZ''],
            df_values = [[Num 1400], [Num 1400], [Num 1400]]\<rparr>"
  by code_simp

section \<open>Full build against build and merge\<close>

text \<open>
  Claim C3 on HolderNumber.  One record announced on 20160104.  The full build over
  the calendar 20160104 persists one row; \<open>update_data\<close> over the calendar
  20160104, 20160105 then raises \<open>ValueError\<close> and persists nothing, while the full
  build over both dates persists the two rows the claim expects from the merge.
\<close>

theorem hn_merge_raises:
  "\<not> isl (hn_rewrite_data [''20160104''] [''000001.SZ''] example_holder_rows empty_world) \<and>
   files (projr (hn_rewrite_data [''20160104''] [''000001.SZ''] example_holder_rows empty_world))
       ''holder_number.hdf5'' =
     Some \<lparr>df_index = [''20160104''], df_columns = [''000001.SZ''], df_values = [[Num 100]]\<rparr> \<and>
   isl (hn_update_data [''20160104'', ''20160105''] [''000001.SZ''] example_holder_rows
       (projr (hn_rewrite_data [''20160104''] [''000001.SZ''] example_holder_rows empty_world))) \<and>
   projl (hn_update_data [''20160104'', ''20160105''] [''000001.SZ''] example_holder_rows
       (projr (hn_rewrite_data [''20160104''] [''000001.SZ''] example_holder_rows empty_world)))
     = ValueError \<and>
   files (projr (hn_rewrite_data [''20160104'', ''20160105''] [''000001.SZ''] example_holder_rows
       empty_world)) ''holder_number.hdf5'' =
     Some \<lparr>df_index = [''20160104'', ''20160105''], df_columns = [''000001.SZ''],
            df_values = [[Num 100], [Num 100]]\<rparr>"
  by code_simp

section \<open>The dates of the delta\<close>

text \<open>
  Claim C6 on FloatVolume.  Two securities, the calendar 20160104, 20160105 fully
  persisted, then the calendar extended by 20160106, the only new date.  The panel
  persisted by \<open>update_data\<close> has the row 20160106 and, after it, second rows for
  20160104 and 20160105.
\<close>

theorem fv_update_duplicates_rows:
  "\<not> isl (fv_rewrite_data [''20160104'', ''20160105''] [''000001.SZ'', ''000002.SZ'']
       two_float_rows empty_world) \<and>
   \<not> isl (fv_update_data [''20160104'', ''20160105'', ''20160106''] [''000001.SZ'', ''000002.SZ'']
       two_float_rows
       (projr (fv_rewrite_data [''20160104'', ''20160105''] [''000001.SZ'', ''000002.SZ'']
          two_float_rows empty_world))) \<and>
   new_dates [''20160104'', ''20160105'', ''20160106'']
     (the (files (projr (fv_rewrite_data [''20160104'', ''20160105''] [''000001.SZ'', ''000002.SZ'']
          two_float_rows empty_world)) ''float_volume.hdf5'')) = [''20160106''] \<and>
   files (projr (fv_update_data [''20160104'', ''20160105'', ''20160106''] [''000001.SZ'', ''000002.SZ'']
       two_float_rows
       (projr (fv_rewrite_data [''20160104'', ''20160105''] [''000001.SZ'', ''000002.SZ'']
          two_float_rows empty_world)))) ''float_volume.hdf5'' =
     Some \<lparr>df_index = [''20160104'', ''20160105'', ''20160106'', ''20160104'', ''20160105''],
            df_columns = [''000001.SZ'', ''000002.SZ''],
            df_values = [[Num 10, Num 20], [Num 10, Num 20], [Num 10, Num 20],
                         [NaN, Num 20], [NaN, Num 20]]\<rparr>"
  by code_simp

section \<open>Placement at the period anchor\<close>

text \<open>
  Claim C5 on AnnFinancialIndicator.  One security reports 1 for the first quarter of
  2016 and 2 for the second.  The walk flushes \<open>stock_dict\<close> only when the code
  changes, so the first-quarter value is overwritten and then filed under the second
  quarter: the panel of the first quarter is empty at the anchor date and after it,
  where the claim places the value 1.  The last conjunct is the anchor on a calendar
  that has 20160101 as a date: the code takes 20160104, the first date after it.
\<close>

theorem afi_season_boundary_loses_record:
  "\<not> isl (afi_rewrite_data [''20160104'', ''20160105''] [''000001.SZ''] two_season_rows empty_world) \<and>
   files (projr (afi_rewrite_data [''20160104'', ''20160105''] [''000001.SZ''] two_season_rows
       empty_world)) (''S_FA_EPS_DILUTED'', 1) =
     Some \<lparr>df_index = [''20160104'', ''20160105''], df_columns = [''000001.SZ''],
            df_values = [[NaN], [NaN]]\<rparr> \<and>
   files (projr (afi_rewrite_data [''20160104'', ''20160105''] [''000001.SZ''] two_season_rows
       empty_world)) (''S_FA_EPS_DILUTED'', 2) =
     Some \<lparr>df_index = [''20160104'', ''20160105''], df_columns = [''000001.SZ''],
            df_values = [[Num 2], [Num 2]]\<rparr> \<and>
   afi_first_date [''20160101'', ''20160104''] ''2016'' = Inr ''20160104''"
proof -
  let ?I = "[''20160104'', ''20160105'']"
  let ?C = "[''000001.SZ'']"
  let ?r1 = "\<lparr>fin_WINDCODE = ''000001.SZ'', YEAR = ''2016'', SEASON = ''0331'',
      fin_value = no_values(''S_FA_EPS_DILUTED'' := Some 1)\<rparr>"
  let ?r2 = "\<lparr>fin_WINDCODE = ''000001.SZ'', YEAR = ''2016'', SEASON = ''0630'',
      fin_value = no_values(''S_FA_EPS_DILUTED'' := Some 2)\<rparr>"
  let ?M = "afi_copy afi_target_column ''0630'' ''000001.SZ''
      (afi_assign afi_target_column ?r2 ''20160104''
         (afi_assign afi_target_column ?r1 ''20160104'' (\<lambda>factor. []))) (\<lambda>sf. [])"
  have srt: "afi_rewrite_sort (fst (afi_read_data two_season_rows ''20160101'' empty_world)) = [?r1, ?r2]"
    by (simp add: afi_read_data_def afi_rewrite_sort_def two_season_rows_def)
  have m: "afi_main_dict ?I afi_target_column
      (afi_rewrite_sort (fst (afi_read_data two_season_rows ''20160101'' empty_world))) = Inr ?M"
    unfolding srt by (simp add: afi_main_dict_def afi_first_date_2016)
  from afi_rewrite_data_files [OF m, of ?C]
  obtain w' where run: "afi_rewrite_data ?I ?C two_season_rows empty_world = Inr w'"
    and fs: "\<And>factor n. files w' (factor, n) =
      (if factor \<in> set afi_target_column \<and> 0 < n \<and> n \<le> length (unique (map SEASON [?r1, ?r2]))
       then Some (afi_panel ?M ?I ?C (unique (map SEASON [?r1, ?r2]) ! (n - 1)) factor)
       else files empty_world (factor, n))"
    unfolding srt by blast
  have u: "unique (map SEASON [?r1, ?r2]) = [''0331'', ''0630'']"
    by (simp add: unique_def)
  have f1: "files w' (''S_FA_EPS_DILUTED'', 1) =
      Some (afi_panel ?M ?I ?C ''0331'' ''S_FA_EPS_DILUTED'')"
    using fs [of "''S_FA_EPS_DILUTED''" 1] unfolding u by (simp add: eps_in_afi_target_column)
  have f2: "files w' (''S_FA_EPS_DILUTED'', 2) =
      Some (afi_panel ?M ?I ?C ''0630'' ''S_FA_EPS_DILUTED'')"
    using fs [of "''S_FA_EPS_DILUTED''" 2] unfolding u by (simp add: eps_in_afi_target_column)
  have p1: "afi_panel ?M ?I ?C ''0331'' ''S_FA_EPS_DILUTED'' =
      \<lparr>df_index = ?I, df_columns = ?C, df_values = [[NaN], [NaN]]\<rparr>"
    by (simp add: eps_in_afi_target_column afi_panel_def afi_copy_apply
        DataFrame_def fillna_ffill_def replace_nan_def Let_def)
  have p2: "afi_panel ?M ?I ?C ''0630'' ''S_FA_EPS_DILUTED'' =
      \<lparr>df_index = ?I, df_columns = ?C, df_values = [[Num 2], [Num 2]]\<rparr>"
    by (simp add: eps_in_afi_target_column afi_panel_def afi_copy_apply afi_assign_apply
        DataFrame_def fillna_ffill_def replace_nan_def get_cell_def na_cell_def Let_def)
  have a: "afi_first_date [''20160101'', ''20160104''] ''2016'' = Inr ''20160104''"
    by (simp add: afi_first_date_def bisect_def bisect_loop.simps)
  show ?thesis
    using run f1 f2 p1 p2 a by simp
qed

section \<open>Continuity across the merge boundary\<close>

text \<open>
  Claim C2 on AnnFinancialIndicator.  One security with one report, value 3, carried
  on both dates of the persisted panel.  The calendar gains 20160106.  The merge
  fetches the same report again, anchors it on 20160104, which is not a new date, and
  builds the delta from nothing else: the persisted panel ends with a missing cell on
  20160106, where the claim continues the value 3.  (The HolderNumber and FloatVolume
  jobs fetch the last record before the first new date to seed the delta; this job
  has no such step.)
\<close>

theorem afi_merge_drops_carried_value:
  "\<not> isl (afi_rewrite_data [''20160104'', ''20160105''] [''000001.SZ''] one_report_rows empty_world) \<and>
   files (projr (afi_rewrite_data [''20160104'', ''20160105''] [''000001.SZ''] one_report_rows
       empty_world)) (''S_FA_EPS_DILUTED'', 1) =
     Some \<lparr>df_index = [''20160104'', ''20160105''], df_columns = [''000001.SZ''],
            df_values = [[Num 3], [Num 3]]\<rparr> \<and>
   \<not> isl (afi_update_data [''20160104'', ''20160105'', ''20160106''] [''000001.SZ''] one_report_rows
       (projr (afi_rewrite_data [''20160104'', ''20160105''] [''000001.SZ''] one_report_rows
          empty_world))) \<and>
   files (projr (afi_update_data [''20160104'', ''20160105'', ''20160106''] [''000001.SZ'']
       one_report_rows
       (projr (afi_rewrite_data [''20160104'', ''20160105''] [''000001.SZ''] one_report_rows
          empty_world)))) (''S_FA_EPS_DILUTED'', 1) =
     Some \<lparr>df_index = [''20160104'', ''20160105'', ''20160106''], df_columns = [''000001.SZ''],
            df_values = [[Num 3], [Num 3], [NaN]]\<rparr>"
proof -
  let ?I = "[''20160104'', ''20160105'']"
  let ?J = "[''20160104'', ''20160105'', ''20160106'']"
  let ?C = "[''000001.SZ'']"
  let ?r = "\<lparr>fin_WINDCODE = ''000001.SZ'', YEAR = ''2016'', SEASON = ''0331'',
      fin_value = no_values(''S_FA_EPS_DILUTED'' := Some 3)\<rparr>"
  let ?M = "afi_copy afi_target_column ''0331'' ''000001.SZ''
      (afi_assign afi_target_column ?r ''20160104'' (\<lambda>factor. [])) (\<lambda>sf. [])"
  let ?P = "\<lparr>df_index = ?I, df_columns = ?C, df_values = [[Num 3], [Num 3]]\<rparr>"
  have srt: "afi_rewrite_sort (fst (afi_read_data one_report_rows ''20160101'' empty_world)) = [?r]"
    by (simp add: afi_read_data_def afi_rewrite_sort_def one_report_rows_def)
  have m: "afi_main_dict ?I afi_target_column
      (afi_rewrite_sort (fst (afi_read_data one_report_rows ''20160101'' empty_world))) = Inr ?M"
    unfolding srt by (simp add: afi_main_dict_def afi_first_date_2016)
  from afi_rewrite_data_files [OF m, of ?C]
  obtain w1 where run1: "afi_rewrite_data ?I ?C one_report_rows empty_world = Inr w1"
    and fs1: "\<And>factor n. files w1 (factor, n) =
      (if factor \<in> set afi_target_column \<and> 0 < n \<and> n \<le> length (unique (map SEASON [?r]))
       then Some (afi_panel ?M ?I ?C (unique (map SEASON [?r]) ! (n - 1)) factor)
       else files empty_world (factor, n))"
    unfolding srt by blast
  have u: "unique (map SEASON [?r]) = [''0331'']" and u': "unique [''0331''] = [''0331'']"
    by (simp_all add: unique_def)
  have p1: "afi_panel ?M ?I ?C ''0331'' ''S_FA_EPS_DILUTED'' = ?P"
    by (simp add: eps_in_afi_target_column afi_panel_def afi_copy_apply afi_assign_apply
        DataFrame_def fillna_ffill_def replace_nan_def get_cell_def na_cell_def Let_def)
  have f1: "files w1 (''S_FA_EPS_DILUTED'', 1) = Some ?P"
    using fs1 [of "''S_FA_EPS_DILUTED''" 1] unfolding u
    by (simp add: eps_in_afi_target_column p1)
  have nd: "new_dates ?J ?P = ''20160106'' # []"
    by (simp add: new_dates_def sorted_set_def)
  have srt2: "afi_update_sort (fst (afi_read_data one_report_rows ''20160106'' w1)) = [?r]"
    by (simp add: afi_read_data_def afi_update_sort_def one_report_rows_def)
  have a: "afi_first_date ?J ''2016'' = Inr ''20160104''"
    by (simp add: afi_first_date_def bisect_def bisect_loop.simps)
  have m2: "afi_main_dict ?J afi_target_column
      (afi_update_sort (fst (afi_read_data one_report_rows ''20160106'' w1))) = Inr ?M"
    unfolding srt2 by (simp add: afi_main_dict_def a)
  have u2: "[''0331''] = unique (map SEASON
      (afi_update_sort (fst (afi_read_data one_report_rows ''20160106'' w1))))"
    unfolding srt2 by (simp add: unique_def)
  have ex: "\<forall>f \<in> set afi_target_column. \<forall>k < length [''0331''].
      \<exists>old. files w1 (f, k + 1) = Some old \<and> df_columns old = ?C"
    by (simp add: fs1 u u')
  from afi_update_data_files [OF f1 nd m2 u2 ex]
  obtain w2 where run2: "afi_update_data ?J ?C one_report_rows w1 = Inr w2"
    and fs2: "\<And>f n. files w2 (f, n) =
      (if f \<in> set afi_target_column \<and> 0 < n \<and> n \<le> length [''0331'']
       then map_option (\<lambda>old. \<lparr>df_index = df_index old @ [''20160106''], df_columns = ?C,
              df_values = df_values old @
                df_values (afi_panel ?M [''20160106''] ?C ([''0331''] ! (n - 1)) f)\<rparr>)
            (files w1 (f, n))
       else files w1 (f, n))"
    by blast
  have p2: "df_values (afi_panel ?M [''20160106''] ?C ''0331'' ''S_FA_EPS_DILUTED'') = [[NaN]]"
    by (simp add: eps_in_afi_target_column afi_panel_def afi_copy_apply afi_assign_apply
        DataFrame_def fillna_ffill_def replace_nan_def get_cell_def na_cell_def Let_def)
  have f2: "files w2 (''S_FA_EPS_DILUTED'', 1) =
      Some \<lparr>df_index = ?J, df_columns = ?C, df_values = [[Num 3], [Num 3], [NaN]]\<rparr>"
    using fs2 [of "''S_FA_EPS_DILUTED''" 1] f1 by (simp add: eps_in_afi_target_column p2)
  show ?thesis
    using run1 f1 run2 f2 by simp
qed

section \<open>Reported nulls in the period-anchored build\<close>

lemma afi_anchor_in_index:
  assumes "bisect index (YEAR r @ ''0101'') < length index"
  shows "afi_anchor index r \<in> set index"
  using assms by (simp add: afi_anchor_def)

text \<open>
  The full build of AnnFinancialIndicator, on a strictly ascending calendar, for a
  record stream in which every record has an anchor date and neighbours of one code
  belong to one season.  The build succeeds, and in the panel of every factor and
  season no cell is the marker \<open>'NA'\<close>, and the cell of a security on a date is the
  value of the record that LOCF shows there, missing when that record reports no
  value and missing when there is no such record.
\<close>

lemma afi_rewrite_data_cells:
  assumes "sorted index" and "distinct index"
    and "rs = afi_rewrite_sort (fst (afi_read_data db ''20160101'' w))"
    and "rs \<noteq> []"
    and "\<forall>r \<in> set rs. bisect index (YEAR r @ ''0101'') < length index"
    and "one_season_per_run rs"
  shows "\<exists>w'. afi_rewrite_data index column db w = Inr w' \<and>
    (\<forall>f \<in> set afi_target_column. \<forall>k < length (unique (map SEASON rs)).
       \<exists>p. files w' (f, k + 1) = Some p \<and>
         (\<forall>row \<in> set (df_values p). Str ''NA'' \<notin> set row) \<and>
         (\<forall>c \<in> set column. \<forall>d \<in> set index.
            cell_at p d c =
              Some (case locf_record (afi_anchor index)
                      (filter (\<lambda>r. SEASON r = unique (map SEASON rs) ! k \<and> fin_WINDCODE r = c) rs) d of
                      None \<Rightarrow> NaN | Some r \<Rightarrow> num_cell (fin_value r f))))"
proof -
  have grp: "afi_grouped rs"
    using afi_rewrite_sort_sorted [of "fst (afi_read_data db ''20160101'' w)"] assms(3,6)
    by (simp add: afi_grouped_sorted)
  have anchors: "\<forall>r \<in> set rs. afi_anchor index r \<in> set index"
    using assms(5) afi_anchor_in_index by blast
  obtain main_dict where m: "afi_main_dict index afi_target_column rs = Inr main_dict"
    using afi_main_dict_lookup [OF assms(4,5) grp eps_in_afi_target_column] by blast
  have lk: "\<forall>s c a. dict_get2 (main_dict (s, f)) c a =
      (if \<exists>r \<in> set rs. SEASON r = s \<and> fin_WINDCODE r = c \<and> afi_anchor index r = a
       then Some (na_cell (fin_value
              (last (filter (\<lambda>r. SEASON r = s \<and> fin_WINDCODE r = c \<and> afi_anchor index r = a) rs)) f))
       else None)" if "f \<in> set afi_target_column" for f
    using afi_main_dict_lookup [OF assms(4,5) grp that] m by auto
  from afi_rewrite_data_files [OF m [unfolded assms(3)], of column]
  obtain w' where run: "afi_rewrite_data index column db w = Inr w'"
    and fs: "\<And>factor n. files w' (factor, n) =
      (if factor \<in> set afi_target_column \<and> 0 < n \<and> n \<le> length (unique (map SEASON rs))
       then Some (afi_panel main_dict index column (unique (map SEASON rs) ! (n - 1)) factor)
       else files w (factor, n))"
    unfolding assms(3) [symmetric] by blast
  have "\<exists>p. files w' (f, k + 1) = Some p \<and>
         (\<forall>row \<in> set (df_values p). Str ''NA'' \<notin> set row) \<and>
         (\<forall>c \<in> set column. \<forall>d \<in> set index.
            cell_at p d c =
              Some (case locf_record (afi_anchor index)
                      (filter (\<lambda>r. SEASON r = unique (map SEASON rs) ! k \<and> fin_WINDCODE r = c) rs) d of
                      None \<Rightarrow> NaN | Some r \<Rightarrow> num_cell (fin_value r f)))"
    if f: "f \<in> set afi_target_column" and k: "k < length (unique (map SEASON rs))" for f k
  proof -
    let ?s = "unique (map SEASON rs) ! k"
    let ?p = "afi_panel main_dict index column ?s f"
    have "files w' (f, k + 1) = Some ?p"
      using f k by (simp add: fs)
    moreover have "\<forall>row \<in> set (df_values ?p). Str ''NA'' \<notin> set row"
      unfolding afi_panel_def using replace_nan_none_left [of "Str ''NA''"] by blast
    moreover have "cell_at ?p d c =
              Some (case locf_record (afi_anchor index)
                      (filter (\<lambda>r. SEASON r = ?s \<and> fin_WINDCODE r = c) rs) d of
                      None \<Rightarrow> NaN | Some r \<Rightarrow> num_cell (fin_value r f))"
      if "c \<in> set column" and "d \<in> set index" for c d
      using lk [OF f] by (intro afi_panel_cell [OF assms(1,2) that(2,1) _ anchors]) blast
    ultimately show ?thesis by blast
  qed
  with run show ?thesis by blast
qed

lemma locf_record_in:
  assumes "r2 \<in> set rs" and "key r2 \<le> d"
  shows "\<exists>r \<in> set rs. locf_record key rs d = Some r \<and> key r2 \<le> key r \<and> key r \<le> d"
proof -
  let ?K = "filter (\<lambda>r. key r \<le> d) rs"
  let ?A = "Max (set (map key ?K))"
  have in_K: "r2 \<in> set ?K"
    using assms by simp
  then have ne: "?K \<noteq> []"
    by (metis empty_iff empty_set)
  have "set (map key ?K) \<noteq> {}"
    using in_K by auto
  then have "?A \<in> set (map key ?K)"
    by (rule Max_in [OF List.finite_set])
  then obtain x where x: "x \<in> set rs" "key x \<le> d" "key x = ?A"
    by auto
  have ge: "key r2 \<le> ?A"
    using in_K by (intro Max_ge) simp_all
  let ?F = "filter (\<lambda>r. key r = ?A) rs"
  have "x \<in> set ?F"
    using x by simp
  then have "?F \<noteq> []"
    by (metis empty_iff empty_set)
  then have "last ?F \<in> set ?F"
    by (rule last_in_set)
  then have "last ?F \<in> set rs" and "key (last ?F) = ?A"
    by simp_all
  moreover have "?A \<le> d"
    using x by simp
  moreover have "locf_record key rs d = Some (last ?F)"
    by (simp only: locf_record_def if_not_P [OF ne])
  ultimately show ?thesis
    using ge by auto
qed

text \<open>
  The full build of AnnFinancialIndicator on a strictly ascending calendar,
  for a record stream in which every record has an anchor date and neighbours of one
  code belong to one season.  Let a record of season \<open>k + 1\<close> and security \<open>c\<close> be
  anchored at \<open>d2\<close>, on or before the date \<open>d\<close>, and let every record of that season
  and security anchored from \<open>d2\<close> to \<open>d\<close> report no value for the factor (the record is
  a reported null, and no later record with a value has come by \<open>d\<close>).  Then the build
  succeeds and the cell of \<open>c\<close> on \<open>d\<close> in the persisted panel is missing, whatever the
  security reported before \<open>d2\<close>: a value anchored on an earlier date is not carried
  over the reported null.  And no cell of the persisted panel is the marker \<open>'NA'\<close>.
\<close>

lemma afi_reported_null_in_season:
  assumes "sorted index" and "distinct index"
    and "rs = afi_rewrite_sort (fst (afi_read_data db ''20160101'' w))"
    and "\<forall>r \<in> set rs. bisect index (YEAR r @ ''0101'') < length index"
    and "one_season_per_run rs"
    and "f \<in> set afi_target_column" and "c \<in> set column" and "d \<in> set index"
    and "k < length (unique (map SEASON rs))"
    and "r2 \<in> set rs" and "SEASON r2 = unique (map SEASON rs) ! k" and "fin_WINDCODE r2 = c"
    and "afi_anchor index r2 \<le> d"
    and "\<forall>r \<in> set rs. SEASON r = SEASON r2 \<and> fin_WINDCODE r = c \<and>
           afi_anchor index r2 \<le> afi_anchor index r \<and> afi_anchor index r \<le> d \<longrightarrow>
           fin_value r f = None"
  shows "\<exists>w' p. afi_rewrite_data index column db w = Inr w' \<and>
    files w' (f, k + 1) = Some p \<and> cell_at p d c = Some NaN \<and>
    (\<forall>row \<in> set (df_values p). Str ''NA'' \<notin> set row)"
proof -
  let ?s = "unique (map SEASON rs) ! k"
  let ?G = "filter (\<lambda>r. SEASON r = ?s \<and> fin_WINDCODE r = c) rs"
  have ne: "rs \<noteq> []"
    using assms(10) by auto
  from afi_rewrite_data_cells [OF assms(1,2,3) ne assms(4,5), of column] assms(6,9)
  obtain w' p where run: "afi_rewrite_data index column db w = Inr w'"
    and fl: "files w' (f, k + 1) = Some p"
    and na: "\<forall>row \<in> set (df_values p). Str ''NA'' \<notin> set row"
    and cells: "\<forall>c \<in> set column. \<forall>d \<in> set index. cell_at p d c =
        Some (case locf_record (afi_anchor index)
                (filter (\<lambda>r. SEASON r = ?s \<and> fin_WINDCODE r = c) rs) d of
                None \<Rightarrow> NaN | Some r \<Rightarrow> num_cell (fin_value r f))"
    by blast
  have "r2 \<in> set ?G"
    using assms(10,11,12) by simp
  from locf_record_in [of r2 ?G "afi_anchor index" d, OF this assms(13)]
  obtain r where r: "r \<in> set ?G" "locf_record (afi_anchor index) ?G d = Some r"
      "afi_anchor index r2 \<le> afi_anchor index r" "afi_anchor index r \<le> d"
    by blast
  have "fin_value r f = None"
    using r(1,3,4) assms(11,14) by simp
  then have "cell_at p d c = Some NaN"
    using cells assms(7,8) r(2) by (simp add: num_cell_def)
  with run fl na show ?thesis by blast
qed

text \<open>The lemma for the security that reports a diluted EPS of 3 for 2016 and no
  diluted EPS for 2017, on the second trading day of 2017.\<close>

lemma afi_reported_null_in_season_example:
  "\<exists>w' p. afi_rewrite_data [''20160104'', ''20160105'', ''20170103'', ''20170104''] [''000001.SZ'']
        null_report_rows empty_world = Inr w' \<and>
     files w' (''S_FA_EPS_DILUTED'', 0 + 1) = Some p \<and>
     cell_at p ''20170104'' ''000001.SZ'' = Some NaN \<and>
     (\<forall>row \<in> set (df_values p). Str ''NA'' \<notin> set row)"
proof -
  let ?I = "[''20160104'', ''20160105'', ''20170103'', ''20170104'']"
  let ?r1 = "\<lparr>fin_WINDCODE = ''000001.SZ'', YEAR = ''2016'', SEASON = ''1231'',
      fin_value = no_values(''S_FA_EPS_DILUTED'' := Some 3)\<rparr>"
  let ?r2 = "\<lparr>fin_WINDCODE = ''000001.SZ'', YEAR = ''2017'', SEASON = ''1231'',
      fin_value = no_values\<rparr>"
  have srt: "afi_rewrite_sort (fst (afi_read_data null_report_rows ''20160101'' empty_world)) = [?r1, ?r2]"
    by (simp add: afi_read_data_def afi_rewrite_sort_def null_report_rows_def)
  have b: "bisect ?I ''20160101'' = 0" "bisect ?I ''20170101'' = 2"
    by (simp_all add: bisect_def bisect_loop.simps)
  have u: "unique (map SEASON [?r1, ?r2]) = [''1231'']"
    by (simp add: unique_def)
  show ?thesis
  proof (rule afi_reported_null_in_season [where ?r2.0 = ?r2 and rs = "[?r1, ?r2]"])
    show "sorted ?I" by simp
    show "distinct ?I" by simp
    show "[?r1, ?r2] = afi_rewrite_sort (fst (afi_read_data null_report_rows ''20160101'' empty_world))"
      by (simp only: srt)
    show "\<forall>r \<in> set [?r1, ?r2]. bisect ?I (YEAR r @ ''0101'') < length ?I"
      by (simp add: b)
    show "one_season_per_run [?r1, ?r2]" by simp
    show "''S_FA_EPS_DILUTED'' \<in> set afi_target_column"
      by (rule eps_in_afi_target_column)
    show "''000001.SZ'' \<in> set [''000001.SZ'']" by simp
    show "''20170104'' \<in> set ?I" by simp
    show "0 < length (unique (map SEASON [?r1, ?r2]))" unfolding u by simp
    show "?r2 \<in> set [?r1, ?r2]" by simp
    show "SEASON ?r2 = unique (map SEASON [?r1, ?r2]) ! 0" unfolding u by simp
    show "fin_WINDCODE ?r2 = ''000001.SZ''" by simp
    show "afi_anchor ?I ?r2 \<le> ''20170104''"
      by (simp add: afi_anchor_def b)
    show "\<forall>r \<in> set [?r1, ?r2]. SEASON r = SEASON ?r2 \<and> fin_WINDCODE r = ''000001.SZ'' \<and>
           afi_anchor ?I ?r2 \<le> afi_anchor ?I r \<and> afi_anchor ?I r \<le> ''20170104'' \<longrightarrow>
           fin_value r ''S_FA_EPS_DILUTED'' = None"
      by (simp add: afi_anchor_def b no_values_def)
  qed
qed

text \<open>
  Claim C8 on AnnFinancialIndicator.  One security reports 7 for the first quarter of
  2018, 1 for the second quarter of 2016 and no value (a NULL) for the second quarter
  of 2017; the calendar has the first trading day of 2016 and of 2017 and the first
  two of 2018.  The walk flushes \<open>stock_dict\<close> only when the code changes, so the
  first-quarter record stays in it and is filed under the second quarter: the panel
  of the second quarter has 1 on 20160104, is missing on 20170103, and has 7 on
  20180102 and 20180103, where the claim has it missing, the security having no
  second-quarter record after the reported null.  The panel of the first quarter has
  no value at all.
\<close>

theorem afi_reported_null_overridden:
  "\<not> isl (afi_rewrite_data [''20160104'', ''20170103'', ''20180102'', ''20180103''] [''000001.SZ'']
       leaked_report_rows empty_world) \<and>
   files (projr (afi_rewrite_data [''20160104'', ''20170103'', ''20180102'', ''20180103'']
       [''000001.SZ''] leaked_report_rows empty_world)) (''S_FA_EPS_DILUTED'', 2) =
     Some \<lparr>df_index = [''20160104'', ''20170103'', ''20180102'', ''20180103''],
            df_columns = [''000001.SZ''],
            df_values = [[Num 1], [NaN], [Num 7], [Num 7]]\<rparr> \<and>
   files (projr (afi_rewrite_data [''20160104'', ''20170103'', ''20180102'', ''20180103'']
       [''000001.SZ''] leaked_report_rows empty_world)) (''S_FA_EPS_DILUTED'', 1) =
     Some \<lparr>df_index = [''20160104'', ''20170103'', ''20180102'', ''20180103''],
            df_columns = [''000001.SZ''],
            df_values = [[NaN], [NaN], [NaN], [NaN]]\<rparr>"
proof -
  let ?I = "[''20160104'', ''20170103'', ''20180102'', ''20180103'']"
  let ?C = "[''000001.SZ'']"
  let ?r1 = "\<lparr>fin_WINDCODE = ''000001.SZ'', YEAR = ''2018'', SEASON = ''0331'',
      fin_value = no_values(''S_FA_EPS_DILUTED'' := Some 7)\<rparr>"
  let ?r2 = "\<lparr>fin_WINDCODE = ''000001.SZ'', YEAR = ''2016'', SEASON = ''0630'',
      fin_value = no_values(''S_FA_EPS_DILUTED'' := Some 1)\<rparr>"
  let ?r3 = "\<lparr>fin_WINDCODE = ''000001.SZ'', YEAR = ''2017'', SEASON = ''0630'',
      fin_value = no_values\<rparr>"
  let ?M = "afi_copy afi_target_column ''0630'' ''000001.SZ''
      (afi_assign afi_target_column ?r3 ''20170103''
         (afi_assign afi_target_column ?r2 ''20160104''
            (afi_assign afi_target_column ?r1 ''20180102'' (\<lambda>factor. [])))) (\<lambda>sf. [])"
  have srt: "afi_rewrite_sort (fst (afi_read_data leaked_report_rows ''20160101'' empty_world)) =
      [?r1, ?r2, ?r3]"
    by (simp add: afi_read_data_def afi_rewrite_sort_def leaked_report_rows_def)
  have a: "afi_first_date ?I ''2016'' = Inr ''20160104''"
      "afi_first_date ?I ''2017'' = Inr ''20170103''"
      "afi_first_date ?I ''2018'' = Inr ''20180102''"
    by (simp_all add: afi_first_date_def bisect_def bisect_loop.simps)
  have m: "afi_main_dict ?I afi_target_column
      (afi_rewrite_sort (fst (afi_read_data leaked_report_rows ''20160101'' empty_world))) = Inr ?M"
    unfolding srt by (simp add: afi_main_dict_def a)
  from afi_rewrite_data_files [OF m, of ?C]
  obtain w' where run: "afi_rewrite_data ?I ?C leaked_report_rows empty_world = Inr w'"
    and fs: "\<And>factor n. files w' (factor, n) =
      (if factor \<in> set afi_target_column \<and> 0 < n \<and>
          n \<le> length (unique (map SEASON [?r1, ?r2, ?r3]))
       then Some (afi_panel ?M ?I ?C (unique (map SEASON [?r1, ?r2, ?r3]) ! (n - 1)) factor)
       else files empty_world (factor, n))"
    unfolding srt by blast
  have u: "unique (map SEASON [?r1, ?r2, ?r3]) = [''0331'', ''0630'']"
    by (simp add: unique_def)
  have f1: "files w' (''S_FA_EPS_DILUTED'', 1) =
      Some (afi_panel ?M ?I ?C ''0331'' ''S_FA_EPS_DILUTED'')"
    using fs [of "''S_FA_EPS_DILUTED''" 1] unfolding u by (simp add: eps_in_afi_target_column)
  have f2: "files w' (''S_FA_EPS_DILUTED'', 2) =
      Some (afi_panel ?M ?I ?C ''0630'' ''S_FA_EPS_DILUTED'')"
    using fs [of "''S_FA_EPS_DILUTED''" 2] unfolding u by (simp add: eps_in_afi_target_column)
  have p1: "afi_panel ?M ?I ?C ''0331'' ''S_FA_EPS_DILUTED'' =
      \<lparr>df_index = ?I, df_columns = ?C, df_values = [[NaN], [NaN], [NaN], [NaN]]\<rparr>"
    by (simp add: eps_in_afi_target_column afi_panel_def afi_copy_apply
        DataFrame_def fillna_ffill_def replace_nan_def Let_def)
  have p2: "afi_panel ?M ?I ?C ''0630'' ''S_FA_EPS_DILUTED'' =
      \<lparr>df_index = ?I, df_columns = ?C, df_values = [[Num 1], [NaN], [Num 7], [Num 7]]\<rparr>"
    by (simp add: eps_in_afi_target_column afi_panel_def afi_copy_apply afi_assign_apply
        DataFrame_def fillna_ffill_def replace_nan_def get_cell_def na_cell_def no_values_def Let_def)
  show ?thesis
    using run f1 f2 p1 p2 by simp
qed

end
